theory Spec2Isabelle
  imports Main "HOL-Library.Word" "HOL-Library.Sublist"
begin

section \<open>API values and errors\<close>

text \<open>
  The embedding follows \<^verbatim>\<open>src/nvim/api/command.c\<close>.  An API \<^verbatim>\<open>Object\<close> is a tagged
  union; \<^verbatim>\<open>Integer\<close>, \<^verbatim>\<open>Buffer\<close>, \<^verbatim>\<open>Window\<close> and \<^verbatim>\<open>Tabpage\<close> all carry an
  \<^verbatim>\<open>int64_t\<close> (read through \<^verbatim>\<open>data.integer\<close>).  \<^verbatim>\<open>HAS_KEY(x)\<close> is
  \<^verbatim>\<open>x.type != kObjectTypeNil\<close>.
\<close>

datatype ErrorType = kErrorTypeException | kErrorTypeValidation

type_synonym Error = "ErrorType \<times> string"

datatype Object =
    NIL
  | BOOLEAN_OBJ bool
  | INTEGER_OBJ "64 word"
  | FLOAT_OBJ "64 word"
  | STRING_OBJ string
  | ARRAY_OBJ "Object list"
  | DICTIONARY_OBJ "(string \<times> Object) list"
  | LUAREF_OBJ nat
  | BUFFER_OBJ "64 word"
  | WINDOW_OBJ "64 word"
  | TABPAGE_OBJ "64 word"

type_synonym Dictionary = "(string \<times> Object) list"

definition HAS_KEY :: "Object \<Rightarrow> bool" where
  "HAS_KEY x = (x \<noteq> NIL)"

abbreviation NUL :: char where
  "NUL \<equiv> CHR 0x00"

text \<open>A key name in single quotes, as the messages print it.\<close>

definition quoted :: "string \<Rightarrow> string" where
  "quoted s = CHR 0x27 # s @ [CHR 0x27]"

definition VALIDATION_ERROR :: "string \<Rightarrow> Error + 'a" where
  "VALIDATION_ERROR msg = Inl (kErrorTypeValidation, msg)"

text \<open>Sequencing of fallible steps: the first error ends the call (\<^verbatim>\<open>goto end\<close>).\<close>

definition and_then :: "Error + 'a \<Rightarrow> ('a \<Rightarrow> Error + 'b) \<Rightarrow> Error + 'b" where
  "and_then m f = (case m of Inl e \<Rightarrow> Inl e | Inr x \<Rightarrow> f x)"

text \<open>A C string ends at its first NUL: \<^verbatim>\<open>string_to_cstr\<close>, \<^verbatim>\<open>xstrndup\<close>, \<^verbatim>\<open>strlen\<close>.\<close>

definition cstr :: "string \<Rightarrow> string" where
  "cstr s = takeWhile (\<lambda>c. c \<noteq> NUL) s"

text \<open>\<^verbatim>\<open>printf("%d")\<close>: the decimal form of a signed integer.\<close>

definition digit_char :: "nat \<Rightarrow> char" where
  "digit_char d = char_of (48 + d)"

fun dec_nat :: "nat \<Rightarrow> string" where
  "dec_nat n = (if n < 10 then [digit_char n] else dec_nat (n div 10) @ [digit_char (n mod 10)])"

declare dec_nat.simps [simp del]

definition PRId :: "int \<Rightarrow> string" where
  "PRId i = (if i < 0 then CHR ''-'' # dec_nat (nat (- i)) else dec_nat (nat i))"

text \<open>Reading a decimal numeral back, used to state what "decimal form" means.\<close>

definition digit_val :: "char \<Rightarrow> nat" where
  "digit_val c = of_char c - 48"

definition nat_of_dec :: "string \<Rightarrow> nat" where
  "nat_of_dec s = foldl (\<lambda>acc c. 10 * acc + digit_val c) 0 s"

definition int_of_dec :: "string \<Rightarrow> int" where
  "int_of_dec s = (case s of
       [] \<Rightarrow> 0
     | c # cs \<Rightarrow> if c = CHR ''-'' then - int (nat_of_dec cs) else int (nat_of_dec s))"

section \<open>The command being built: \<^verbatim>\<open>exarg_T\<close> and \<^verbatim>\<open>CmdParseInfo\<close>\<close>

text \<open>
  \<^verbatim>\<open>ea.argt\<close> is a bit mask of \<^verbatim>\<open>EX_*\<close> flags.  The numeric values of the flags are
  declared in a header that is not part of \<^verbatim>\<open>command.c\<close>; each flag is one
  bit, so the mask is kept as the set of flags that are on:
  \<^verbatim>\<open>argt & EX_X\<close> is membership, \<^verbatim>\<open>argt |= EX_X\<close> is insertion and a \<^verbatim>\<open>switch\<close> on
  \<^verbatim>\<open>argt & (A | B | C)\<close> compares the intersection with \<open>{A, B, C}\<close>.
\<close>

datatype ex_flag =
    EX_RANGE | EX_BANG | EX_EXTRA | EX_XFILE | EX_NOSPC | EX_DFLALL | EX_NEEDARG
  | EX_TRLBAR | EX_REGSTR | EX_COUNT | EX_ZEROR | EX_SBOXOK | EX_KEEPSCRIPT | EX_PREVIEW
  | EX_OTHER nat

datatype cmd_addr_T =
    ADDR_LINES | ADDR_WINDOWS | ADDR_ARGUMENTS | ADDR_LOADED_BUFFERS | ADDR_BUFFERS
  | ADDR_TABS | ADDR_TABS_RELATIVE | ADDR_QUICKFIX_VALID | ADDR_QUICKFIX | ADDR_UNSIGNED
  | ADDR_OTHER | ADDR_NONE

text \<open>
  \<^verbatim>\<open>cmdidx_T\<close>: the built-in commands (of which only \<^verbatim>\<open>CMD_put\<close> is named in this
  file), \<^verbatim>\<open>CMD_SIZE\<close> for "no such command", and the two user-command indices.
\<close>

datatype cmdidx_T = CMD_put | CMD_builtin nat | CMD_SIZE | CMD_USER | CMD_USER_BUF

definition IS_USER_CMDIDX :: "cmdidx_T \<Rightarrow> bool" where
  "IS_USER_CMDIDX idx = (idx = CMD_USER \<or> idx = CMD_USER_BUF)"

type_synonym linenr_T = "32 word"

record exarg_T =
  arg :: string
  cmd :: string
  nextcmd :: string
  argt :: "ex_flag set"
  cmdidx :: cmdidx_T
  useridx :: int
  addr_type :: cmd_addr_T
  addr_count :: int
  line1 :: linenr_T
  line2 :: linenr_T
  regname :: char
  forceit :: bool

text \<open>\<^verbatim>\<open>CLEAR_FIELD(ea)\<close>: every field zero.\<close>

definition exarg_clear :: exarg_T where
  "exarg_clear = \<lparr> arg = [], cmd = [], nextcmd = [], argt = {}, cmdidx = CMD_builtin 0,
     useridx = 0, addr_type = ADDR_LINES, addr_count = 0, line1 = 0, line2 = 0,
     regname = NUL, forceit = False \<rparr>"

datatype cmod_flag =
    CMOD_SILENT | CMOD_ERRSILENT | CMOD_UNSILENT | CMOD_SANDBOX | CMOD_NOAUTOCMD
  | CMOD_BROWSE | CMOD_CONFIRM | CMOD_HIDE | CMOD_KEEPALT | CMOD_KEEPJUMPS
  | CMOD_KEEPMARKS | CMOD_KEEPPATTERNS | CMOD_LOCKMARKS | CMOD_NOSWAPFILE

datatype wsp_flag = WSP_VERT | WSP_HOR | WSP_ABOVE | WSP_BELOW | WSP_TOP | WSP_BOT

record cmdmod_T =
  cmod_flags :: "cmod_flag set"
  cmod_split :: "wsp_flag set"
  cmod_tab :: "32 word"
  cmod_verbose :: "32 word"
  cmod_filter_pat :: "string option"
  cmod_filter_force :: bool
  cmod_filter_regprog :: "nat option"

record CmdParseInfo =
  cmdmod :: cmdmod_T
  magic_file :: bool
  magic_bar :: bool

definition cmdmod_clear :: cmdmod_T where
  "cmdmod_clear = \<lparr> cmod_flags = {}, cmod_split = {}, cmod_tab = 0, cmod_verbose = 0,
     cmod_filter_pat = None, cmod_filter_force = False, cmod_filter_regprog = None \<rparr>"

definition cmdinfo_clear :: CmdParseInfo where
  "cmdinfo_clear = \<lparr> cmdmod = cmdmod_clear, magic_file = False, magic_bar = False \<rparr>"


section \<open>Collaborators of \<^verbatim>\<open>nvim_cmd\<close>\<close>

text \<open>
  The functions below are called by \<^verbatim>\<open>command.c\<close> and defined elsewhere in the
  editor.  They are parameters of the model; each is given the type of what it reads
  and of the fields it writes.
  \<^item> \<open>api_object_to_bool obj what dflt\<close>: the Boolean an Object stands for, \<open>dflt\<close>
    being the third argument passed at the call site, or the error it sets;
  \<^item> \<open>find_ex_command\<close>: looks the name \<^verbatim>\<open>ea.cmd\<close> up; yields whether the returned
    pointer is non-NULL and the \<^verbatim>\<open>cmdidx\<close>, \<^verbatim>\<open>useridx\<close>, \<^verbatim>\<open>argt\<close> and \<^verbatim>\<open>addr_type\<close>
    it stores in \<^verbatim>\<open>ea\<close>; \<open>find_ex_command_again\<close> is the same lookup once the
    CmdUndefined autocommands have run (they may have defined the command);
  \<^item> \<open>apply_autocmds_CMDUNDEFINED\<close>: \<^verbatim>\<open>ret && !aborting()\<close> after the autocommands;
  \<^item> \<open>set_cmd_addr_type\<close>: the address type it stores in \<^verbatim>\<open>ea.addr_type\<close>;
  \<^item> \<open>invalid_range\<close>: whether it returns an error message;
  \<^item> \<open>set_cmd_dflall_range\<close>: the \<^verbatim>\<open>line1\<close>, \<^verbatim>\<open>line2\<close> it stores;
  \<^item> \<open>set_cmd_count\<close>: the \<^verbatim>\<open>line1\<close>, \<^verbatim>\<open>line2\<close>, \<^verbatim>\<open>addr_count\<close> it stores;
  \<^item> \<open>replace_makeprg\<close>: \<open>None\<close> when it returns \<^verbatim>\<open>eap->arg\<close> itself, otherwise the
    line it puts in \<^verbatim>\<open>*cmdlinep\<close> and the offset in it of the pointer it returns;
  \<^item> \<open>keydict_*\<close>: \<^verbatim>\<open>api_dict_to_keydict\<close> at the three key sets.
\<close>

record found_cmd =
  found_p :: bool
  found_cmdidx :: cmdidx_T
  found_useridx :: int
  found_argt :: "ex_flag set"
  found_addr_type :: cmd_addr_T

record Dict_cmd_magic =
  mg_file :: Object
  mg_bar :: Object

record Dict_cmd_mods_filter =
  filter_pattern :: Object
  filter_force :: Object

record Dict_cmd_mods =
  mods_filter :: Object
  mods_silent :: Object
  mods_emsg_silent :: Object
  mods_unsilent :: Object
  mods_sandbox :: Object
  mods_noautocmd :: Object
  mods_browse :: Object
  mods_confirm :: Object
  mods_hide :: Object
  mods_horizontal :: Object
  mods_keepalt :: Object
  mods_keepjumps :: Object
  mods_keepmarks :: Object
  mods_keeppatterns :: Object
  mods_lockmarks :: Object
  mods_noswapfile :: Object
  mods_tab :: Object
  mods_verbose :: Object
  mods_vertical :: Object
  mods_split :: Object

record Dict_cmd =
  cmd_cmd :: Object
  cmd_range :: Object
  cmd_count :: Object
  cmd_reg :: Object
  cmd_bang :: Object
  cmd_args :: Object
  cmd_magic :: Object
  cmd_mods :: Object

record Dict_cmd_opts =
  opts_output :: Object

record api_env =
  api_object_to_bool :: "Object \<Rightarrow> string \<Rightarrow> bool \<Rightarrow> Error + bool"

record cmd_env = api_env +
  ascii_iswhite :: "char \<Rightarrow> bool"
  ASCII_ISUPPER :: "char \<Rightarrow> bool"
  find_ex_command :: "string \<Rightarrow> found_cmd"
  has_event_CMDUNDEFINED :: bool
  apply_autocmds_CMDUNDEFINED :: "string \<Rightarrow> bool"
  find_ex_command_again :: "string \<Rightarrow> found_cmd"
  is_cmd_ni :: "cmdidx_T \<Rightarrow> bool"
  get_cmd_argt :: "cmdidx_T \<Rightarrow> ex_flag set"
  set_cmd_addr_type :: "exarg_T \<Rightarrow> string option \<Rightarrow> cmd_addr_T"
  invalid_range :: "exarg_T \<Rightarrow> bool"
  set_cmd_dflall_range :: "exarg_T \<Rightarrow> linenr_T \<times> linenr_T"
  get_cmd_default_range :: "exarg_T \<Rightarrow> linenr_T"
  set_cmd_count :: "exarg_T \<Rightarrow> linenr_T \<Rightarrow> bool \<Rightarrow> linenr_T \<times> linenr_T \<times> int"
  valid_yank_reg :: "char \<Rightarrow> bool \<Rightarrow> bool"
  vim_regcomp :: "string \<Rightarrow> nat option"
  replace_makeprg :: "exarg_T \<Rightarrow> string \<Rightarrow> (string \<times> nat) option"
  keydict_cmd_magic :: "Dictionary \<Rightarrow> Error + Dict_cmd_magic"
  keydict_cmd_mods :: "Dictionary \<Rightarrow> Error + Dict_cmd_mods"
  keydict_cmd_mods_filter :: "Dictionary \<Rightarrow> Error + Dict_cmd_mods_filter"

section \<open>\<^verbatim>\<open>nvim_cmd\<close>: validation of a structured command\<close>

subsection \<open>Command name and lookup\<close>

definition first_char :: "string \<Rightarrow> char" where
  "first_char s = (case s of [] \<Rightarrow> NUL | c # _ \<Rightarrow> c)"

definition check_cmd_name :: "Object \<Rightarrow> Error + string" where
  "check_cmd_name c = (case c of
       STRING_OBJ s \<Rightarrow>
         if first_char s = NUL then VALIDATION_ERROR (quoted ''cmd'' @ '' must be a non-empty String'')
         else Inr (cstr s)
     | _ \<Rightarrow> VALIDATION_ERROR (quoted ''cmd'' @ '' must be a non-empty String''))"

definition find_command :: "'a cmd_env_scheme \<Rightarrow> string \<Rightarrow> Error + exarg_T" where
  "find_command env cmdname =
    (let f0 = find_ex_command env cmdname;
         f = (if found_p f0 \<and> found_cmdidx f0 = CMD_SIZE \<and> ASCII_ISUPPER env (first_char cmdname)
                 \<and> has_event_CMDUNDEFINED env
              then (if apply_autocmds_CMDUNDEFINED env cmdname
                    then find_ex_command_again env cmdname else f0)
              else f0)
     in if \<not> found_p f \<or> found_cmdidx f = CMD_SIZE
        then VALIDATION_ERROR (''Command not found: '' @ cmdname)
        else if is_cmd_ni env (found_cmdidx f)
        then VALIDATION_ERROR (''Command not implemented: '' @ cmdname)
        else Inr (exarg_clear \<lparr> cmd := cmdname, cmdidx := found_cmdidx f,
                    useridx := found_useridx f, addr_type := found_addr_type f,
                    argt := (if IS_USER_CMDIDX (found_cmdidx f) then found_argt f
                             else get_cmd_argt env (found_cmdidx f)) \<rparr>))"

subsection \<open>Arguments\<close>

text \<open>\<^verbatim>\<open>string_iswhite\<close>, lines 745-758.\<close>

fun string_iswhite :: "(char \<Rightarrow> bool) \<Rightarrow> string \<Rightarrow> bool" where
  "string_iswhite iswhite [] = True"
| "string_iswhite iswhite (c # cs) =
     (if \<not> iswhite c then False
      else if c = NUL then True
      else string_iswhite iswhite cs)"

text \<open>One turn of the loop of lines 406-436: the string an element becomes.\<close>

definition convert_arg :: "'a cmd_env_scheme \<Rightarrow> Object \<Rightarrow> Error + string" where
  "convert_arg env elem = (case elem of
       BOOLEAN_OBJ b \<Rightarrow> Inr (if b then ''1'' else ''0'')
     | BUFFER_OBJ n \<Rightarrow> Inr (PRId (sint n))
     | WINDOW_OBJ n \<Rightarrow> Inr (PRId (sint n))
     | TABPAGE_OBJ n \<Rightarrow> Inr (PRId (sint n))
     | INTEGER_OBJ n \<Rightarrow> Inr (PRId (sint n))
     | STRING_OBJ s \<Rightarrow>
         if string_iswhite (ascii_iswhite env) s
         then VALIDATION_ERROR
           ''String command argument must have at least one non-whitespace character''
         else Inr (cstr s)
     | _ \<Rightarrow> VALIDATION_ERROR ''Invalid type for command argument'')"

fun convert_args :: "'a cmd_env_scheme \<Rightarrow> Object list \<Rightarrow> Error + string list" where
  "convert_args env [] = Inr []"
| "convert_args env (elem # rest) =
     and_then (convert_arg env elem) (\<lambda>s.
     and_then (convert_args env rest) (\<lambda>ss. Inr (s # ss)))"

text \<open>The \<^verbatim>\<open>switch\<close> of lines 441-457.\<close>

definition argc_valid :: "ex_flag set \<Rightarrow> nat \<Rightarrow> bool" where
  "argc_valid flags n =
    (let m = flags \<inter> {EX_EXTRA, EX_NOSPC, EX_NEEDARG}
     in if m = {EX_EXTRA, EX_NOSPC, EX_NEEDARG} then n = 1
        else if m = {EX_EXTRA, EX_NOSPC} then n \<le> 1
        else if m = {EX_EXTRA, EX_NEEDARG} then n \<ge> 1
        else if m = {EX_EXTRA} then True
        else n = 0)"

definition check_args :: "'a cmd_env_scheme \<Rightarrow> exarg_T \<Rightarrow> Object \<Rightarrow> Error + string list" where
  "check_args env ea a =
    (if \<not> HAS_KEY a then Inr []
     else case a of
       ARRAY_OBJ items \<Rightarrow>
         and_then (convert_args env items) (\<lambda>args.
           if argc_valid (argt ea) (length args) then Inr args
           else VALIDATION_ERROR ''Incorrect number of arguments supplied'')
     | _ \<Rightarrow> VALIDATION_ERROR (quoted ''args'' @ '' must be an Array''))"

text \<open>Line 466: the first argument, if any, refines the address type.\<close>

definition resolve_addr_type :: "'a cmd_env_scheme \<Rightarrow> exarg_T \<Rightarrow> string list \<Rightarrow> exarg_T" where
  "resolve_addr_type env ea args =
     ea \<lparr> addr_type := set_cmd_addr_type env ea (case args of [] \<Rightarrow> None | a # _ \<Rightarrow> Some a) \<rparr>"

subsection \<open>Range, default range, count\<close>

definition nonneg_integer :: "Object \<Rightarrow> bool" where
  "nonneg_integer elem = (case elem of INTEGER_OBJ n \<Rightarrow> 0 \<le> sint n | _ \<Rightarrow> False)"

definition data_integer :: "Object \<Rightarrow> 64 word" where
  "data_integer elem = (case elem of INTEGER_OBJ n \<Rightarrow> n | _ \<Rightarrow> 0)"

definition to_linenr :: "64 word \<Rightarrow> linenr_T" where
  "to_linenr n = ucast n"

text \<open>Lines 468-495.\<close>

definition check_range :: "'a cmd_env_scheme \<Rightarrow> exarg_T \<Rightarrow> Object \<Rightarrow> Error + exarg_T" where
  "check_range env ea r =
    (if \<not> HAS_KEY r then Inr ea
     else if EX_RANGE \<notin> argt ea then VALIDATION_ERROR ''Command cannot accept a range''
     else case r of
       ARRAY_OBJ range_items \<Rightarrow>
         if length range_items > 2
         then VALIDATION_ERROR (quoted ''range'' @ '' cannot contain more than two elements'')
         else if \<not> list_all nonneg_integer range_items
         then VALIDATION_ERROR (quoted ''range'' @ '' element must be a non-negative Integer'')
         else
           let ea1 = ea \<lparr> addr_count := int (length range_items) \<rparr>;
               ea2 = (if range_items \<noteq> []
                      then ea1 \<lparr> line1 := to_linenr (data_integer (hd range_items)),
                                 line2 := to_linenr (data_integer (last range_items)) \<rparr>
                      else ea1)
           in if invalid_range env ea2 then VALIDATION_ERROR ''Invalid range provided''
              else Inr ea2
     | _ \<Rightarrow> VALIDATION_ERROR (quoted ''range'' @ '' must be an Array''))"

text \<open>Lines 496-507.\<close>

definition default_range :: "'a cmd_env_scheme \<Rightarrow> exarg_T \<Rightarrow> exarg_T" where
  "default_range env ea =
    (if addr_count ea = 0 then
       (if EX_DFLALL \<in> argt ea
        then (case set_cmd_dflall_range env ea of (l1, l2) \<Rightarrow> ea \<lparr> line1 := l1, line2 := l2 \<rparr>)
        else
          let d = get_cmd_default_range env ea;
              ea1 = ea \<lparr> line1 := d, line2 := d \<rparr>
          in if addr_type ea1 = ADDR_OTHER then ea1 \<lparr> line2 := 1 \<rparr> else ea1)
     else ea)"

text \<open>Lines 509-516.\<close>

definition check_count :: "'a cmd_env_scheme \<Rightarrow> exarg_T \<Rightarrow> Object \<Rightarrow> Error + exarg_T" where
  "check_count env ea c =
    (if \<not> HAS_KEY c then Inr ea
     else if EX_COUNT \<notin> argt ea then VALIDATION_ERROR ''Command cannot accept a count''
     else if \<not> nonneg_integer c then VALIDATION_ERROR (quoted ''count'' @ '' must be a non-negative Integer'')
     else case set_cmd_count env ea (to_linenr (data_integer c)) True of
            (l1, l2, n) \<Rightarrow> Inr (ea \<lparr> line1 := l1, line2 := l2, addr_count := n \<rparr>))"

subsection \<open>Register and bang\<close>

text \<open>Lines 518-531.\<close>

definition check_reg :: "'a cmd_env_scheme \<Rightarrow> exarg_T \<Rightarrow> Object \<Rightarrow> Error + exarg_T" where
  "check_reg env ea r =
    (if \<not> HAS_KEY r then Inr ea
     else if EX_REGSTR \<notin> argt ea then VALIDATION_ERROR ''Command cannot accept a register''
     else case r of
       STRING_OBJ s \<Rightarrow>
         if length s \<noteq> 1 then VALIDATION_ERROR (quoted ''reg'' @ '' must be a single character'')
         else
           let c = first_char s
           in if c = CHR ''='' then VALIDATION_ERROR (''Cannot use register '' @ [CHR 0x22, CHR ''=''])
              else if \<not> valid_yank_reg env c
                        (cmdidx ea \<noteq> CMD_put \<and> \<not> IS_USER_CMDIDX (cmdidx ea))
              then VALIDATION_ERROR (''Invalid register: '' @ [CHR 0x22, c])
              else Inr (ea \<lparr> regname := c \<rparr>)
     | _ \<Rightarrow> VALIDATION_ERROR (quoted ''reg'' @ '' must be a single character''))"

text \<open>Lines 533-536.\<close>

definition check_bang :: "'a cmd_env_scheme \<Rightarrow> exarg_T \<Rightarrow> Object \<Rightarrow> Error + exarg_T" where
  "check_bang env ea b =
     and_then (api_object_to_bool env b (quoted ''bang'') False) (\<lambda>f.
       if f \<and> EX_BANG \<notin> argt ea then VALIDATION_ERROR ''Command cannot accept a bang''
       else Inr (ea \<lparr> forceit := f \<rparr>))"

subsection \<open>Magic\<close>

text \<open>
  Lines 538-559.  \<^verbatim>\<open>magic.file\<close> decides \<^verbatim>\<open>EX_XFILE\<close> for this call; without a
  \<^verbatim>\<open>magic\<close> key both values come from the command's flags.
\<close>

definition check_magic ::
  "'a cmd_env_scheme \<Rightarrow> exarg_T \<Rightarrow> CmdParseInfo \<Rightarrow> Object \<Rightarrow> Error + exarg_T \<times> CmdParseInfo" where
  "check_magic env ea cmdinfo m =
    (if HAS_KEY m then
       (case m of
          DICTIONARY_OBJ d \<Rightarrow>
            and_then (keydict_cmd_magic env d) (\<lambda>magic.
            and_then (api_object_to_bool env (mg_file magic) (quoted ''magic.file'')
                        (EX_XFILE \<in> argt ea)) (\<lambda>file.
            and_then (api_object_to_bool env (mg_bar magic) (quoted ''magic.bar'')
                        (EX_TRLBAR \<in> argt ea)) (\<lambda>bar.
              Inr (ea \<lparr> argt := (if file then argt ea \<union> {EX_XFILE} else argt ea - {EX_XFILE}) \<rparr>,
                   cmdinfo \<lparr> magic_file := file, magic_bar := bar \<rparr>))))
        | _ \<Rightarrow> VALIDATION_ERROR (quoted ''magic'' @ '' must be a Dictionary''))
     else Inr (ea, cmdinfo \<lparr> magic_file := (EX_XFILE \<in> argt ea),
                             magic_bar := (EX_TRLBAR \<in> argt ea) \<rparr>))"

subsection \<open>Modifiers\<close>

text \<open>Lines 571-598: the filter.\<close>

definition mods_filter_step :: "'a cmd_env_scheme \<Rightarrow> cmdmod_T \<Rightarrow> Object \<Rightarrow> Error + cmdmod_T" where
  "mods_filter_step env cm f =
    (if \<not> HAS_KEY f then Inr cm
     else case f of
       DICTIONARY_OBJ d \<Rightarrow>
         and_then (keydict_cmd_mods_filter env d) (\<lambda>filter.
           if \<not> HAS_KEY (filter_pattern filter) then Inr cm
           else case filter_pattern filter of
             STRING_OBJ pat \<Rightarrow>
               and_then (api_object_to_bool env (filter_force filter)
                           (quoted ''mods.filter.force'') False) (\<lambda>force.
                 let cm1 = cm \<lparr> cmod_filter_force := force \<rparr>
                 in if first_char pat \<noteq> NUL \<or> force
                    then Inr (cm1 \<lparr> cmod_filter_pat := Some (cstr pat),
                                    cmod_filter_regprog := vim_regcomp env (cstr pat) \<rparr>)
                    else Inr cm1)
           | _ \<Rightarrow> VALIDATION_ERROR (quoted ''mods.filter.pattern'' @ '' must be a String''))
     | _ \<Rightarrow> VALIDATION_ERROR (quoted ''mods.filter'' @ '' must be a Dictionary''))"

text \<open>
  Lines 600-616: \<^verbatim>\<open>(int)mods.tab.data.integer\<close> keeps the low 32 bits; a negative
  value leaves \<^verbatim>\<open>cmod_tab\<close> as it is.
\<close>

definition to_int :: "64 word \<Rightarrow> 32 word" where
  "to_int n = ucast n"

definition mods_tab_step :: "cmdmod_T \<Rightarrow> Object \<Rightarrow> Error + cmdmod_T" where
  "mods_tab_step cm t =
    (if \<not> HAS_KEY t then Inr cm
     else case t of
       INTEGER_OBJ n \<Rightarrow>
         if 0 \<le> sint (to_int n) then Inr (cm \<lparr> cmod_tab := to_int n + 1 \<rparr>) else Inr cm
     | _ \<Rightarrow> VALIDATION_ERROR (quoted ''mods.tab'' @ '' must be an Integer''))"

definition mods_verbose_step :: "cmdmod_T \<Rightarrow> Object \<Rightarrow> Error + cmdmod_T" where
  "mods_verbose_step cm v =
    (if \<not> HAS_KEY v then Inr cm
     else case v of
       INTEGER_OBJ n \<Rightarrow>
         if 0 \<le> sint (to_int n) then Inr (cm \<lparr> cmod_verbose := to_int n + 1 \<rparr>) else Inr cm
     | _ \<Rightarrow> VALIDATION_ERROR (quoted ''mods.verbose'' @ '' must be an Integer''))"

text \<open>Lines 618-624: \<^verbatim>\<open>vertical\<close> and \<^verbatim>\<open>horizontal\<close>.\<close>

definition mods_wsp_step ::
  "'a cmd_env_scheme \<Rightarrow> wsp_flag \<Rightarrow> string \<Rightarrow> cmdmod_T \<Rightarrow> Object \<Rightarrow> Error + cmdmod_T" where
  "mods_wsp_step env flag what cm v =
     and_then (api_object_to_bool env v what False) (\<lambda>b.
       Inr (cm \<lparr> cmod_split := (if b then cmod_split cm \<union> {flag} else cmod_split cm) \<rparr>))"

text \<open>Lines 626-646: the split direction.\<close>

definition mods_split_step :: "cmdmod_T \<Rightarrow> Object \<Rightarrow> Error + cmdmod_T" where
  "mods_split_step cm sp =
    (if \<not> HAS_KEY sp then Inr cm
     else case sp of
       STRING_OBJ s0 \<Rightarrow>
         let s = cstr s0
         in if s = [] then Inr cm
            else if s = ''aboveleft'' \<or> s = ''leftabove''
            then Inr (cm \<lparr> cmod_split := cmod_split cm \<union> {WSP_ABOVE} \<rparr>)
            else if s = ''belowright'' \<or> s = ''rightbelow''
            then Inr (cm \<lparr> cmod_split := cmod_split cm \<union> {WSP_BELOW} \<rparr>)
            else if s = ''topleft''
            then Inr (cm \<lparr> cmod_split := cmod_split cm \<union> {WSP_TOP} \<rparr>)
            else if s = ''botright''
            then Inr (cm \<lparr> cmod_split := cmod_split cm \<union> {WSP_BOT} \<rparr>)
            else VALIDATION_ERROR (''Invalid value for '' @ quoted ''mods.split'')
     | _ \<Rightarrow> VALIDATION_ERROR (quoted ''mods.split'' @ '' must be a String''))"

text \<open>
  \<^verbatim>\<open>OBJ_TO_CMOD_FLAG\<close>, lines 343-351 and 648-661: the flag is set when the object
  stands for true; a conversion error ends the call.
\<close>

definition OBJ_TO_CMOD_FLAG ::
  "'a cmd_env_scheme \<Rightarrow> cmod_flag \<Rightarrow> Object \<Rightarrow> string \<Rightarrow> cmod_flag set \<Rightarrow> Error + cmod_flag set" where
  "OBJ_TO_CMOD_FLAG env flag v what flags =
     and_then (api_object_to_bool env v what False) (\<lambda>b.
       Inr (if b then flags \<union> {flag} else flags))"

fun cmod_flags_steps ::
  "'a cmd_env_scheme \<Rightarrow> (cmod_flag \<times> Object \<times> string) list \<Rightarrow> cmod_flag set
     \<Rightarrow> Error + cmod_flag set" where
  "cmod_flags_steps env [] flags = Inr flags"
| "cmod_flags_steps env ((flag, v, what) # rest) flags =
     and_then (OBJ_TO_CMOD_FLAG env flag v what flags) (cmod_flags_steps env rest)"

definition cmod_flag_table :: "Dict_cmd_mods \<Rightarrow> (cmod_flag \<times> Object \<times> string) list" where
  "cmod_flag_table mods =
    [ (CMOD_SILENT, mods_silent mods, quoted ''mods.silent''),
      (CMOD_ERRSILENT, mods_emsg_silent mods, quoted ''mods.emsg_silent''),
      (CMOD_UNSILENT, mods_unsilent mods, quoted ''mods.unsilent''),
      (CMOD_SANDBOX, mods_sandbox mods, quoted ''mods.sandbox''),
      (CMOD_NOAUTOCMD, mods_noautocmd mods, quoted ''mods.noautocmd''),
      (CMOD_BROWSE, mods_browse mods, quoted ''mods.browse''),
      (CMOD_CONFIRM, mods_confirm mods, quoted ''mods.confirm''),
      (CMOD_HIDE, mods_hide mods, quoted ''mods.hide''),
      (CMOD_KEEPALT, mods_keepalt mods, quoted ''mods.keepalt''),
      (CMOD_KEEPJUMPS, mods_keepjumps mods, quoted ''mods.keepjumps''),
      (CMOD_KEEPMARKS, mods_keepmarks mods, quoted ''mods.keepmarks''),
      (CMOD_KEEPPATTERNS, mods_keeppatterns mods, quoted ''mods.keeppatterns''),
      (CMOD_LOCKMARKS, mods_lockmarks mods, quoted ''mods.lockmarks''),
      (CMOD_NOSWAPFILE, mods_noswapfile mods, quoted ''mods.noswapfile'') ]"

text \<open>
  Lines 648-671: the flags, then \<^verbatim>\<open>CMOD_ERRSILENT\<close> switches \<^verbatim>\<open>CMOD_SILENT\<close> on, then
  the sandbox check.
\<close>

definition mods_flags_step ::
  "'a cmd_env_scheme \<Rightarrow> exarg_T \<Rightarrow> cmdmod_T \<Rightarrow> Dict_cmd_mods \<Rightarrow> Error + cmdmod_T" where
  "mods_flags_step env ea cm mods =
     and_then (cmod_flags_steps env (cmod_flag_table mods) (cmod_flags cm)) (\<lambda>flags.
       let flags1 = (if CMOD_ERRSILENT \<in> flags then flags \<union> {CMOD_SILENT} else flags)
       in if CMOD_SANDBOX \<in> flags1 \<and> EX_SBOXOK \<notin> argt ea
          then VALIDATION_ERROR ''Command cannot be run in sandbox''
          else Inr (cm \<lparr> cmod_flags := flags1 \<rparr>))"

text \<open>Lines 566-672, on the key set once \<^verbatim>\<open>api_dict_to_keydict\<close> has filled it.\<close>

definition apply_mods ::
  "'a cmd_env_scheme \<Rightarrow> exarg_T \<Rightarrow> cmdmod_T \<Rightarrow> Dict_cmd_mods \<Rightarrow> Error + cmdmod_T" where
  "apply_mods env ea cm mods =
     and_then (mods_filter_step env cm (mods_filter mods)) (\<lambda>cm1.
     and_then (mods_tab_step cm1 (mods_tab mods)) (\<lambda>cm2.
     and_then (mods_verbose_step cm2 (mods_verbose mods)) (\<lambda>cm3.
     and_then (mods_wsp_step env WSP_VERT (quoted ''mods.vertical'') cm3 (mods_vertical mods)) (\<lambda>cm4.
     and_then (mods_wsp_step env WSP_HOR (quoted ''mods.horizontal'') cm4 (mods_horizontal mods)) (\<lambda>cm5.
     and_then (mods_split_step cm5 (mods_split mods)) (\<lambda>cm6.
       mods_flags_step env ea cm6 mods))))))"

text \<open>Lines 561-672.\<close>

definition check_mods ::
  "'a cmd_env_scheme \<Rightarrow> exarg_T \<Rightarrow> CmdParseInfo \<Rightarrow> Object \<Rightarrow> Error + CmdParseInfo" where
  "check_mods env ea cmdinfo m =
    (if \<not> HAS_KEY m then Inr cmdinfo
     else case m of
       DICTIONARY_OBJ d \<Rightarrow>
         and_then (keydict_cmd_mods env d) (\<lambda>mods.
         and_then (apply_mods env ea (cmdmod cmdinfo) mods) (\<lambda>cm.
           Inr (cmdinfo \<lparr> cmdmod := cm \<rparr>)))
     | _ \<Rightarrow> VALIDATION_ERROR (quoted ''mods'' @ '' must be a Dictionary''))"

subsection \<open>The whole validation, lines 359-672\<close>

record validated =
  v_output :: bool
  v_ea :: exarg_T
  v_cmdinfo :: CmdParseInfo
  v_args :: "string list"

definition nvim_cmd_validate ::
  "'a cmd_env_scheme \<Rightarrow> Dict_cmd \<Rightarrow> Dict_cmd_opts \<Rightarrow> Error + validated" where
  "nvim_cmd_validate env c opts =
     and_then (api_object_to_bool env (opts_output opts) (quoted ''output'') False) (\<lambda>output.
     and_then (check_cmd_name (cmd_cmd c)) (\<lambda>cmdname.
     and_then (find_command env cmdname) (\<lambda>ea0.
     and_then (check_args env ea0 (cmd_args c)) (\<lambda>args.
     and_then (check_range env (resolve_addr_type env ea0 args) (cmd_range c)) (\<lambda>ea1.
     and_then (check_count env (default_range env ea1) (cmd_count c)) (\<lambda>ea2.
     and_then (check_reg env ea2 (cmd_reg c)) (\<lambda>ea3.
     and_then (check_bang env ea3 (cmd_bang c)) (\<lambda>ea4.
     and_then (check_magic env ea4 cmdinfo_clear (cmd_magic c)) (\<lambda>(ea5, cmdinfo).
     and_then (check_mods env ea5 cmdinfo (cmd_mods c)) (\<lambda>cmdinfo1.
       Inr \<lparr> v_output = output, v_ea = ea5, v_cmdinfo = cmdinfo1, v_args = args \<rparr>))))))))))"

section \<open>\<^verbatim>\<open>build_cmdline_str\<close>: the serializer, lines 760-889\<close>

text \<open>
  The line is assembled by successive appends to one buffer.  Each function below is
  the list of strings one block of the source appends (empty when its condition is
  false); the line is their concatenation, in the order of the source.
\<close>

definition tab_tokens :: "cmdmod_T \<Rightarrow> string list" where
  "tab_tokens cm = (if cmod_tab cm \<noteq> 0 then [PRId (sint (cmod_tab cm - 1)) @ ''tab ''] else [])"

definition verbose_tokens :: "cmdmod_T \<Rightarrow> string list" where
  "verbose_tokens cm =
     (if 0 < sint (cmod_verbose cm) then [PRId (sint (cmod_verbose cm - 1)) @ ''verbose ''] else [])"

definition silent_tokens :: "cmdmod_T \<Rightarrow> string list" where
  "silent_tokens cm =
     (if CMOD_ERRSILENT \<in> cmod_flags cm then [''silent! '']
      else if CMOD_SILENT \<in> cmod_flags cm then [''silent '']
      else [])"

definition unsilent_tokens :: "cmdmod_T \<Rightarrow> string list" where
  "unsilent_tokens cm = (if CMOD_UNSILENT \<in> cmod_flags cm then [''unsilent ''] else [])"

definition split_tokens :: "cmdmod_T \<Rightarrow> string list" where
  "split_tokens cm =
    (let m = cmod_split cm \<inter> {WSP_ABOVE, WSP_BELOW, WSP_TOP, WSP_BOT}
     in if m = {WSP_ABOVE} then [''aboveleft '']
        else if m = {WSP_BELOW} then [''belowright '']
        else if m = {WSP_TOP} then [''topleft '']
        else if m = {WSP_BOT} then [''botright '']
        else [])"

definition CMDLINE_APPEND_IF :: "bool \<Rightarrow> string \<Rightarrow> string list" where
  "CMDLINE_APPEND_IF cond str = (if cond then [str] else [])"

definition append_if_tokens :: "cmdmod_T \<Rightarrow> string list" where
  "append_if_tokens cm =
     CMDLINE_APPEND_IF (WSP_VERT \<in> cmod_split cm) ''vertical '' @
     CMDLINE_APPEND_IF (WSP_HOR \<in> cmod_split cm) ''horizontal '' @
     CMDLINE_APPEND_IF (CMOD_SANDBOX \<in> cmod_flags cm) ''sandbox '' @
     CMDLINE_APPEND_IF (CMOD_NOAUTOCMD \<in> cmod_flags cm) ''noautocmd '' @
     CMDLINE_APPEND_IF (CMOD_BROWSE \<in> cmod_flags cm) ''browse '' @
     CMDLINE_APPEND_IF (CMOD_CONFIRM \<in> cmod_flags cm) ''confirm '' @
     CMDLINE_APPEND_IF (CMOD_HIDE \<in> cmod_flags cm) ''hide '' @
     CMDLINE_APPEND_IF (CMOD_KEEPALT \<in> cmod_flags cm) ''keepalt '' @
     CMDLINE_APPEND_IF (CMOD_KEEPJUMPS \<in> cmod_flags cm) ''keepjumps '' @
     CMDLINE_APPEND_IF (CMOD_KEEPMARKS \<in> cmod_flags cm) ''keepmarks '' @
     CMDLINE_APPEND_IF (CMOD_KEEPPATTERNS \<in> cmod_flags cm) ''keeppatterns '' @
     CMDLINE_APPEND_IF (CMOD_LOCKMARKS \<in> cmod_flags cm) ''lockmarks '' @
     CMDLINE_APPEND_IF (CMOD_NOSWAPFILE \<in> cmod_flags cm) ''noswapfile ''"

text \<open>"Add command modifiers", lines 768-823.\<close>

definition cmdmod_tokens :: "cmdmod_T \<Rightarrow> string list" where
  "cmdmod_tokens cm =
     tab_tokens cm @ verbose_tokens cm @ silent_tokens cm @ unsilent_tokens cm @
     split_tokens cm @ append_if_tokens cm"

text \<open>"Command range / count", lines 825-833.\<close>

definition range_tokens :: "exarg_T \<Rightarrow> string list" where
  "range_tokens ea =
    (if EX_RANGE \<in> argt ea then
       (if addr_count ea = 1 then [PRId (sint (line2 ea))]
        else if addr_count ea > 1 then [PRId (sint (line1 ea)) @ '','' @ PRId (sint (line2 ea))]
        else [])
     else [])"

text \<open>The command name, the bang and the register, lines 835-847.\<close>

definition name_tokens :: "exarg_T \<Rightarrow> string list" where
  "name_tokens ea =
     [cmd ea] @
     (if EX_BANG \<in> argt ea \<and> forceit ea then [''!''] else []) @
     (if EX_REGSTR \<in> argt ea \<and> regname ea \<noteq> NUL then [[CHR '' '', regname ea]] else [])"

text \<open>The arguments, lines 852-857: one space, then the argument as it is.\<close>

definition arg_tokens :: "string list \<Rightarrow> string list" where
  "arg_tokens args = concat (map (\<lambda>s. ['' '', s]) args)"

text \<open>The buffer when "Done appending to cmdline" (without the closing NUL).\<close>

definition cmdline_str :: "exarg_T \<Rightarrow> CmdParseInfo \<Rightarrow> string list \<Rightarrow> string" where
  "cmdline_str ea cmdinfo args =
     concat (cmdmod_tokens (cmdmod cmdinfo) @ range_tokens ea @ name_tokens ea @ arg_tokens args)"

text \<open>
  The pointers \<^verbatim>\<open>eap->cmd\<close>, \<^verbatim>\<open>eap->arg\<close> and \<^verbatim>\<open>eap->args[i]\<close> are kept as offsets
  into the line; \<open>None\<close> for \<^verbatim>\<open>args\<close> and \<^verbatim>\<open>arglens\<close> is \<^verbatim>\<open>NULL\<close>.
\<close>

record built =
  b_cmdline :: string
  b_ea :: exarg_T
  b_cmd :: nat
  b_arg :: nat
  b_argc :: nat
  b_args :: "nat list option"
  b_arglens :: "nat list option"

text \<open>Lines 866-871: the offset of each argument, given where the arguments start.\<close>

fun arg_offsets :: "nat \<Rightarrow> nat list \<Rightarrow> nat list" where
  "arg_offsets offset [] = []"
| "arg_offsets offset (len # lens) = (offset + 1) # arg_offsets (offset + 1 + len) lens"

definition build_cmdline_str ::
  "'a cmd_env_scheme \<Rightarrow> exarg_T \<Rightarrow> CmdParseInfo \<Rightarrow> string list \<Rightarrow> built" where
  "build_cmdline_str env ea cmdinfo args =
    (let argc = length args;
         cmdname_idx = length (concat (cmdmod_tokens (cmdmod cmdinfo) @ range_tokens ea));
         ea1 = (if EX_RANGE \<in> argt ea \<and> addr_count ea > 1 then ea \<lparr> addr_count := 2 \<rparr> else ea);
         arglens = map length args;
         argstart_idx = cmdname_idx + length (concat (name_tokens ea));
         cmdline = cmdline_str ea cmdinfo args;
         offsets = arg_offsets argstart_idx arglens;
         arg_idx = (if argc > 0 then hd offsets else length cmdline);
         b = \<lparr> b_cmdline = cmdline, b_ea = ea1, b_cmd = cmdname_idx, b_arg = arg_idx,
               b_argc = argc,
               b_args = (if argc > 0 then Some offsets else None),
               b_arglens = (if argc > 0 then Some arglens else None) \<rparr>
     in case replace_makeprg env ea1 (drop arg_idx cmdline) of
          None \<Rightarrow> b
        | Some (new_cmdline, p) \<Rightarrow>
            b \<lparr> b_cmdline := new_cmdline, b_arg := p, b_args := None, b_arglens := None,
                b_argc := 0 \<rparr>)"

text \<open>
  \<^verbatim>\<open>nvim_cmd\<close> up to the point where the line is handed to \<^verbatim>\<open>execute_cmd\<close>: the
  serializer runs only when no validation step has failed.
\<close>

definition nvim_cmd :: "'a cmd_env_scheme \<Rightarrow> Dict_cmd \<Rightarrow> Dict_cmd_opts \<Rightarrow> Error + built" where
  "nvim_cmd env c opts =
     and_then (nvim_cmd_validate env c opts) (\<lambda>v.
       Inr (build_cmdline_str env (v_ea v) (v_cmdinfo v) (v_args v)))"

section \<open>User commands\<close>

text \<open>
  A registered user command.  The fields are the arguments \<^verbatim>\<open>create_user_command\<close>
  passes to \<^verbatim>\<open>uc_add_command\<close> (lines 1195-1196); a Lua reference is \<open>None\<close> for
  \<^verbatim>\<open>LUA_NOREF\<close>.
\<close>

datatype expand_T = EXPAND_NOTHING | EXPAND_USER_LUA | EXPAND_KIND nat

record ucmd_T =
  uc_name :: string
  uc_rep :: string
  uc_argt :: "ex_flag set"
  uc_def :: "64 word"
  uc_compl :: expand_T
  uc_compl_arg :: "string option"
  uc_compl_luaref :: "nat option"
  uc_preview_luaref :: "nat option"
  uc_addr_type :: cmd_addr_T
  uc_luaref :: "nat option"

section \<open>\<^verbatim>\<open>nvim_parse_cmd\<close>: from a parsed line to a Dictionary, lines 97-295\<close>

text \<open>
  Collaborators: \<open>parse_cmdline\<close> is the tokenizer (an optional error message, or the
  \<^verbatim>\<open>exarg_T\<close> and \<^verbatim>\<open>CmdParseInfo\<close> it fills); \<open>uc_split_args_iter arg arglen end\<close>
  is one call of the splitter: whether it is done, the new \<^verbatim>\<open>end\<close>, and the bytes
  \<^verbatim>\<open>buf[0..len)\<close> it produced; \<open>USER_CMD\<close> and \<open>USER_CMD_GA_curbuf\<close> read the global
  and the current buffer's command table.
\<close>

record parse_env =
  parse_cmdline :: "string \<Rightarrow> string option + exarg_T \<times> CmdParseInfo"
  uc_split_args_iter :: "string \<Rightarrow> nat \<Rightarrow> nat \<Rightarrow> bool \<times> nat \<times> string"
  USER_CMD :: "int \<Rightarrow> ucmd_T"
  USER_CMD_GA_curbuf :: "int \<Rightarrow> ucmd_T"
  get_command_name :: "cmdidx_T \<Rightarrow> string"

text \<open>
  The loop of lines 138-143.  Nothing in this file bounds the number of calls the
  splitter needs, so the loop is a partial function: \<open>None\<close> when it never ends.
\<close>

partial_function (option) split_args_loop ::
  "(string \<Rightarrow> nat \<Rightarrow> nat \<Rightarrow> bool \<times> nat \<times> string) \<Rightarrow> string \<Rightarrow> nat \<Rightarrow> nat \<Rightarrow> string list
     \<Rightarrow> string list option" where
  "split_args_loop iter a len e args =
    (case iter a len e of
       (done, e', buf) \<Rightarrow>
         let args' = (if length buf > 0 then args @ [buf] else args)
         in if done then Some args' else split_args_loop iter a len e' args')"

text \<open>"Parse arguments", lines 122-146.\<close>

definition parse_args :: "'a parse_env_scheme \<Rightarrow> exarg_T \<Rightarrow> string list option" where
  "parse_args env ea =
    (if EX_NOSPC \<in> argt ea
     then Some (if arg ea \<noteq> [] then [arg ea] else [])
     else split_args_loop (uc_split_args_iter env) (arg ea) (length (arg ea)) 0 [])"

definition PUT :: "Dictionary \<Rightarrow> string \<Rightarrow> Object \<Rightarrow> Dictionary" where
  "PUT d k v = d @ [(k, v)]"

text \<open>Lines 190-207.\<close>

definition nargs_char :: "ex_flag set \<Rightarrow> char" where
  "nargs_char flags =
    (if EX_EXTRA \<in> flags then
       (if EX_NOSPC \<in> flags then (if EX_NEEDARG \<in> flags then CHR ''1'' else CHR ''?'')
        else if EX_NEEDARG \<in> flags then CHR ''+''
        else CHR ''*'')
     else CHR ''0'')"

text \<open>Lines 209-239.\<close>

definition addr_name :: "cmd_addr_T \<Rightarrow> string" where
  "addr_name a = (case a of
       ADDR_LINES \<Rightarrow> ''line''
     | ADDR_ARGUMENTS \<Rightarrow> ''arg''
     | ADDR_BUFFERS \<Rightarrow> ''buf''
     | ADDR_LOADED_BUFFERS \<Rightarrow> ''load''
     | ADDR_WINDOWS \<Rightarrow> ''win''
     | ADDR_TABS \<Rightarrow> ''tab''
     | ADDR_QUICKFIX \<Rightarrow> ''qf''
     | ADDR_NONE \<Rightarrow> ''none''
     | _ \<Rightarrow> ''?'')"

text \<open>Lines 270-281.\<close>

definition split_name :: "wsp_flag set \<Rightarrow> string" where
  "split_name sp =
    (if WSP_BOT \<in> sp then ''botright''
     else if WSP_TOP \<in> sp then ''topleft''
     else if WSP_BELOW \<in> sp then ''belowright''
     else if WSP_ABOVE \<in> sp then ''aboveleft''
     else [])"

text \<open>Lines 242-284: the \<^verbatim>\<open>mods\<close> dictionary.\<close>

definition parse_mods :: "cmdmod_T \<Rightarrow> Dictionary" where
  "parse_mods cm =
    [ (''filter'', DICTIONARY_OBJ
         [ (''pattern'', STRING_OBJ (case cmod_filter_pat cm of Some pat \<Rightarrow> pat | None \<Rightarrow> [])),
           (''force'', BOOLEAN_OBJ (cmod_filter_force cm)) ]),
      (''silent'', BOOLEAN_OBJ (CMOD_SILENT \<in> cmod_flags cm)),
      (''emsg_silent'', BOOLEAN_OBJ (CMOD_ERRSILENT \<in> cmod_flags cm)),
      (''unsilent'', BOOLEAN_OBJ (CMOD_UNSILENT \<in> cmod_flags cm)),
      (''sandbox'', BOOLEAN_OBJ (CMOD_SANDBOX \<in> cmod_flags cm)),
      (''noautocmd'', BOOLEAN_OBJ (CMOD_NOAUTOCMD \<in> cmod_flags cm)),
      (''tab'', INTEGER_OBJ (scast (cmod_tab cm - 1))),
      (''verbose'', INTEGER_OBJ (scast (cmod_verbose cm - 1))),
      (''browse'', BOOLEAN_OBJ (CMOD_BROWSE \<in> cmod_flags cm)),
      (''confirm'', BOOLEAN_OBJ (CMOD_CONFIRM \<in> cmod_flags cm)),
      (''hide'', BOOLEAN_OBJ (CMOD_HIDE \<in> cmod_flags cm)),
      (''keepalt'', BOOLEAN_OBJ (CMOD_KEEPALT \<in> cmod_flags cm)),
      (''keepjumps'', BOOLEAN_OBJ (CMOD_KEEPJUMPS \<in> cmod_flags cm)),
      (''keepmarks'', BOOLEAN_OBJ (CMOD_KEEPMARKS \<in> cmod_flags cm)),
      (''keeppatterns'', BOOLEAN_OBJ (CMOD_KEEPPATTERNS \<in> cmod_flags cm)),
      (''lockmarks'', BOOLEAN_OBJ (CMOD_LOCKMARKS \<in> cmod_flags cm)),
      (''noswapfile'', BOOLEAN_OBJ (CMOD_NOSWAPFILE \<in> cmod_flags cm)),
      (''vertical'', BOOLEAN_OBJ (WSP_VERT \<in> cmod_split cm)),
      (''horizontal'', BOOLEAN_OBJ (WSP_HOR \<in> cmod_split cm)),
      (''split'', STRING_OBJ (split_name (cmod_split cm))) ]"

text \<open>Lines 148-289: the result, once the line is parsed and the arguments are split.\<close>

definition parse_result ::
  "'a parse_env_scheme \<Rightarrow> exarg_T \<Rightarrow> CmdParseInfo \<Rightarrow> string list \<Rightarrow> Dictionary" where
  "parse_result env ea cmdinfo args =
    (let ucmd = (if cmdidx ea = CMD_USER then Some (USER_CMD env (useridx ea))
                 else if cmdidx ea = CMD_USER_BUF then Some (USER_CMD_GA_curbuf env (useridx ea))
                 else None);
         r1 = PUT [] ''cmd'' (STRING_OBJ (case ucmd of Some u \<Rightarrow> uc_name u
                                           | None \<Rightarrow> get_command_name env (cmdidx ea)));
         r2 = (if EX_RANGE \<in> argt ea
               then PUT r1 ''range'' (ARRAY_OBJ
                      (if addr_count ea > 0
                       then (if addr_count ea > 1 then [INTEGER_OBJ (scast (line1 ea))] else [])
                            @ [INTEGER_OBJ (scast (line2 ea))]
                       else []))
               else r1);
         r3 = (if EX_COUNT \<in> argt ea
               then PUT r2 ''count'' (INTEGER_OBJ
                      (if addr_count ea > 0 then scast (line2 ea)
                       else case ucmd of Some u \<Rightarrow> uc_def u | None \<Rightarrow> 0))
               else r2);
         r4 = (if EX_REGSTR \<in> argt ea then PUT r3 ''reg'' (STRING_OBJ (cstr [regname ea])) else r3);
         r5 = PUT r4 ''bang'' (BOOLEAN_OBJ (forceit ea));
         r6 = PUT r5 ''args'' (ARRAY_OBJ (map STRING_OBJ args));
         r7 = PUT r6 ''nargs'' (STRING_OBJ [nargs_char (argt ea)]);
         r8 = PUT r7 ''addr'' (STRING_OBJ (addr_name (addr_type ea)));
         r9 = PUT r8 ''nextcmd'' (STRING_OBJ (nextcmd ea));
         r10 = PUT r9 ''mods'' (DICTIONARY_OBJ (parse_mods (cmdmod cmdinfo)))
     in PUT r10 ''magic'' (DICTIONARY_OBJ
          [ (''file'', BOOLEAN_OBJ (magic_file cmdinfo)),
            (''bar'', BOOLEAN_OBJ (magic_bar cmdinfo)) ]))"

text \<open>The outer \<open>None\<close> is a call whose argument loop never ends.\<close>

definition nvim_parse_cmd ::
  "'a parse_env_scheme \<Rightarrow> string \<Rightarrow> Dictionary \<Rightarrow> (Error + Dictionary) option" where
  "nvim_parse_cmd env str opts =
    (if length opts > 0
     then Some (VALIDATION_ERROR (''opts dict isn'' @ [CHR 0x27] @ ''t empty''))
     else case parse_cmdline env (cstr str) of
       Inl errormsg \<Rightarrow>
         Some (Inl (kErrorTypeException,
                 (case errormsg of
                    Some msg \<Rightarrow> ''Error while parsing command line: '' @ msg
                  | None \<Rightarrow> ''Error while parsing command line'')))
     | Inr (ea, cmdinfo) \<Rightarrow>
         (case parse_args env ea of
            None \<Rightarrow> None
          | Some args \<Rightarrow> Some (Inr (parse_result env ea cmdinfo args))))"

section \<open>The modifiers at the start of a line\<close>

text \<open>
  The tokenizer \<^verbatim>\<open>parse_cmdline\<close> is defined in \<^verbatim>\<open>ex_docmd.c\<close>, which is not among
  the sources.  Where a property is about a line being read back, the part of the
  tokenizer that reads the command modifiers is modelled from the specification; the
  tokenizer of the command itself (range, name, arguments) stays a parameter.
\<close>

text \<open>
  Modelled from the spec: part of the tokenizer \<^verbatim>\<open>parse_cmdline\<close> (not among the
  sources), the digits of a numeric modifier (section 4.3: "numeric \<open>tab\<close> modifier
  (as \<open>"<n>tab "\<close>)"; section 3: a "non-negative integer").
\<close>

definition is_digit :: "char \<Rightarrow> bool" where
  "is_digit c = (48 \<le> (of_char c :: nat) \<and> (of_char c :: nat) \<le> 57)"

text \<open>
  Modelled from the spec: part of the tokenizer \<^verbatim>\<open>parse_cmdline\<close> (not among the
  sources), a numeric modifier at the start of a line, \<open><n>\<close> and then the word
  (section 4.3: \<open>"<n>tab "\<close>, and likewise the "numeric \<open>verbose\<close> modifier"): the
  number and the text after the modifier.
\<close>

definition count_modifier :: "string \<Rightarrow> string \<Rightarrow> (nat \<times> string) option" where
  "count_modifier word line =
    (let ds = takeWhile is_digit line; rest = dropWhile is_digit line
     in if ds \<noteq> [] \<and> prefix word rest then Some (nat_of_dec ds, drop (length word) rest)
        else None)"

text \<open>
  Modelled from the spec: part of the tokenizer \<^verbatim>\<open>parse_cmdline\<close> (not among the
  sources), what a Boolean modifier does when it is read: it sets its field (section
  3: \<open>silent\<close>, \<open>errorSilent\<close>, \<open>unsilent\<close>, \<open>sandbox\<close> ... "each bool").
\<close>

definition add_cmod_flags :: "cmod_flag set \<Rightarrow> cmdmod_T \<Rightarrow> cmdmod_T" where
  "add_cmod_flags flags cm = cm \<lparr> cmod_flags := cmod_flags cm \<union> flags \<rparr>"

text \<open>
  Modelled from the spec: part of the tokenizer \<^verbatim>\<open>parse_cmdline\<close> (not among the
  sources), what a split modifier does when it is read (section 3: \<open>splitDirection\<close>,
  \<open>vertical\<close>, \<open>horizontal\<close>).
\<close>

definition add_cmod_split :: "wsp_flag \<Rightarrow> cmdmod_T \<Rightarrow> cmdmod_T" where
  "add_cmod_split flag cm = cm \<lparr> cmod_split := cmod_split cm \<union> {flag} \<rparr>"

text \<open>
  Modelled from the spec: part of the tokenizer \<^verbatim>\<open>parse_cmdline\<close> (not among the
  sources), the modifiers that are a word.  Section 4.3: \<open>"silent! "\<close> for
  \<open>errorSilent\<close>, taking precedence over plain \<open>"silent "\<close>, \<open>unsilent\<close>, the
  "split-direction token", \<open>vertical\<close>, \<open>horizontal\<close>, then \<open>sandbox\<close>, \<open>noautocmd\<close>,
  \<open>browse\<close>, \<open>confirm\<close>, \<open>hide\<close>, \<open>keepalt\<close>, \<open>keepjumps\<close>, \<open>keepmarks\<close>,
  \<open>keeppatterns\<close>, \<open>lockmarks\<close>, \<open>noswapfile\<close>, "each followed by one space";
  section 4.2, step 10: the split direction is "one of the four recognized tokens
  (accepting two synonym pairs per direction)"; section 8: with \<open>errorSilent\<close> "a
  round-tripped descriptor must report \<open>silent=true\<close>".
\<close>

definition modifier_words :: "(string \<times> (cmdmod_T \<Rightarrow> cmdmod_T)) list" where
  "modifier_words =
    [ (''silent! '', add_cmod_flags {CMOD_SILENT, CMOD_ERRSILENT}),
      (''silent '', add_cmod_flags {CMOD_SILENT}),
      (''unsilent '', add_cmod_flags {CMOD_UNSILENT}),
      (''aboveleft '', add_cmod_split WSP_ABOVE),
      (''leftabove '', add_cmod_split WSP_ABOVE),
      (''belowright '', add_cmod_split WSP_BELOW),
      (''rightbelow '', add_cmod_split WSP_BELOW),
      (''topleft '', add_cmod_split WSP_TOP),
      (''botright '', add_cmod_split WSP_BOT),
      (''vertical '', add_cmod_split WSP_VERT),
      (''horizontal '', add_cmod_split WSP_HOR),
      (''sandbox '', add_cmod_flags {CMOD_SANDBOX}),
      (''noautocmd '', add_cmod_flags {CMOD_NOAUTOCMD}),
      (''browse '', add_cmod_flags {CMOD_BROWSE}),
      (''confirm '', add_cmod_flags {CMOD_CONFIRM}),
      (''hide '', add_cmod_flags {CMOD_HIDE}),
      (''keepalt '', add_cmod_flags {CMOD_KEEPALT}),
      (''keepjumps '', add_cmod_flags {CMOD_KEEPJUMPS}),
      (''keepmarks '', add_cmod_flags {CMOD_KEEPMARKS}),
      (''keeppatterns '', add_cmod_flags {CMOD_KEEPPATTERNS}),
      (''lockmarks '', add_cmod_flags {CMOD_LOCKMARKS}),
      (''noswapfile '', add_cmod_flags {CMOD_NOSWAPFILE}) ]"

text \<open>
  Modelled from the spec: part of the tokenizer \<^verbatim>\<open>parse_cmdline\<close> (not among the
  sources), the modifier a text starts with, if any: what it does to the modifiers
  read so far, and the text after it.  Section 3: \<open>tab\<close> and \<open>verbose\<close> are
  an "optional non-negative integer (absent = -1 sentinel)"; \<^verbatim>\<open>nvim_parse_cmd\<close>
  reports \<^verbatim>\<open>cmod_tab - 1\<close> and \<^verbatim>\<open>cmod_verbose - 1\<close> (lines 256-257), so the fields
  hold the number plus one.
\<close>

definition modifier_at :: "string \<Rightarrow> ((cmdmod_T \<Rightarrow> cmdmod_T) \<times> string) option" where
  "modifier_at line =
    (case count_modifier ''tab '' line of
       Some (n, rest) \<Rightarrow> Some (\<lambda>cm. cm \<lparr> cmod_tab := of_nat n + 1 \<rparr>, rest)
     | None \<Rightarrow>
    (case count_modifier ''verbose '' line of
       Some (n, rest) \<Rightarrow> Some (\<lambda>cm. cm \<lparr> cmod_verbose := of_nat n + 1 \<rparr>, rest)
     | None \<Rightarrow>
    (case find (\<lambda>(w, f). prefix w line) modifier_words of
       Some (w, f) \<Rightarrow> Some (f, drop (length w) line)
     | None \<Rightarrow> None)))"

text \<open>
  Modelled from the spec: part of the tokenizer \<^verbatim>\<open>parse_cmdline\<close> (not among the
  sources), the modifiers of a line (glossary: a modifier is "a prefix qualifier"):
  modifiers are read for as long as the text starts with one; the result is the
  modifiers and the text of the command.
\<close>

function parse_command_modifiers :: "string \<Rightarrow> cmdmod_T \<Rightarrow> cmdmod_T \<times> string" where
  "parse_command_modifiers line cm =
    (case modifier_at line of
       None \<Rightarrow> (cm, line)
     | Some (f, rest) \<Rightarrow> parse_command_modifiers rest (f cm))"
  by pat_completeness auto

termination
proof (relation "measure (\<lambda>(line, cm). length line)")
  show "wf (measure (\<lambda>(line, cm). length line))" by simp
next
  fix line :: string and cm :: cmdmod_T and x2 f rest
  assume m: "modifier_at line = Some x2" and x: "(f, rest) = x2"
  have c: "length r < length line" if "count_modifier word line = Some (n, r)" and "word \<noteq> []"
    for word n r
  proof -
    from that have r: "r = drop (length word) (dropWhile is_digit line)"
      and p: "prefix word (dropWhile is_digit line)"
      by (auto simp: count_modifier_def Let_def split: if_splits)
    have "dropWhile is_digit line \<noteq> []"
    proof
      assume e: "dropWhile is_digit line = []"
      from p have "word = []" unfolding e by simp
      with that(2) show False by simp
    qed
    with r that(2) have "length r < length (dropWhile is_digit line)" by simp
    also have "\<dots> \<le> length line" by (rule length_dropWhile_le)
    finally show ?thesis .
  qed
  have w: "length (drop (length word) line) < length line"
    if "find (\<lambda>(w, f). prefix w line) modifier_words = Some (word, g)" for word g
  proof -
    from that have "(word, g) \<in> set modifier_words" and p: "prefix word line"
      by (auto simp: find_Some_iff in_set_conv_nth)
    then have "word \<noteq> []" by (auto simp: modifier_words_def)
    with p have "line \<noteq> []" by auto
    with \<open>word \<noteq> []\<close> show ?thesis by simp
  qed
  from m x c [of "''tab ''"] c [of "''verbose ''"] w have "length rest < length line"
    by (auto simp: modifier_at_def split: option.splits)
  then show "((rest, f cm), (line, cm)) \<in> measure (\<lambda>(line, cm). length line)" by simp
qed

declare parse_command_modifiers.simps [simp del]

text \<open>
  Modelled from the spec: the tokenizer \<^verbatim>\<open>parse_cmdline\<close> (defined in
  \<^verbatim>\<open>ex_docmd.c\<close>, not among the sources), as far as the modifiers go (section 2:
  "textual line \<open>\<rightarrow>\<close> [external tokenizer] \<open>\<rightarrow>\<close> resolved command + raw argument
  text"): the modifiers are read, and the tokenizer of the command, a parameter, is
  given the rest.
\<close>

definition parse_cmdline_mods ::
  "(string \<Rightarrow> string option + exarg_T \<times> CmdParseInfo) \<Rightarrow> string
     \<Rightarrow> string option + exarg_T \<times> CmdParseInfo" where
  "parse_cmdline_mods parse_command line =
    (case parse_command_modifiers line cmdmod_clear of
       (cm, rest) \<Rightarrow>
         (case parse_command rest of
            Inl errormsg \<Rightarrow> Inl errormsg
          | Inr (ea, cmdinfo) \<Rightarrow> Inr (ea, cmdinfo \<lparr> cmdmod := cm \<rparr>)))"

section \<open>\<^verbatim>\<open>create_user_command\<close>, lines 1004-1207\<close>

text \<open>
  Collaborators: \<open>uc_validate_name\<close>, \<open>mb_islower\<close>, \<open>parse_addr_type_arg\<close> (\<open>None\<close> when
  it does not return \<^verbatim>\<open>OK\<close>), \<open>parse_compl_arg\<close> (given the flags so far; \<open>None\<close> when
  it does not return \<^verbatim>\<open>OK\<close>, otherwise the completion kind, the flags and the
  completion argument it stores), \<open>api_new_luaref\<close>, \<open>find_buffer_by_handle\<close> (the
  buffer, or the error it sets) and \<open>commands_array\<close>, the listing of the global table
  (argument \<open>None\<close>, for \<^verbatim>\<open>NULL\<close>) or of a buffer's table, which it reads from the
  registry defined below.
\<close>

text \<open>
  The registry: the global table \<^verbatim>\<open>ucmds\<close>, the table \<^verbatim>\<open>b_ucmds\<close> of each buffer,
  and the current buffer.
\<close>

record registry =
  ucmds :: "ucmd_T list"
  b_ucmds :: "nat \<Rightarrow> ucmd_T list"
  curbuf :: nat

record uc_env = api_env +
  uc_validate_name :: "string \<Rightarrow> bool"
  mb_islower :: "char \<Rightarrow> bool"
  parse_addr_type_arg :: "string \<Rightarrow> cmd_addr_T option"
  parse_compl_arg :: "string \<Rightarrow> ex_flag set \<Rightarrow> (expand_T \<times> ex_flag set \<times> string option) option"
  api_new_luaref :: "nat \<Rightarrow> nat"
  find_buffer_by_handle :: "64 word \<Rightarrow> Error + nat"
  commands_array :: "registry \<Rightarrow> nat option \<Rightarrow> Dictionary"

record Dict_user_command =
  o_addr :: Object
  o_bang :: Object
  o_bar :: Object
  o_complete :: Object
  o_count :: Object
  o_desc :: Object
  o_force :: Object
  o_keepscript :: Object
  o_nargs :: Object
  o_preview :: Object
  o_range :: Object
  o_register :: Object

datatype uc_flag = UC_BUFFER

text \<open>The local variables of \<^verbatim>\<open>create_user_command\<close> that the steps update.\<close>

record uc_locals =
  l_argt :: "ex_flag set"
  l_def :: "64 word"
  l_addr_type_arg :: cmd_addr_T
  l_compl :: expand_T
  l_compl_arg :: "string option"
  l_compl_luaref :: "nat option"
  l_preview_luaref :: "nat option"

definition uc_locals_init :: uc_locals where
  "uc_locals_init = \<lparr> l_argt = {}, l_def = - 1, l_addr_type_arg = ADDR_NONE,
     l_compl = EXPAND_NOTHING, l_compl_arg = None, l_compl_luaref = None,
     l_preview_luaref = None \<rparr>"

text \<open>Lines 1017-1030.\<close>

definition uc_name_step :: "'a uc_env_scheme \<Rightarrow> string \<Rightarrow> Dict_user_command \<Rightarrow> Error + unit" where
  "uc_name_step env name opts =
    (if \<not> uc_validate_name env (cstr name) then VALIDATION_ERROR ''Invalid command name''
     else if mb_islower env (first_char name)
     then VALIDATION_ERROR (quoted ''name'' @ '' must begin with an uppercase letter'')
     else if HAS_KEY (o_range opts) \<and> HAS_KEY (o_count opts)
     then VALIDATION_ERROR (quoted ''range'' @ '' and '' @ quoted ''count''
                            @ '' are mutually exclusive'')
     else Inr ())"

text \<open>Lines 1032-1067.\<close>

definition uc_nargs_step :: "uc_locals \<Rightarrow> Object \<Rightarrow> Error + uc_locals" where
  "uc_nargs_step l nargs = (case nargs of
       INTEGER_OBJ n \<Rightarrow>
         if n = 0 then Inr l
         else if n = 1 then Inr (l \<lparr> l_argt := l_argt l \<union> {EX_EXTRA, EX_NOSPC, EX_NEEDARG} \<rparr>)
         else VALIDATION_ERROR (''Invalid value for '' @ quoted ''nargs'')
     | STRING_OBJ s \<Rightarrow>
         if length s > 1 then VALIDATION_ERROR (''Invalid value for '' @ quoted ''nargs'')
         else if first_char s = CHR ''*'' then Inr (l \<lparr> l_argt := l_argt l \<union> {EX_EXTRA} \<rparr>)
         else if first_char s = CHR ''?''
         then Inr (l \<lparr> l_argt := l_argt l \<union> {EX_EXTRA, EX_NOSPC} \<rparr>)
         else if first_char s = CHR ''+''
         then Inr (l \<lparr> l_argt := l_argt l \<union> {EX_EXTRA, EX_NEEDARG} \<rparr>)
         else VALIDATION_ERROR (''Invalid value for '' @ quoted ''nargs'')
     | _ \<Rightarrow> if HAS_KEY nargs then VALIDATION_ERROR (''Invalid value for '' @ quoted ''nargs'')
            else Inr l)"

text \<open>Lines 1069-1072.\<close>

definition uc_complete_check :: "uc_locals \<Rightarrow> Object \<Rightarrow> Error + uc_locals" where
  "uc_complete_check l complete =
    (if HAS_KEY complete \<and> l_argt l = {}
     then VALIDATION_ERROR (quoted ''complete'' @ '' used without '' @ quoted ''nargs'')
     else Inr l)"

text \<open>Lines 1074-1094.\<close>

definition uc_range_step :: "uc_locals \<Rightarrow> Object \<Rightarrow> Error + uc_locals" where
  "uc_range_step l r = (case r of
       BOOLEAN_OBJ b \<Rightarrow>
         if b then Inr (l \<lparr> l_argt := l_argt l \<union> {EX_RANGE}, l_addr_type_arg := ADDR_LINES \<rparr>)
         else Inr l
     | STRING_OBJ s \<Rightarrow>
         if first_char s = CHR ''%'' \<and> length s = 1
         then Inr (l \<lparr> l_argt := l_argt l \<union> {EX_RANGE, EX_DFLALL}, l_addr_type_arg := ADDR_LINES \<rparr>)
         else VALIDATION_ERROR (''Invalid value for '' @ quoted ''range'')
     | INTEGER_OBJ n \<Rightarrow>
         Inr (l \<lparr> l_argt := l_argt l \<union> {EX_RANGE, EX_ZEROR}, l_def := n,
                  l_addr_type_arg := ADDR_LINES \<rparr>)
     | _ \<Rightarrow> if HAS_KEY r then VALIDATION_ERROR (''Invalid value for '' @ quoted ''range'')
            else Inr l)"

text \<open>Lines 1096-1109.\<close>

definition uc_count_step :: "uc_locals \<Rightarrow> Object \<Rightarrow> Error + uc_locals" where
  "uc_count_step l c = (case c of
       BOOLEAN_OBJ b \<Rightarrow>
         if b then Inr (l \<lparr> l_argt := l_argt l \<union> {EX_COUNT, EX_ZEROR, EX_RANGE},
                            l_addr_type_arg := ADDR_OTHER, l_def := 0 \<rparr>)
         else Inr l
     | INTEGER_OBJ n \<Rightarrow>
         Inr (l \<lparr> l_argt := l_argt l \<union> {EX_COUNT, EX_ZEROR, EX_RANGE},
                  l_addr_type_arg := ADDR_OTHER, l_def := n \<rparr>)
     | _ \<Rightarrow> if HAS_KEY c then VALIDATION_ERROR (''Invalid value for '' @ quoted ''count'')
            else Inr l)"

text \<open>Lines 1111-1124.\<close>

definition uc_addr_step :: "'a uc_env_scheme \<Rightarrow> uc_locals \<Rightarrow> Object \<Rightarrow> Error + uc_locals" where
  "uc_addr_step env l a = (case a of
       STRING_OBJ s \<Rightarrow>
         (case parse_addr_type_arg env s of
            None \<Rightarrow> VALIDATION_ERROR (''Invalid value for '' @ quoted ''addr'')
          | Some t \<Rightarrow>
              Inr (l \<lparr> l_addr_type_arg := t,
                       l_argt := (if t \<noteq> ADDR_LINES then l_argt l \<union> {EX_ZEROR} else l_argt l) \<rparr>))
     | _ \<Rightarrow> if HAS_KEY a then VALIDATION_ERROR (''Invalid value for '' @ quoted ''addr'')
            else Inr l)"

text \<open>Lines 1126-1148, one Boolean attribute.\<close>

definition uc_bool_step ::
  "'a uc_env_scheme \<Rightarrow> ex_flag \<Rightarrow> string \<Rightarrow> uc_locals \<Rightarrow> Object \<Rightarrow> Error + uc_locals" where
  "uc_bool_step env flag what l v =
     and_then (api_object_to_bool env v what False) (\<lambda>b.
       Inr (if b then l \<lparr> l_argt := l_argt l \<union> {flag} \<rparr> else l))"

text \<open>Lines 1155-1168.\<close>

definition uc_complete_step :: "'a uc_env_scheme \<Rightarrow> uc_locals \<Rightarrow> Object \<Rightarrow> Error + uc_locals" where
  "uc_complete_step env l c = (case c of
       LUAREF_OBJ r \<Rightarrow>
         Inr (l \<lparr> l_compl := EXPAND_USER_LUA, l_compl_luaref := Some (api_new_luaref env r) \<rparr>)
     | STRING_OBJ s \<Rightarrow>
         (case parse_compl_arg env s (l_argt l) of
            None \<Rightarrow> VALIDATION_ERROR (''Invalid value for '' @ quoted ''complete'')
          | Some (compl, flags, compl_arg) \<Rightarrow>
              Inr (l \<lparr> l_compl := compl, l_argt := flags, l_compl_arg := compl_arg \<rparr>))
     | _ \<Rightarrow> if HAS_KEY c then VALIDATION_ERROR (''Invalid value for '' @ quoted ''complete'')
            else Inr l)"

text \<open>Lines 1170-1176.\<close>

definition uc_preview_step :: "'a uc_env_scheme \<Rightarrow> uc_locals \<Rightarrow> Object \<Rightarrow> Error + uc_locals" where
  "uc_preview_step env l pv = (case pv of
       LUAREF_OBJ r \<Rightarrow>
         Inr (l \<lparr> l_argt := l_argt l \<union> {EX_PREVIEW},
                  l_preview_luaref := Some (api_new_luaref env r) \<rparr>)
     | _ \<Rightarrow> if HAS_KEY pv then VALIDATION_ERROR (''Invalid value for '' @ quoted ''preview'')
            else Inr l)"

text \<open>Lines 1178-1193: the replacement text and the Lua function.\<close>

definition uc_command_step ::
  "'a uc_env_scheme \<Rightarrow> Object \<Rightarrow> Object \<Rightarrow> Error + string \<times> nat option" where
  "uc_command_step env command desc = (case command of
       LUAREF_OBJ r \<Rightarrow>
         Inr ((case desc of STRING_OBJ d \<Rightarrow> cstr d | _ \<Rightarrow> []), Some (api_new_luaref env r))
     | STRING_OBJ s \<Rightarrow> Inr (cstr s, None)
     | _ \<Rightarrow> VALIDATION_ERROR (quoted ''command'' @ '' must be a string or Lua function''))"

text \<open>
  Everything \<^verbatim>\<open>create_user_command\<close> does before it calls \<^verbatim>\<open>uc_add_command\<close>: the
  entry to add and the \<^verbatim>\<open>force\<close> argument, or the error.
\<close>

definition uc_prepare ::
  "'a uc_env_scheme \<Rightarrow> string \<Rightarrow> Object \<Rightarrow> Dict_user_command \<Rightarrow> Error + ucmd_T \<times> bool" where
  "uc_prepare env name command opts =
     and_then (uc_name_step env name opts) (\<lambda>_.
     and_then (uc_nargs_step uc_locals_init (o_nargs opts)) (\<lambda>l1.
     and_then (uc_complete_check l1 (o_complete opts)) (\<lambda>l2.
     and_then (uc_range_step l2 (o_range opts)) (\<lambda>l3.
     and_then (uc_count_step l3 (o_count opts)) (\<lambda>l4.
     and_then (uc_addr_step env l4 (o_addr opts)) (\<lambda>l5.
     and_then (uc_bool_step env EX_BANG ''bang'' l5 (o_bang opts)) (\<lambda>l6.
     and_then (uc_bool_step env EX_TRLBAR ''bar'' l6 (o_bar opts)) (\<lambda>l7.
     and_then (uc_bool_step env EX_REGSTR ''register'' l7 (o_register opts)) (\<lambda>l8.
     and_then (uc_bool_step env EX_KEEPSCRIPT ''keepscript'' l8 (o_keepscript opts)) (\<lambda>l9.
     and_then (api_object_to_bool env (o_force opts) ''force'' True) (\<lambda>force.
     and_then (uc_complete_step env l9 (o_complete opts)) (\<lambda>l10.
     and_then (uc_preview_step env l10 (o_preview opts)) (\<lambda>l11.
     and_then (uc_command_step env command (o_desc opts)) (\<lambda>(rep, luaref).
       Inr (\<lparr> uc_name = name, uc_rep = rep, uc_argt = l_argt l11, uc_def = l_def l11,
               uc_compl = l_compl l11, uc_compl_arg = l_compl_arg l11,
               uc_compl_luaref = l_compl_luaref l11,
               uc_preview_luaref = l_preview_luaref l11,
               uc_addr_type = l_addr_type_arg l11, uc_luaref = luaref \<rparr>,
            force)))))))))))))))"

subsection \<open>The registry\<close>

text \<open>
  A call with \<^verbatim>\<open>UC_BUFFER\<close> works on the table of the current buffer (lines 961-964
  make the target buffer current for the call), any other call on the global table.
\<close>

definition scope_table :: "registry \<Rightarrow> uc_flag set \<Rightarrow> ucmd_T list" where
  "scope_table reg flags = (if UC_BUFFER \<in> flags then b_ucmds reg (curbuf reg) else ucmds reg)"

definition set_scope_table :: "registry \<Rightarrow> uc_flag set \<Rightarrow> ucmd_T list \<Rightarrow> registry" where
  "set_scope_table reg flags tbl =
    (if UC_BUFFER \<in> flags then reg \<lparr> b_ucmds := (b_ucmds reg) (curbuf reg := tbl) \<rparr>
     else reg \<lparr> ucmds := tbl \<rparr>)"

text \<open>
  Modelled from the spec: the overwriting step of \<^verbatim>\<open>uc_add_command\<close> (not among the
  sources).  Section 8 of the specification: "with force=true it succeeds and
  overwrites"; the entry of that name is replaced where it stands.
\<close>

fun replace_entry :: "ucmd_T \<Rightarrow> ucmd_T list \<Rightarrow> ucmd_T list" where
  "replace_entry e [] = []"
| "replace_entry e (u # us) = (if uc_name u = uc_name e then e # us else u # replace_entry e us)"

text \<open>
  Modelled from the spec: \<^verbatim>\<open>uc_add_command\<close> is defined in \<^verbatim>\<open>usercmd.c\<close>, which is
  not among the sources.  Section 3 of the specification: an entry is "created by an
  explicit define operation (fails if a name collides and force=false ...)"; section
  4.1: \<open>define(entry, force) -> Ok | NameCollision | InvalidName\<close>, the listing is
  "ordered by definition order within scope"; section 8: "with force=true it succeeds
  and overwrites".  The result is whether the call returned \<^verbatim>\<open>OK\<close>, and the registry.
\<close>

definition uc_add_command :: "ucmd_T \<Rightarrow> uc_flag set \<Rightarrow> bool \<Rightarrow> registry \<Rightarrow> bool \<times> registry" where
  "uc_add_command e flags force reg =
    (let tbl = scope_table reg flags
     in if uc_name e \<in> set (map uc_name tbl)
        then (if force then (True, set_scope_table reg flags (replace_entry e tbl))
              else (False, reg))
        else (True, set_scope_table reg flags (tbl @ [e])))"

text \<open>The error left in \<^verbatim>\<open>err\<close>, if any, and the registry after the call.\<close>

definition create_user_command ::
  "'a uc_env_scheme \<Rightarrow> string \<Rightarrow> Object \<Rightarrow> Dict_user_command \<Rightarrow> uc_flag set \<Rightarrow> registry
     \<Rightarrow> Error option \<times> registry" where
  "create_user_command env name command opts flags reg =
    (case uc_prepare env name command opts of
       Inl e \<Rightarrow> (Some e, reg)
     | Inr (entry, force) \<Rightarrow>
         (case uc_add_command entry flags force reg of
            (ok, reg') \<Rightarrow>
              if \<not> ok then (Some (kErrorTypeException, ''Failed to create user command''), reg')
              else (None, reg')))"

text \<open>Lines 931-935 and 952-965.\<close>

definition nvim_create_user_command ::
  "'a uc_env_scheme \<Rightarrow> string \<Rightarrow> Object \<Rightarrow> Dict_user_command \<Rightarrow> registry
     \<Rightarrow> Error option \<times> registry" where
  "nvim_create_user_command env name command opts reg =
     create_user_command env name command opts {} reg"

definition nvim_buf_create_user_command ::
  "'a uc_env_scheme \<Rightarrow> 64 word \<Rightarrow> string \<Rightarrow> Object \<Rightarrow> Dict_user_command \<Rightarrow> registry
     \<Rightarrow> Error option \<times> registry" where
  "nvim_buf_create_user_command env buffer name command opts reg =
    (case find_buffer_by_handle env buffer of
       Inl e \<Rightarrow> (Some e, reg)
     | Inr target_buf \<Rightarrow>
         (case create_user_command env name command opts {UC_BUFFER}
                 (reg \<lparr> curbuf := target_buf \<rparr>) of
            (err, reg') \<Rightarrow> (err, reg' \<lparr> curbuf := curbuf reg \<rparr>)))"

section \<open>\<^verbatim>\<open>nvim_buf_get_commands\<close>, lines 1217-1252\<close>

record Dict_get_commands =
  o_builtin :: Object

text \<open>The error left in \<^verbatim>\<open>err\<close>, if any, and the Dictionary returned.\<close>

definition nvim_buf_get_commands ::
  "'a uc_env_scheme \<Rightarrow> registry \<Rightarrow> 64 word \<Rightarrow> Dict_get_commands \<Rightarrow> Error option \<times> Dictionary" where
  "nvim_buf_get_commands env reg buffer opts =
    (let global = (buffer = - 1)
     in case api_object_to_bool env (o_builtin opts) ''builtin'' False of
          Inl e \<Rightarrow> (Some e, [])
        | Inr builtin \<Rightarrow>
            if global then
              (if builtin
               then (Some (kErrorTypeValidation, ''builtin=true not implemented''), [])
               else (None, commands_array env reg None))
            else
              (case find_buffer_by_handle env buffer of
                 Inl e \<Rightarrow> (Some e, [])
               | Inr buf \<Rightarrow>
                   if builtin then (None, []) else (None, commands_array env reg (Some buf))))"

definition nvim_get_commands ::
  "'a uc_env_scheme \<Rightarrow> registry \<Rightarrow> Dict_get_commands \<Rightarrow> Error option \<times> Dictionary" where
  "nvim_get_commands env reg opts = nvim_buf_get_commands env reg (- 1) opts"

section \<open>Notions of the specification\<close>

text \<open>
  The five arities of the specification.  \<open>arity_flags\<close> is the encoding
  \<^verbatim>\<open>create_user_command\<close> gives them (lines 1032-1063: \<^verbatim>\<open>nargs\<close> 0, 1, \<^verbatim>\<open>?\<close>, \<^verbatim>\<open>+\<close>,
  \<^verbatim>\<open>*\<close>); a contract has an arity when its three arity bits are that encoding.
\<close>

datatype arity = NoArgs | ExactlyOne | ZeroOrOne | OneOrMore | ZeroOrMore

fun arity_flags :: "arity \<Rightarrow> ex_flag set" where
  "arity_flags NoArgs = {}"
| "arity_flags ExactlyOne = {EX_EXTRA, EX_NOSPC, EX_NEEDARG}"
| "arity_flags ZeroOrOne = {EX_EXTRA, EX_NOSPC}"
| "arity_flags OneOrMore = {EX_EXTRA, EX_NEEDARG}"
| "arity_flags ZeroOrMore = {EX_EXTRA}"

fun arity_nargs :: "arity \<Rightarrow> Object" where
  "arity_nargs NoArgs = INTEGER_OBJ 0"
| "arity_nargs ExactlyOne = INTEGER_OBJ 1"
| "arity_nargs ZeroOrOne = STRING_OBJ ''?''"
| "arity_nargs OneOrMore = STRING_OBJ ''+''"
| "arity_nargs ZeroOrMore = STRING_OBJ ''*''"

definition has_arity :: "ex_flag set \<Rightarrow> arity \<Rightarrow> bool" where
  "has_arity flags a = (flags \<inter> {EX_EXTRA, EX_NOSPC, EX_NEEDARG} = arity_flags a)"

text \<open>The arity policy in the words of section 4.2, step 2, of the specification.\<close>

fun spec_arity_policy :: "arity \<Rightarrow> nat \<Rightarrow> bool" where
  "spec_arity_policy ExactlyOne n = (n = 1)"
| "spec_arity_policy ZeroOrOne n = (n \<le> 1)"
| "spec_arity_policy OneOrMore n = (n \<ge> 1)"
| "spec_arity_policy ZeroOrMore n = True"
| "spec_arity_policy NoArgs n = (n = 0)"

text \<open>The element types an argument may have.\<close>

definition convertible_type :: "Object \<Rightarrow> bool" where
  "convertible_type x = (case x of
       BOOLEAN_OBJ _ \<Rightarrow> True | INTEGER_OBJ _ \<Rightarrow> True | BUFFER_OBJ _ \<Rightarrow> True
     | WINDOW_OBJ _ \<Rightarrow> True | TABPAGE_OBJ _ \<Rightarrow> True | STRING_OBJ _ \<Rightarrow> True | _ \<Rightarrow> False)"

text \<open>
  The argument string the elements that need a conversion become: \<^verbatim>\<open>"1"\<close> or \<^verbatim>\<open>"0"\<close>
  for a Boolean, the decimal numeral for an Integer, Buffer, Window or Tabpage.
\<close>

definition spec_arg_text :: "Object \<Rightarrow> string" where
  "spec_arg_text x = (case x of
       BOOLEAN_OBJ b \<Rightarrow> (if b then ''1'' else ''0'')
     | INTEGER_OBJ n \<Rightarrow> PRId (sint n)
     | BUFFER_OBJ n \<Rightarrow> PRId (sint n)
     | WINDOW_OBJ n \<Rightarrow> PRId (sint n)
     | TABPAGE_OBJ n \<Rightarrow> PRId (sint n)
     | _ \<Rightarrow> [])"

definition converted_type :: "Object \<Rightarrow> bool" where
  "converted_type x = (case x of
       BOOLEAN_OBJ _ \<Rightarrow> True | INTEGER_OBJ _ \<Rightarrow> True | BUFFER_OBJ _ \<Rightarrow> True
     | WINDOW_OBJ _ \<Rightarrow> True | TABPAGE_OBJ _ \<Rightarrow> True | _ \<Rightarrow> False)"

text \<open>
  The text of a serialized line after its modifiers: the range, the command name with
  its bang and register, and the arguments.
\<close>

definition command_text :: "exarg_T \<Rightarrow> string list \<Rightarrow> string" where
  "command_text ea args = concat (range_tokens ea @ name_tokens ea @ arg_tokens args)"

text \<open>A lowercase ASCII letter: what every modifier word starts with.\<close>

definition is_lower :: "char \<Rightarrow> bool" where
  "is_lower c = (97 \<le> (of_char c :: nat) \<and> (of_char c :: nat) \<le> 122)"

section \<open>A sample editor\<close>

text \<open>
  A concrete instance of the collaborators, on which the theorems are exercised: the
  built-in \<^verbatim>\<open>:put\<close>, and four user commands, \<^verbatim>\<open>Count\<close> (defined with \<^verbatim>\<open>count\<close>),
  \<^verbatim>\<open>One\<close> (\<^verbatim>\<open>nargs=1\<close>), \<^verbatim>\<open>Many\<close> (\<^verbatim>\<open>nargs=*\<close>) and \<^verbatim>\<open>Zero\<close> (no attribute).
  \<open>sample_object_to_bool\<close> gives a Boolean its value, an Integer whether it is not
  zero, and an absent key the default of the call site.
\<close>

definition sample_object_to_bool :: "Object \<Rightarrow> string \<Rightarrow> bool \<Rightarrow> Error + bool" where
  "sample_object_to_bool obj what dflt = (case obj of
       BOOLEAN_OBJ b \<Rightarrow> Inr b
     | INTEGER_OBJ n \<Rightarrow> Inr (n \<noteq> 0)
     | NIL \<Rightarrow> Inr dflt
     | _ \<Rightarrow> Inl (kErrorTypeValidation, what @ '' is not a boolean''))"

definition sample_find :: "string \<Rightarrow> found_cmd" where
  "sample_find name =
    (if name = ''put''
     then \<lparr> found_p = True, found_cmdidx = CMD_put, found_useridx = 0, found_argt = {},
            found_addr_type = ADDR_LINES \<rparr>
     else if name = ''Count''
     then \<lparr> found_p = True, found_cmdidx = CMD_USER, found_useridx = 0,
            found_argt = {EX_COUNT, EX_ZEROR, EX_RANGE}, found_addr_type = ADDR_OTHER \<rparr>
     else if name = ''One''
     then \<lparr> found_p = True, found_cmdidx = CMD_USER, found_useridx = 1,
            found_argt = {EX_EXTRA, EX_NOSPC, EX_NEEDARG}, found_addr_type = ADDR_NONE \<rparr>
     else if name = ''Many''
     then \<lparr> found_p = True, found_cmdidx = CMD_USER, found_useridx = 2,
            found_argt = {EX_EXTRA}, found_addr_type = ADDR_NONE \<rparr>
     else if name = ''Zero''
     then \<lparr> found_p = True, found_cmdidx = CMD_USER, found_useridx = 3,
            found_argt = {}, found_addr_type = ADDR_NONE \<rparr>
     else \<lparr> found_p = True, found_cmdidx = CMD_SIZE, found_useridx = 0, found_argt = {},
            found_addr_type = ADDR_LINES \<rparr>)"

definition dict_get :: "Dictionary \<Rightarrow> string \<Rightarrow> Object" where
  "dict_get d k = (case map_of d k of None \<Rightarrow> NIL | Some v \<Rightarrow> v)"

definition sample_keydict_mods :: "Dictionary \<Rightarrow> Error + Dict_cmd_mods" where
  "sample_keydict_mods d =
     Inr \<lparr> mods_filter = dict_get d ''filter'', mods_silent = dict_get d ''silent'',
          mods_emsg_silent = dict_get d ''emsg_silent'', mods_unsilent = dict_get d ''unsilent'',
          mods_sandbox = dict_get d ''sandbox'', mods_noautocmd = dict_get d ''noautocmd'',
          mods_browse = dict_get d ''browse'', mods_confirm = dict_get d ''confirm'',
          mods_hide = dict_get d ''hide'', mods_horizontal = dict_get d ''horizontal'',
          mods_keepalt = dict_get d ''keepalt'', mods_keepjumps = dict_get d ''keepjumps'',
          mods_keepmarks = dict_get d ''keepmarks'',
          mods_keeppatterns = dict_get d ''keeppatterns'',
          mods_lockmarks = dict_get d ''lockmarks'', mods_noswapfile = dict_get d ''noswapfile'',
          mods_tab = dict_get d ''tab'', mods_verbose = dict_get d ''verbose'',
          mods_vertical = dict_get d ''vertical'', mods_split = dict_get d ''split'' \<rparr>"

definition sample_env :: cmd_env where
  "sample_env = \<lparr> api_object_to_bool = sample_object_to_bool,
     ascii_iswhite = (\<lambda>c. c = CHR '' '' \<or> c = CHR 0x09),
     ASCII_ISUPPER = (\<lambda>c. 65 \<le> (of_char c :: nat) \<and> (of_char c :: nat) \<le> 90),
     find_ex_command = sample_find,
     has_event_CMDUNDEFINED = False,
     apply_autocmds_CMDUNDEFINED = (\<lambda>_. False),
     find_ex_command_again = sample_find,
     is_cmd_ni = (\<lambda>_. False),
     get_cmd_argt = (\<lambda>idx. if idx = CMD_put
                            then {EX_RANGE, EX_BANG, EX_REGSTR, EX_TRLBAR, EX_ZEROR}
                            else {}),
     set_cmd_addr_type = (\<lambda>ea _. addr_type ea),
     invalid_range = (\<lambda>_. False),
     set_cmd_dflall_range = (\<lambda>_. (1, 10)),
     get_cmd_default_range = (\<lambda>_. 5),
     set_cmd_count = (\<lambda>ea n _. if addr_type ea \<noteq> ADDR_LINES
                                 then (line1 ea, n, if addr_count ea = 0 then 1 else addr_count ea)
                                 else (line2 ea, line2 ea + n - 1, addr_count ea + 1)),
     valid_yank_reg = (\<lambda>c writing. c = CHR ''a'' \<or> (c = CHR '':'' \<and> \<not> writing)),
     vim_regcomp = (\<lambda>_. Some 0),
     replace_makeprg = (\<lambda>_ _. None),
     keydict_cmd_magic = (\<lambda>d. Inr \<lparr> mg_file = dict_get d ''file'', mg_bar = dict_get d ''bar'' \<rparr>),
     keydict_cmd_mods = sample_keydict_mods,
     keydict_cmd_mods_filter =
       (\<lambda>d. Inr \<lparr> filter_pattern = dict_get d ''pattern'', filter_force = dict_get d ''force'' \<rparr>) \<rparr>"

definition cmd_only :: "string \<Rightarrow> Dict_cmd" where
  "cmd_only name = \<lparr> cmd_cmd = STRING_OBJ name, cmd_range = NIL, cmd_count = NIL, cmd_reg = NIL,
     cmd_bang = NIL, cmd_args = NIL, cmd_magic = NIL, cmd_mods = NIL \<rparr>"

definition no_opts :: Dict_cmd_opts where
  "no_opts = \<lparr> opts_output = NIL \<rparr>"

definition args_cmd :: "string \<Rightarrow> Object list \<Rightarrow> Dict_cmd" where
  "args_cmd name items = (cmd_only name) \<lparr> cmd_args := ARRAY_OBJ items \<rparr>"

definition sample_uc_env :: uc_env where
  "sample_uc_env = \<lparr> api_object_to_bool = sample_object_to_bool,
     uc_validate_name = (\<lambda>s. s \<noteq> [] \<and> list_all (\<lambda>c. c \<noteq> CHR '' '') s),
     mb_islower = (\<lambda>c. 97 \<le> (of_char c :: nat) \<and> (of_char c :: nat) \<le> 122),
     parse_addr_type_arg = (\<lambda>s. if s = ''lines'' then Some ADDR_LINES
                                else if s = ''other'' then Some ADDR_OTHER else None),
     parse_compl_arg = (\<lambda>s flags. None),
     api_new_luaref = (\<lambda>r. r),
     find_buffer_by_handle = (\<lambda>h. if h = 0 \<or> h = 1 then Inr 1
                                  else Inl (kErrorTypeValidation, ''Invalid buffer id'')),
     commands_array = (\<lambda>reg buf. map (\<lambda>u. (uc_name u, STRING_OBJ (uc_rep u)))
                         (case buf of None \<Rightarrow> ucmds reg | Some b \<Rightarrow> b_ucmds reg b)) \<rparr>"

definition no_attrs :: Dict_user_command where
  "no_attrs = \<lparr> o_addr = NIL, o_bang = NIL, o_bar = NIL, o_complete = NIL, o_count = NIL,
     o_desc = NIL, o_force = NIL, o_keepscript = NIL, o_nargs = NIL, o_preview = NIL,
     o_range = NIL, o_register = NIL \<rparr>"

definition plain_entry :: "string \<Rightarrow> string \<Rightarrow> ucmd_T" where
  "plain_entry name rep = \<lparr> uc_name = name, uc_rep = rep, uc_argt = {}, uc_def = - 1,
     uc_compl = EXPAND_NOTHING, uc_compl_arg = None, uc_compl_luaref = None,
     uc_preview_luaref = None, uc_addr_type = ADDR_NONE, uc_luaref = None \<rparr>"

definition sample_registry :: registry where
  "sample_registry = \<lparr> ucmds = [plain_entry ''Hello'' ''echo 1''],
     b_ucmds = (\<lambda>b. if b = 1 then [plain_entry ''Local'' ''echo 3''] else []), curbuf = 1 \<rparr>"

text \<open>
  A sample tokenizer that knows two lines, and a sample splitter that cuts at blanks
  (no escapes): a call skips blanks after \<open>e\<close>, copies the next word, and is done when the
  word ends the text.
\<close>

definition sample_split :: "string \<Rightarrow> nat \<Rightarrow> nat \<Rightarrow> bool \<times> nat \<times> string" where
  "sample_split a len e =
    (let rest = dropWhile (\<lambda>c. c = CHR '' '') (drop e a);
         w = takeWhile (\<lambda>c. c \<noteq> CHR '' '') rest;
         after = drop (length w) rest
     in (after = [], len - length after, w))"

definition sample_parse_cmdline :: "string \<Rightarrow> string option + exarg_T \<times> CmdParseInfo" where
  "sample_parse_cmdline line =
    (if line = ''Many a  bc d''
     then Inr (exarg_clear \<lparr> arg := ''a  bc d'', cmd := ''Many a  bc d'', argt := {EX_EXTRA},
                 cmdidx := CMD_USER, useridx := 2, addr_type := ADDR_NONE \<rparr>, cmdinfo_clear)
     else if line = ''One a  bc d''
     then Inr (exarg_clear \<lparr> arg := ''a  bc d'', cmd := ''One a  bc d'',
                 argt := {EX_EXTRA, EX_NOSPC, EX_NEEDARG},
                 cmdidx := CMD_USER, useridx := 1, addr_type := ADDR_NONE \<rparr>, cmdinfo_clear)
     else Inl (Some ''E492: Not an editor command''))"

definition sample_parse_env :: parse_env where
  "sample_parse_env = \<lparr> parse_cmdline = sample_parse_cmdline,
     uc_split_args_iter = sample_split,
     USER_CMD = (\<lambda>i. if i = 1 then plain_entry ''One'' ''echo 1''
                      else plain_entry ''Many'' ''echo 2''),
     USER_CMD_GA_curbuf = (\<lambda>i. plain_entry ''Local'' ''echo 3''),
     get_command_name = (\<lambda>idx. if idx = CMD_put then ''put'' else ''other'') \<rparr>"

text \<open>
  A sample tokenizer for the command itself, which knows \<^verbatim>\<open>One\<close> and \<^verbatim>\<open>Many\<close>
  followed by their arguments, and the sample editor with the modelled reading of the
  modifiers in front of it.  \<open>mods_entry\<close> reads an entry of the \<^verbatim>\<open>mods\<close> dictionary
  of a result of \<^verbatim>\<open>nvim_parse_cmd\<close>.
\<close>

definition sample_parse_command :: "string \<Rightarrow> string option + exarg_T \<times> CmdParseInfo" where
  "sample_parse_command text =
    (let name = takeWhile (\<lambda>c. c \<noteq> CHR '' '') text;
         a = drop (Suc (length name)) text
     in if name = ''One''
        then Inr (exarg_clear \<lparr> arg := a, cmd := text, argt := {EX_EXTRA, EX_NOSPC, EX_NEEDARG},
                    cmdidx := CMD_USER, useridx := 1, addr_type := ADDR_NONE \<rparr>, cmdinfo_clear)
        else if name = ''Many''
        then Inr (exarg_clear \<lparr> arg := a, cmd := text, argt := {EX_EXTRA},
                    cmdidx := CMD_USER, useridx := 2, addr_type := ADDR_NONE \<rparr>, cmdinfo_clear)
        else Inl (Some ''E492: Not an editor command''))"

definition sample_mods_parse_env :: parse_env where
  "sample_mods_parse_env =
     sample_parse_env \<lparr> parse_cmdline := parse_cmdline_mods sample_parse_command \<rparr>"

text \<open>
  \<^verbatim>\<open>One\<close> with the argument \<^verbatim>\<open>x y\<close>, silent, with \<^verbatim>\<open>verbose = -1\<close> and a given
  \<^verbatim>\<open>tab\<close>; the \<^verbatim>\<open>exarg_T\<close> the sample tokenizer fills for it.
\<close>

definition sentinel_mods :: "Object \<Rightarrow> Dictionary" where
  "sentinel_mods tab =
     [(''tab'', tab), (''verbose'', INTEGER_OBJ (- 1)), (''silent'', BOOLEAN_OBJ True)]"

definition sentinel_cmd :: "Object \<Rightarrow> Dict_cmd" where
  "sentinel_cmd tab = (cmd_only ''One'')
     \<lparr> cmd_args := ARRAY_OBJ [STRING_OBJ ''x y''], cmd_mods := DICTIONARY_OBJ (sentinel_mods tab) \<rparr>"

definition sentinel_parsed :: exarg_T where
  "sentinel_parsed = exarg_clear \<lparr> arg := ''x y'', cmd := ''One x y'',
     argt := {EX_EXTRA, EX_NOSPC, EX_NEEDARG}, cmdidx := CMD_USER, useridx := 1,
     addr_type := ADDR_NONE \<rparr>"

definition mods_entry :: "Dictionary \<Rightarrow> string \<Rightarrow> Object option" where
  "mods_entry dict k = (case map_of dict ''mods'' of
       Some (DICTIONARY_OBJ mods) \<Rightarrow> map_of mods k
     | _ \<Rightarrow> None)"

text \<open>
  The successive calls of the splitter on a text, as the loop of \<^verbatim>\<open>nvim_parse_cmd\<close>
  makes them: \<open>split_end\<close> is \<^verbatim>\<open>end\<close> before call \<open>n\<close> (calls are numbered from 0),
  \<open>split_done\<close> and \<open>split_seg\<close> are what call \<open>n\<close> returns and produces.
\<close>

fun split_end :: "(string \<Rightarrow> nat \<Rightarrow> nat \<Rightarrow> bool \<times> nat \<times> string) \<Rightarrow> string \<Rightarrow> nat \<Rightarrow> nat" where
  "split_end iter a 0 = 0"
| "split_end iter a (Suc n) = fst (snd (iter a (length a) (split_end iter a n)))"

definition split_done ::
  "(string \<Rightarrow> nat \<Rightarrow> nat \<Rightarrow> bool \<times> nat \<times> string) \<Rightarrow> string \<Rightarrow> nat \<Rightarrow> bool" where
  "split_done iter a n = fst (iter a (length a) (split_end iter a n))"

definition split_seg ::
  "(string \<Rightarrow> nat \<Rightarrow> nat \<Rightarrow> bool \<times> nat \<times> string) \<Rightarrow> string \<Rightarrow> nat \<Rightarrow> string" where
  "split_seg iter a n = snd (snd (iter a (length a) (split_end iter a n)))"

text \<open>Exact-match lookup of a command name in a table.\<close>

definition find_ucmd :: "string \<Rightarrow> ucmd_T list \<Rightarrow> ucmd_T option" where
  "find_ucmd name tbl = find (\<lambda>u. uc_name u = name) tbl"

section \<open>Basic facts\<close>

lemma and_then_Inl [simp]: "and_then (Inl e) f = Inl e"
  by (simp add: and_then_def)

lemma and_then_Inr [simp]: "and_then (Inr x) f = f x"
  by (simp add: and_then_def)

lemma and_then_eq_Inr: "and_then m f = Inr y \<longleftrightarrow> (\<exists>x. m = Inr x \<and> f x = Inr y)"
  by (cases m) simp_all

lemma VALIDATION_ERROR_not_Inr [simp]:
  "VALIDATION_ERROR msg \<noteq> Inr x" "Inr x \<noteq> VALIDATION_ERROR msg"
  by (simp_all add: VALIDATION_ERROR_def)

lemma not_Inr_is_Inl: "(\<And>y. r \<noteq> Inr y) \<Longrightarrow> \<exists>e. r = Inl e"
  by (cases r) auto

text \<open>The steps a successful validation went through, in the order of the source.\<close>

lemma nvim_cmd_validate_stages:
  assumes "nvim_cmd_validate env c opts = Inr v"
  shows "\<exists>cmdname ea0 ea1 ea2 ea3 ea4 cmdinfo.
           api_object_to_bool env (opts_output opts) (quoted ''output'') False = Inr (v_output v)
         \<and> check_cmd_name (cmd_cmd c) = Inr cmdname
         \<and> find_command env cmdname = Inr ea0
         \<and> check_args env ea0 (cmd_args c) = Inr (v_args v)
         \<and> check_range env (resolve_addr_type env ea0 (v_args v)) (cmd_range c) = Inr ea1
         \<and> check_count env (default_range env ea1) (cmd_count c) = Inr ea2
         \<and> check_reg env ea2 (cmd_reg c) = Inr ea3
         \<and> check_bang env ea3 (cmd_bang c) = Inr ea4
         \<and> check_magic env ea4 cmdinfo_clear (cmd_magic c) = Inr (v_ea v, cmdinfo)
         \<and> check_mods env (v_ea v) cmdinfo (cmd_mods c) = Inr (v_cmdinfo v)"
  using assms unfolding nvim_cmd_validate_def and_then_eq_Inr
  by (auto simp: and_then_eq_Inr split: prod.splits)

lemma nvim_cmd_Inl: "nvim_cmd_validate env c opts = Inl e \<Longrightarrow> nvim_cmd env c opts = Inl e"
  by (simp add: nvim_cmd_def)

subsection \<open>Decimal numerals\<close>

lemma digit_val_digit_char: "d < 10 \<Longrightarrow> digit_val (digit_char d) = d"
  by (simp add: digit_val_def digit_char_def)

lemma nat_of_dec_snoc: "nat_of_dec (s @ [c]) = 10 * nat_of_dec s + digit_val c"
  by (simp add: nat_of_dec_def)

lemma nat_of_dec_dec_nat: "nat_of_dec (dec_nat n) = n"
proof (induction n rule: dec_nat.induct)
  case (1 n)
  show ?case
  proof (cases "n < 10")
    case True
    then show ?thesis
      by (simp add: dec_nat.simps [of n] nat_of_dec_def digit_val_digit_char)
  next
    case False
    with 1 have "nat_of_dec (dec_nat (n div 10)) = n div 10" by simp
    with False show ?thesis
      by (simp add: dec_nat.simps [of n] nat_of_dec_snoc digit_val_digit_char)
  qed
qed

lemma digit_char_not_minus: "d < 10 \<Longrightarrow> digit_char d \<noteq> CHR ''-''"
proof
  assume "d < 10" and "digit_char d = CHR ''-''"
  then have "(of_char (digit_char d) :: nat) = of_char (CHR ''-'')" by simp
  with \<open>d < 10\<close> show False by (simp add: digit_char_def)
qed

lemma dec_nat_first: "\<exists>c cs. dec_nat n = c # cs \<and> c \<noteq> CHR ''-''"
proof (induction n rule: dec_nat.induct)
  case (1 n)
  show ?case
  proof (cases "n < 10")
    case True
    then show ?thesis by (simp add: dec_nat.simps [of n] digit_char_not_minus)
  next
    case False
    with 1 obtain c cs where "dec_nat (n div 10) = c # cs" "c \<noteq> CHR ''-''" by auto
    with False show ?thesis by (simp add: dec_nat.simps [of n])
  qed
qed

lemma int_of_dec_PRId: "int_of_dec (PRId i) = i"
proof (cases "i < 0")
  case True
  then show ?thesis by (simp add: PRId_def int_of_dec_def nat_of_dec_dec_nat)
next
  case False
  obtain c cs where "dec_nat (nat i) = c # cs" "c \<noteq> CHR ''-''"
    using dec_nat_first by blast
  moreover have "nat_of_dec (dec_nat (nat i)) = nat i" by (rule nat_of_dec_dec_nat)
  ultimately show ?thesis using False by (simp add: PRId_def int_of_dec_def)
qed

section \<open>The sample tokenizer at work\<close>

lemma sample_split_run:
  "len = 7 \<Longrightarrow> split_args_loop sample_split ''a  bc d'' len 0 [] = Some [''a'', ''bc'', ''d'']"
  by (simp add: split_args_loop.simps sample_split_def Let_def)

lemma sample_parse_many:
  "nvim_parse_cmd sample_parse_env ''Many a  bc d'' []
     = Some (Inr (parse_result sample_parse_env
         (exarg_clear \<lparr> arg := ''a  bc d'', cmd := ''Many a  bc d'', argt := {EX_EXTRA},
            cmdidx := CMD_USER, useridx := 2, addr_type := ADDR_NONE \<rparr>)
         cmdinfo_clear [''a'', ''bc'', ''d'']))"
  by (simp add: nvim_parse_cmd_def sample_parse_env_def sample_parse_cmdline_def cstr_def
      parse_args_def sample_split_run)

lemma sample_tokenize_many:
  "parse_cmdline sample_parse_env (cstr ''Many a  bc d'')
     = Inr (exarg_clear \<lparr> arg := ''a  bc d'', cmd := ''Many a  bc d'', argt := {EX_EXTRA},
              cmdidx := CMD_USER, useridx := 2, addr_type := ADDR_NONE \<rparr>, cmdinfo_clear)"
  by (simp add: sample_parse_env_def sample_parse_cmdline_def cstr_def)

section \<open>What the validation steps leave unchanged\<close>

lemma find_command_cmd: "find_command env cmdname = Inr ea \<Longrightarrow> cmd ea = cmdname"
  by (auto simp: find_command_def Let_def exarg_clear_def split: if_splits)

lemma find_command_clear:
  "find_command env cmdname = Inr ea \<Longrightarrow>
     addr_count ea = 0 \<and> regname ea = NUL \<and> forceit ea = False \<and> line1 ea = 0 \<and> line2 ea = 0"
  by (auto simp: find_command_def Let_def exarg_clear_def split: if_splits)

lemma resolve_addr_type_frame:
  "argt (resolve_addr_type env ea args) = argt ea"
  "cmdidx (resolve_addr_type env ea args) = cmdidx ea"
  "cmd (resolve_addr_type env ea args) = cmd ea"
  "addr_count (resolve_addr_type env ea args) = addr_count ea"
  "regname (resolve_addr_type env ea args) = regname ea"
  by (simp_all add: resolve_addr_type_def)

lemma check_range_frame:
  "check_range env ea r = Inr ea' \<Longrightarrow>
     argt ea' = argt ea \<and> cmdidx ea' = cmdidx ea \<and> cmd ea' = cmd ea
     \<and> addr_type ea' = addr_type ea \<and> regname ea' = regname ea"
  by (cases r) (auto simp: check_range_def HAS_KEY_def Let_def split: if_splits)

lemma default_range_frame:
  "argt (default_range env ea) = argt ea"
  "cmdidx (default_range env ea) = cmdidx ea"
  "cmd (default_range env ea) = cmd ea"
  "addr_type (default_range env ea) = addr_type ea"
  "addr_count (default_range env ea) = addr_count ea"
  "regname (default_range env ea) = regname ea"
  by (simp_all add: default_range_def Let_def split: prod.splits)

lemma check_count_frame:
  "check_count env ea r = Inr ea' \<Longrightarrow>
     argt ea' = argt ea \<and> cmdidx ea' = cmdidx ea \<and> cmd ea' = cmd ea
     \<and> addr_type ea' = addr_type ea \<and> regname ea' = regname ea"
  by (auto simp: check_count_def split: if_splits prod.splits)

lemma check_reg_frame:
  "check_reg env ea r = Inr ea' \<Longrightarrow>
     argt ea' = argt ea \<and> cmdidx ea' = cmdidx ea \<and> cmd ea' = cmd ea
     \<and> addr_type ea' = addr_type ea \<and> addr_count ea' = addr_count ea
     \<and> line1 ea' = line1 ea \<and> line2 ea' = line2 ea"
  by (cases r) (auto simp: check_reg_def HAS_KEY_def Let_def split: if_splits)

lemma check_bang_frame:
  "check_bang env ea r = Inr ea' \<Longrightarrow>
     argt ea' = argt ea \<and> cmdidx ea' = cmdidx ea \<and> cmd ea' = cmd ea
     \<and> addr_type ea' = addr_type ea \<and> addr_count ea' = addr_count ea
     \<and> line1 ea' = line1 ea \<and> line2 ea' = line2 ea \<and> regname ea' = regname ea"
  by (auto simp: check_bang_def and_then_eq_Inr split: if_splits)

lemma check_magic_frame:
  "check_magic env ea ci r = Inr (ea', ci') \<Longrightarrow>
     argt ea' - {EX_XFILE} = argt ea - {EX_XFILE} \<and> cmdidx ea' = cmdidx ea \<and> cmd ea' = cmd ea
     \<and> addr_type ea' = addr_type ea \<and> addr_count ea' = addr_count ea
     \<and> line1 ea' = line1 ea \<and> line2 ea' = line2 ea \<and> regname ea' = regname ea
     \<and> forceit ea' = forceit ea \<and> cmdmod ci' = cmdmod ci"
  by (cases r) (auto simp: check_magic_def HAS_KEY_def and_then_eq_Inr split: if_splits)

text \<open>
  The contract a validated command was checked against: the flags found for the name,
  up to \<^verbatim>\<open>EX_XFILE\<close>, which the \<^verbatim>\<open>magic\<close> key may switch.
\<close>

lemma validated_contract:
  assumes "nvim_cmd_validate env c opts = Inr v"
  shows "\<exists>cmdname ea0. check_cmd_name (cmd_cmd c) = Inr cmdname
           \<and> find_command env cmdname = Inr ea0
           \<and> check_args env ea0 (cmd_args c) = Inr (v_args v)
           \<and> argt (v_ea v) - {EX_XFILE} = argt ea0 - {EX_XFILE}
           \<and> cmdidx (v_ea v) = cmdidx ea0
           \<and> cmd (v_ea v) = cmdname"
proof -
  from nvim_cmd_validate_stages [OF assms] obtain cmdname ea0 ea1 ea2 ea3 ea4 cmdinfo where
    n: "check_cmd_name (cmd_cmd c) = Inr cmdname" and
    f: "find_command env cmdname = Inr ea0" and
    a: "check_args env ea0 (cmd_args c) = Inr (v_args v)" and
    r: "check_range env (resolve_addr_type env ea0 (v_args v)) (cmd_range c) = Inr ea1" and
    k: "check_count env (default_range env ea1) (cmd_count c) = Inr ea2" and
    g: "check_reg env ea2 (cmd_reg c) = Inr ea3" and
    b: "check_bang env ea3 (cmd_bang c) = Inr ea4" and
    m: "check_magic env ea4 cmdinfo_clear (cmd_magic c) = Inr (v_ea v, cmdinfo)"
    by blast
  have "argt ea4 = argt ea0 \<and> cmdidx ea4 = cmdidx ea0 \<and> cmd ea4 = cmd ea0"
    using check_range_frame [OF r] check_count_frame [OF k] check_reg_frame [OF g]
      check_bang_frame [OF b]
    by (simp add: resolve_addr_type_frame default_range_frame)
  with check_magic_frame [OF m] find_command_cmd [OF f] n f a show ?thesis by auto
qed

section \<open>Arguments of \<^verbatim>\<open>nvim_cmd\<close>\<close>

lemma string_iswhite_all: "list_all iswhite s \<Longrightarrow> string_iswhite iswhite s"
  by (induction s) auto

lemma convert_arg_error: "convert_arg env x = Inl e \<Longrightarrow> fst e = kErrorTypeValidation"
  by (cases x) (auto simp: convert_arg_def VALIDATION_ERROR_def split: if_splits)

lemma convert_args_error: "convert_args env items = Inl e \<Longrightarrow> fst e = kErrorTypeValidation"
proof (induction items arbitrary: e)
  case Nil
  then show ?case by simp
next
  case (Cons x xs)
  show ?case
  proof (cases "convert_arg env x")
    case (Inl e1)
    with Cons.prems show ?thesis by (simp add: convert_arg_error)
  next
    case (Inr s)
    show ?thesis
    proof (cases "convert_args env xs")
      case (Inl e2)
      with Inr Cons show ?thesis by simp
    next
      case (Inr ss)
      with \<open>convert_arg env x = Inr s\<close> Cons.prems show ?thesis by simp
    qed
  qed
qed

lemma convert_args_reject:
  assumes "x \<in> set items" and "convert_arg env x = Inl e0"
  shows "\<exists>msg. convert_args env items = Inl (kErrorTypeValidation, msg)"
proof -
  have "\<exists>e. convert_args env items = Inl e"
    using assms
  proof (induction items)
    case Nil
    then show ?case by simp
  next
    case (Cons y ys)
    show ?case
    proof (cases "convert_arg env y")
      case (Inl e1)
      then show ?thesis by simp
    next
      case (Inr s)
      with Cons have "x \<in> set ys" by auto
      with Cons obtain e where "convert_args env ys = Inl e" by blast
      with Inr show ?thesis by simp
    qed
  qed
  then obtain e where e: "convert_args env items = Inl e" ..
  then have "fst e = kErrorTypeValidation" by (rule convert_args_error)
  with e show ?thesis by (cases e) auto
qed

lemma convert_args_nth:
  "convert_args env items = Inr args \<Longrightarrow>
     length args = length items \<and> (\<forall>i<length items. convert_arg env (items ! i) = Inr (args ! i))"
proof (induction items arbitrary: args)
  case Nil
  then show ?case by simp
next
  case (Cons x xs)
  from Cons.prems obtain s ss where s: "convert_arg env x = Inr s"
    and ss: "convert_args env xs = Inr ss" and args: "args = s # ss"
    by (auto simp: and_then_eq_Inr)
  from Cons.IH [OF ss] have len: "length ss = length xs"
    and nth: "\<And>i. i < length xs \<Longrightarrow> convert_arg env (xs ! i) = Inr (ss ! i)" by auto
  show ?case
  proof (intro conjI allI impI)
    show "length args = length (x # xs)" using len args by simp
  next
    fix i assume "i < length (x # xs)"
    then show "convert_arg env ((x # xs) ! i) = Inr (args ! i)"
      using s nth args by (cases i) auto
  qed
qed

lemma validated_args:
  assumes "nvim_cmd_validate env c opts = Inr v" and "cmd_args c = ARRAY_OBJ items"
  shows "convert_args env items = Inr (v_args v)"
proof -
  from nvim_cmd_validate_stages [OF assms(1)] obtain ea0
    where "check_args env ea0 (cmd_args c) = Inr (v_args v)" by blast
  with assms(2) show ?thesis
    by (auto simp: check_args_def HAS_KEY_def and_then_eq_Inr split: if_splits)
qed

lemma rejected_args:
  assumes "cmd_args c = ARRAY_OBJ items" and "convert_args env items = Inl e0"
  shows "\<exists>e. nvim_cmd env c opts = Inl e"
proof -
  have "\<And>v. nvim_cmd_validate env c opts \<noteq> Inr v"
    using validated_args [OF _ assms(1)] assms(2) by fastforce
  then obtain e where "nvim_cmd_validate env c opts = Inl e"
    using not_Inr_is_Inl by blast
  then show ?thesis by (auto dest: nvim_cmd_Inl)
qed

lemma convert_args_converted:
  "list_all converted_type items \<Longrightarrow> convert_args env items = Inr (map spec_arg_text items)"
proof (induction items)
  case Nil
  then show ?case by simp
next
  case (Cons x xs)
  from Cons.prems have x: "converted_type x" and xs: "list_all converted_type xs" by simp_all
  from x have "convert_arg env x = Inr (spec_arg_text x)"
    by (cases x) (simp_all add: converted_type_def convert_arg_def spec_arg_text_def)
  with Cons.IH [OF xs] show ?case by simp
qed

text \<open>
  C10.  For every \<^verbatim>\<open>args\<close> array given to \<^verbatim>\<open>nvim_cmd\<close>: a String made of whitespace
  characters only is rejected with a validation error, and so is an element that is
  not a Boolean, Integer, Buffer, Window, Tabpage or String (the call returns an error);
  the loop turns a Boolean into \<^verbatim>\<open>"1"\<close> or \<^verbatim>\<open>"0"\<close> and an Integer, Buffer, Window
  or Tabpage into the decimal numeral of its value (the numeral reads back as that
  value), so that an array of such elements always passes the loop and becomes the
  list of these strings, which the argument-count check then sees; and when the call
  validates, these strings are the arguments of the validated command.
\<close>

theorem C10_args_conversion:
  assumes "cmd_args c = ARRAY_OBJ items"
  shows "((\<exists>s. STRING_OBJ s \<in> set items \<and> list_all (ascii_iswhite env) s) \<longrightarrow>
            (\<exists>msg. convert_args env items = Inl (kErrorTypeValidation, msg))
            \<and> (\<exists>e. nvim_cmd env c opts = Inl e))
       \<and> ((\<exists>x \<in> set items. \<not> convertible_type x) \<longrightarrow>
            (\<exists>msg. convert_args env items = Inl (kErrorTypeValidation, msg))
            \<and> (\<exists>e. nvim_cmd env c opts = Inl e))
       \<and> (\<forall>v. nvim_cmd_validate env c opts = Inr v \<longrightarrow>
            length (v_args v) = length items
            \<and> (\<forall>i<length items.
                 (\<forall>b. items ! i = BOOLEAN_OBJ b \<longrightarrow> v_args v ! i = (if b then ''1'' else ''0''))
               \<and> (\<forall>n. items ! i \<in> {INTEGER_OBJ n, BUFFER_OBJ n, WINDOW_OBJ n, TABPAGE_OBJ n} \<longrightarrow>
                       v_args v ! i = PRId (sint n) \<and> int_of_dec (v_args v ! i) = sint n)))
       \<and> (\<forall>s. list_all (ascii_iswhite env) s \<longrightarrow>
            convert_arg env (STRING_OBJ s) = VALIDATION_ERROR
              ''String command argument must have at least one non-whitespace character'')
       \<and> (\<forall>x. \<not> convertible_type x \<longrightarrow>
            convert_arg env x = VALIDATION_ERROR ''Invalid type for command argument'')
       \<and> (\<forall>b. convert_arg env (BOOLEAN_OBJ b) = Inr (if b then ''1'' else ''0''))
       \<and> (\<forall>n. convert_arg env (INTEGER_OBJ n) = Inr (PRId (sint n))
              \<and> convert_arg env (BUFFER_OBJ n) = Inr (PRId (sint n))
              \<and> convert_arg env (WINDOW_OBJ n) = Inr (PRId (sint n))
              \<and> convert_arg env (TABPAGE_OBJ n) = Inr (PRId (sint n))
              \<and> int_of_dec (PRId (sint n)) = sint n)
       \<and> (list_all converted_type items \<longrightarrow>
            convert_args env items = Inr (map spec_arg_text items)
            \<and> (\<forall>ea. check_args env ea (cmd_args c)
                   = (if argc_valid (argt ea) (length items) then Inr (map spec_arg_text items)
                      else VALIDATION_ERROR ''Incorrect number of arguments supplied''))
            \<and> (\<forall>v. nvim_cmd_validate env c opts = Inr v \<longrightarrow>
                   v_args v = map spec_arg_text items))"
proof (intro conjI impI allI)
  assume "\<exists>s. STRING_OBJ s \<in> set items \<and> list_all (ascii_iswhite env) s"
  then obtain s where s: "STRING_OBJ s \<in> set items" and w: "list_all (ascii_iswhite env) s"
    by blast
  from w have "\<exists>e0. convert_arg env (STRING_OBJ s) = Inl e0"
    by (simp add: convert_arg_def VALIDATION_ERROR_def string_iswhite_all)
  with s obtain msg where r: "convert_args env items = Inl (kErrorTypeValidation, msg)"
    using convert_args_reject by blast
  then show "\<exists>msg. convert_args env items = Inl (kErrorTypeValidation, msg)" ..
  from r show "\<exists>e. nvim_cmd env c opts = Inl e"
    using rejected_args [OF assms] by blast
next
  assume "\<exists>x \<in> set items. \<not> convertible_type x"
  then obtain x where x: "x \<in> set items" and t: "\<not> convertible_type x" by blast
  from t have "\<exists>e0. convert_arg env x = Inl e0"
    by (cases x) (simp_all add: convert_arg_def convertible_type_def VALIDATION_ERROR_def)
  with x obtain msg where r: "convert_args env items = Inl (kErrorTypeValidation, msg)"
    using convert_args_reject by blast
  then show "\<exists>msg. convert_args env items = Inl (kErrorTypeValidation, msg)" ..
  from r show "\<exists>e. nvim_cmd env c opts = Inl e"
    using rejected_args [OF assms] by blast
next
  fix v assume v: "nvim_cmd_validate env c opts = Inr v"
  from validated_args [OF v assms] have conv: "convert_args env items = Inr (v_args v)" .
  from convert_args_nth [OF conv] show "length (v_args v) = length items" by simp
next
  fix v i b
  assume v: "nvim_cmd_validate env c opts = Inr v" and i: "i < length items"
    and b: "items ! i = BOOLEAN_OBJ b"
  from validated_args [OF v assms] have conv: "convert_args env items = Inr (v_args v)" .
  from convert_args_nth [OF conv] i have "convert_arg env (items ! i) = Inr (v_args v ! i)"
    by simp
  with b show "v_args v ! i = (if b then ''1'' else ''0'')"
    by (simp add: convert_arg_def)
next
  fix v i n
  assume v: "nvim_cmd_validate env c opts = Inr v" and i: "i < length items"
    and n: "items ! i \<in> {INTEGER_OBJ n, BUFFER_OBJ n, WINDOW_OBJ n, TABPAGE_OBJ n}"
  from validated_args [OF v assms] have conv: "convert_args env items = Inr (v_args v)" .
  from convert_args_nth [OF conv] i have "convert_arg env (items ! i) = Inr (v_args v ! i)"
    by simp
  with n have eq: "v_args v ! i = PRId (sint n)"
    by (auto simp: convert_arg_def)
  show "v_args v ! i = PRId (sint n)" by (rule eq)
  show "int_of_dec (v_args v ! i) = sint n" by (simp add: eq int_of_dec_PRId)
next
  fix s assume "list_all (ascii_iswhite env) s"
  then show "convert_arg env (STRING_OBJ s) = VALIDATION_ERROR
      ''String command argument must have at least one non-whitespace character''"
    by (simp add: convert_arg_def string_iswhite_all)
next
  fix x assume "\<not> convertible_type x"
  then show "convert_arg env x = VALIDATION_ERROR ''Invalid type for command argument''"
    by (cases x) (simp_all add: convert_arg_def convertible_type_def)
next
  fix b show "convert_arg env (BOOLEAN_OBJ b) = Inr (if b then ''1'' else ''0'')"
    by (simp add: convert_arg_def)
next
  fix n :: "64 word"
  show "convert_arg env (INTEGER_OBJ n) = Inr (PRId (sint n))" by (simp add: convert_arg_def)
  show "convert_arg env (BUFFER_OBJ n) = Inr (PRId (sint n))" by (simp add: convert_arg_def)
  show "convert_arg env (WINDOW_OBJ n) = Inr (PRId (sint n))" by (simp add: convert_arg_def)
  show "convert_arg env (TABPAGE_OBJ n) = Inr (PRId (sint n))" by (simp add: convert_arg_def)
  show "int_of_dec (PRId (sint n)) = sint n" by (rule int_of_dec_PRId)
next
  assume a: "list_all converted_type items"
  then show "convert_args env items = Inr (map spec_arg_text items)"
    by (rule convert_args_converted)
next
  fix ea assume a: "list_all converted_type items"
  from convert_args_converted [OF a, of env]
  show "check_args env ea (cmd_args c)
      = (if argc_valid (argt ea) (length items) then Inr (map spec_arg_text items)
         else VALIDATION_ERROR ''Incorrect number of arguments supplied'')"
    by (simp add: check_args_def assms HAS_KEY_def)
next
  fix v assume a: "list_all converted_type items" and v: "nvim_cmd_validate env c opts = Inr v"
  from validated_args [OF v assms] convert_args_converted [OF a, of env]
  show "v_args v = map spec_arg_text items" by simp
qed

theorem C10_args_conversion_witness:
  "STRING_OBJ ''  '' \<in> set [BOOLEAN_OBJ True, STRING_OBJ ''  '']
   \<and> list_all (ascii_iswhite sample_env) ''  ''
   \<and> (\<exists>e. nvim_cmd sample_env (args_cmd ''Many'' [BOOLEAN_OBJ True, STRING_OBJ ''  '']) no_opts
            = Inl e)
   \<and> \<not> convertible_type (FLOAT_OBJ 0)
   \<and> (\<exists>e. nvim_cmd sample_env (args_cmd ''Many'' [FLOAT_OBJ 0]) no_opts = Inl e)
   \<and> list_all converted_type
        [BOOLEAN_OBJ True, INTEGER_OBJ (- 42), BUFFER_OBJ 7, WINDOW_OBJ 1000, TABPAGE_OBJ 3,
         BOOLEAN_OBJ False]
   \<and> convert_args sample_env
        [BOOLEAN_OBJ True, INTEGER_OBJ (- 42), BUFFER_OBJ 7, WINDOW_OBJ 1000, TABPAGE_OBJ 3,
         BOOLEAN_OBJ False]
       = Inr [''1'', ''-42'', ''7'', ''1000'', ''3'', ''0'']
   \<and> map_sum id v_args
        (nvim_cmd_validate sample_env
           (args_cmd ''Many'' [BOOLEAN_OBJ True, INTEGER_OBJ (- 42), BUFFER_OBJ 7, WINDOW_OBJ 1000,
              TABPAGE_OBJ 3, BOOLEAN_OBJ False]) no_opts)
       = Inr [''1'', ''-42'', ''7'', ''1000'', ''3'', ''0'']
   \<and> map_sum id b_cmdline
        (nvim_cmd sample_env
           (args_cmd ''Many'' [BOOLEAN_OBJ True, INTEGER_OBJ (- 42), BUFFER_OBJ 7, WINDOW_OBJ 1000,
              TABPAGE_OBJ 3, BOOLEAN_OBJ False]) no_opts)
       = Inr ''Many 1 -42 7 1000 3 0''
   \<and> int_of_dec (v_args (projr (nvim_cmd_validate sample_env
           (args_cmd ''Many'' [BOOLEAN_OBJ True, INTEGER_OBJ (- 42), BUFFER_OBJ 7, WINDOW_OBJ 1000,
              TABPAGE_OBJ 3, BOOLEAN_OBJ False]) no_opts)) ! 1)
       = - 42"
proof -
  let ?bad1 = "[BOOLEAN_OBJ True, STRING_OBJ ''  '']"
  let ?bad2 = "[FLOAT_OBJ 0]"
  let ?good = "[BOOLEAN_OBJ True, INTEGER_OBJ (- 42), BUFFER_OBJ 7, WINDOW_OBJ 1000,
      TABPAGE_OBJ 3, BOOLEAN_OBJ False]"
  let ?r = "nvim_cmd_validate sample_env (args_cmd ''Many'' ?good) no_opts"
  have a1: "cmd_args (args_cmd ''Many'' ?bad1) = ARRAY_OBJ ?bad1"
    and a2: "cmd_args (args_cmd ''Many'' ?bad2) = ARRAY_OBJ ?bad2"
    and a3: "cmd_args (args_cmd ''Many'' ?good) = ARRAY_OBJ ?good"
    by (simp_all add: args_cmd_def)
  have w1: "STRING_OBJ ''  '' \<in> set ?bad1" by simp
  have w2: "list_all (ascii_iswhite sample_env) ''  ''" by (simp add: sample_env_def)
  have t: "\<not> convertible_type (FLOAT_OBJ 0)" by (simp add: convertible_type_def)
  have r1: "\<exists>e. nvim_cmd sample_env (args_cmd ''Many'' ?bad1) no_opts = Inl e"
    using C10_args_conversion [OF a1, of sample_env no_opts] w1 w2 by blast
  have r2: "\<exists>e. nvim_cmd sample_env (args_cmd ''Many'' ?bad2) no_opts = Inl e"
    using C10_args_conversion [OF a2, of sample_env no_opts] t by simp
  have g: "list_all converted_type ?good" by (simp add: converted_type_def)
  have texts: "map spec_arg_text ?good = [''1'', ''-42'', ''7'', ''1000'', ''3'', ''0'']"
    by code_simp
  note good = C10_args_conversion [OF a3, of sample_env no_opts, THEN conjunct2, THEN conjunct2,
      THEN conjunct2, THEN conjunct2, THEN conjunct2, THEN conjunct2, THEN conjunct2,
      rule_format, OF g]
  from good texts have r3: "convert_args sample_env ?good
      = Inr [''1'', ''-42'', ''7'', ''1000'', ''3'', ''0'']" by simp
  have ev: "map_sum id v_args ?r = Inr [''1'', ''-42'', ''7'', ''1000'', ''3'', ''0'']"
    by code_simp
  have line: "map_sum id b_cmdline (nvim_cmd sample_env (args_cmd ''Many'' ?good) no_opts)
      = Inr ''Many 1 -42 7 1000 3 0''"
    by code_simp
  from ev obtain v where v: "?r = Inr v" by (cases ?r) auto
  note validated = C10_args_conversion [OF a3, of sample_env no_opts, THEN conjunct2,
      THEN conjunct2, THEN conjunct1, rule_format, OF v, THEN conjunct2, rule_format, of 1,
      THEN conjunct2, rule_format, of "- 42"]
  have p1: "1 < length ?good" by simp
  have p2: "?good ! 1 \<in> {INTEGER_OBJ (- 42), BUFFER_OBJ (- 42), WINDOW_OBJ (- 42),
      TABPAGE_OBJ (- 42)}" by simp
  from validated [OF p1 p2] have "int_of_dec (v_args v ! 1) = sint (- 42 :: 64 word)"
    by (rule conjunct2)
  then have "int_of_dec (v_args v ! 1) = - 42" by simp
  with v have r4: "int_of_dec (v_args (projr ?r) ! 1) = - 42" by simp
  from w1 w2 r1 t r2 g r3 ev line r4 show ?thesis by blast
qed
section \<open>The argument count\<close>

lemma arity_flags_nargs:
  "uc_nargs_step l (arity_nargs a) = Inr (l \<lparr> l_argt := l_argt l \<union> arity_flags a \<rparr>)"
  by (cases a) (simp_all add: uc_nargs_step_def first_char_def)

lemma has_arity_argc_valid:
  "has_arity flags a \<Longrightarrow> argc_valid flags n = spec_arity_policy a n"
  by (cases a) (auto simp: has_arity_def argc_valid_def Let_def)

lemma has_arity_XFILE:
  "flags' - {EX_XFILE} = flags - {EX_XFILE} \<Longrightarrow> has_arity flags' a = has_arity flags a"
proof -
  assume eq: "flags' - {EX_XFILE} = flags - {EX_XFILE}"
  have "\<And>S. S \<inter> {EX_EXTRA, EX_NOSPC, EX_NEEDARG} = (S - {EX_XFILE}) \<inter> {EX_EXTRA, EX_NOSPC, EX_NEEDARG}"
    by auto
  then have "flags' \<inter> {EX_EXTRA, EX_NOSPC, EX_NEEDARG} = flags \<inter> {EX_EXTRA, EX_NOSPC, EX_NEEDARG}"
    using eq by metis
  then show ?thesis by (simp add: has_arity_def)
qed

text \<open>
  C5, as amended.  When the descriptor supplies an \<^verbatim>\<open>args\<close> array that converts, the
  check accepts it exactly when its length meets the arity policy of the contract
  (exactly one, at most one, at least one, any number, none), and otherwise fails with
  the fixed validation error \<^verbatim>\<open>Incorrect number of arguments supplied\<close>; so every
  validated command that supplied \<^verbatim>\<open>args\<close> meets the policy, and for arity none a
  non-empty array fails validation.  A descriptor without \<^verbatim>\<open>args\<close> is not checked.
\<close>

theorem C5_arity_policy:
  "(has_arity (argt ea) a \<and> convert_args env items = Inr args \<longrightarrow>
      check_args env ea (ARRAY_OBJ items) =
        (if spec_arity_policy a (length args) then Inr args
         else Inl (kErrorTypeValidation, ''Incorrect number of arguments supplied'')))
   \<and> (nvim_cmd_validate env c opts = Inr v \<and> HAS_KEY (cmd_args c)
        \<and> has_arity (argt (v_ea v)) a \<longrightarrow> spec_arity_policy a (length (v_args v)))
   \<and> (has_arity (argt ea) NoArgs \<and> items \<noteq> [] \<longrightarrow>
        (\<exists>msg. check_args env ea (ARRAY_OBJ items) = Inl (kErrorTypeValidation, msg)))
   \<and> check_args env ea NIL = Inr []"
proof (intro conjI impI)
  assume h: "has_arity (argt ea) a \<and> convert_args env items = Inr args"
  then have "argc_valid (argt ea) (length args) = spec_arity_policy a (length args)"
    by (simp add: has_arity_argc_valid [of "argt ea" a])
  with h show "check_args env ea (ARRAY_OBJ items) =
        (if spec_arity_policy a (length args) then Inr args
         else Inl (kErrorTypeValidation, ''Incorrect number of arguments supplied''))"
    by (simp add: check_args_def HAS_KEY_def VALIDATION_ERROR_def)
next
  assume h: "nvim_cmd_validate env c opts = Inr v \<and> HAS_KEY (cmd_args c)
        \<and> has_arity (argt (v_ea v)) a"
  then obtain ea0 where a: "check_args env ea0 (cmd_args c) = Inr (v_args v)"
    and fl: "argt (v_ea v) - {EX_XFILE} = argt ea0 - {EX_XFILE}"
    using validated_contract by blast
  from h fl have "has_arity (argt ea0) a" using has_arity_XFILE by blast
  then have "argc_valid (argt ea0) (length (v_args v)) = spec_arity_policy a (length (v_args v))"
    by (rule has_arity_argc_valid)
  moreover from a h have "argc_valid (argt ea0) (length (v_args v))"
    by (cases "cmd_args c")
      (auto simp: check_args_def HAS_KEY_def and_then_eq_Inr split: if_splits)
  ultimately show "spec_arity_policy a (length (v_args v))" by simp
next
  assume h: "has_arity (argt ea) NoArgs \<and> items \<noteq> []"
  show "\<exists>msg. check_args env ea (ARRAY_OBJ items) = Inl (kErrorTypeValidation, msg)"
  proof (cases "convert_args env items")
    case (Inl e)
    then have "fst e = kErrorTypeValidation" by (rule convert_args_error)
    with Inl show ?thesis by (cases e) (simp add: check_args_def HAS_KEY_def)
  next
    case (Inr args)
    with convert_args_nth [OF Inr] h have "length args \<noteq> 0" by simp
    with h have "\<not> argc_valid (argt ea) (length args)"
      by (simp add: has_arity_argc_valid [of "argt ea" NoArgs])
    with Inr show ?thesis
      by (simp add: check_args_def HAS_KEY_def VALIDATION_ERROR_def)
  qed
next
  show "check_args env ea NIL = Inr []"
    by (simp add: check_args_def HAS_KEY_def)
qed

theorem C5_arity_policy_witness:
  "has_arity (argt (exarg_clear \<lparr> argt := {EX_EXTRA, EX_NOSPC} \<rparr>)) ZeroOrOne
   \<and> convert_args sample_env [STRING_OBJ ''a'', STRING_OBJ ''b''] = Inr [''a'', ''b'']
   \<and> check_args sample_env (exarg_clear \<lparr> argt := {EX_EXTRA, EX_NOSPC} \<rparr>)
        (ARRAY_OBJ [STRING_OBJ ''a'', STRING_OBJ ''b''])
       = Inl (kErrorTypeValidation, ''Incorrect number of arguments supplied'')
   \<and> HAS_KEY (cmd_args (args_cmd ''One'' [STRING_OBJ ''a'']))
   \<and> nvim_cmd_validate sample_env (args_cmd ''One'' [STRING_OBJ ''a'']) no_opts
       = Inr (projr (nvim_cmd_validate sample_env (args_cmd ''One'' [STRING_OBJ ''a'']) no_opts))
   \<and> has_arity (argt (v_ea (projr
         (nvim_cmd_validate sample_env (args_cmd ''One'' [STRING_OBJ ''a'']) no_opts)))) ExactlyOne
   \<and> spec_arity_policy ExactlyOne (length (v_args (projr
         (nvim_cmd_validate sample_env (args_cmd ''One'' [STRING_OBJ ''a'']) no_opts))))
   \<and> has_arity (argt exarg_clear) NoArgs
   \<and> (\<exists>msg. check_args sample_env exarg_clear (ARRAY_OBJ [BOOLEAN_OBJ True])
               = Inl (kErrorTypeValidation, msg))
   \<and> check_args sample_env exarg_clear NIL = Inr []"
proof -
  let ?ea = "exarg_clear \<lparr> argt := {EX_EXTRA, EX_NOSPC} \<rparr>"
  let ?items = "[STRING_OBJ ''a'', STRING_OBJ ''b'']"
  let ?c = "args_cmd ''One'' [STRING_OBJ ''a'']"
  let ?r = "nvim_cmd_validate sample_env ?c no_opts"
  note thm1 = C5_arity_policy [of ?ea ZeroOrOne sample_env ?items "[''a'', ''b'']"
      ?c no_opts "projr ?r"]
  note thm2 = C5_arity_policy [of exarg_clear ExactlyOne sample_env "[BOOLEAN_OBJ True]" "[]"
      ?c no_opts "projr ?r"]
  have h1: "has_arity (argt ?ea) ZeroOrOne" by (simp add: has_arity_def)
  have h2: "convert_args sample_env ?items = Inr [''a'', ''b'']" by code_simp
  from thm1 h1 h2
  have r1: "check_args sample_env ?ea (ARRAY_OBJ ?items)
      = Inl (kErrorTypeValidation, ''Incorrect number of arguments supplied'')" by simp
  have h3: "HAS_KEY (cmd_args ?c)" by (simp add: args_cmd_def HAS_KEY_def)
  have "\<not> isl ?r" by code_simp
  then have h4: "?r = Inr (projr ?r)" by simp
  have h5: "has_arity (argt (v_ea (projr ?r))) ExactlyOne"
    unfolding has_arity_def by code_simp
  from thm2 h3 h4 h5
  have r2: "spec_arity_policy ExactlyOne (length (v_args (projr ?r)))" by blast
  have h6: "has_arity (argt exarg_clear) NoArgs" by (simp add: has_arity_def exarg_clear_def)
  from thm2 h6
  have r3: "\<exists>msg. check_args sample_env exarg_clear (ARRAY_OBJ [BOOLEAN_OBJ True])
      = Inl (kErrorTypeValidation, msg)" by simp
  from thm2 have r4: "check_args sample_env exarg_clear NIL = Inr []" by blast
  from h1 h2 r1 h3 h4 h5 r2 h6 r3 r4 show ?thesis by blast
qed

text \<open>
  The claim as stated fails on the code.  \<^verbatim>\<open>One\<close> takes exactly one argument, yet a
  descriptor without an \<^verbatim>\<open>args\<close> key validates with no argument at all (the check
  of lines 438-461 stands inside \<^verbatim>\<open>if (HAS_KEY(cmd->args))\<close>); and the error for a
  wrong count is one fixed text, the same for a command that takes none and for a
  command that takes one: it does not name the expected arity.
\<close>

theorem C5_counterexample:
  "map_sum id (argt \<circ> v_ea) (nvim_cmd_validate sample_env (cmd_only ''One'') no_opts)
     = Inr (arity_flags ExactlyOne)
   \<and> map_sum id v_args (nvim_cmd_validate sample_env (cmd_only ''One'') no_opts) = Inr []
   \<and> nvim_cmd_validate sample_env (args_cmd ''Zero'' [STRING_OBJ ''x'']) no_opts
       = Inl (kErrorTypeValidation, ''Incorrect number of arguments supplied'')
   \<and> nvim_cmd_validate sample_env (args_cmd ''One'' [STRING_OBJ ''x'', STRING_OBJ ''y'']) no_opts
       = Inl (kErrorTypeValidation, ''Incorrect number of arguments supplied'')"
  by code_simp

section \<open>The default range\<close>

lemma check_range_absent:
  assumes "r = NIL \<or> r = ARRAY_OBJ []" and "check_range env ea r = Inr ea'"
    and "addr_count ea = 0"
  shows "addr_count ea' = 0"
  using assms by (auto simp: check_range_def HAS_KEY_def Let_def split: if_splits)

lemma check_count_absent: "check_count env ea NIL = Inr ea"
  by (simp add: check_count_def HAS_KEY_def)

lemma default_range_other:
  assumes "addr_count ea = 0" and "EX_DFLALL \<notin> argt ea" and "addr_type ea = ADDR_OTHER"
  shows "line2 (default_range env ea) = 1"
    and "line1 (default_range env ea) = get_cmd_default_range env ea"
  using assms by (simp_all add: default_range_def Let_def)

text \<open>
  C1, as amended.  For a command whose resolved address kind is \<^verbatim>\<open>ADDR_OTHER\<close>, when
  no range is given and the contract does not have \<^verbatim>\<open>EX_DFLALL\<close>, the default range
  has \<^verbatim>\<open>line2 = 1\<close> (the source: "Default is 1, not cursor"), \<^verbatim>\<open>line1\<close> being the
  default position; a validated command that gave neither range nor count ends with
  \<^verbatim>\<open>line2 = 1\<close>.
\<close>

theorem C1_default_range_other:
  "(addr_count ea = 0 \<and> EX_DFLALL \<notin> argt ea \<and> addr_type ea = ADDR_OTHER \<longrightarrow>
      line2 (default_range env ea) = 1
      \<and> line1 (default_range env ea) = get_cmd_default_range env ea)
   \<and> (nvim_cmd_validate env c opts = Inr v \<and> addr_type (v_ea v) = ADDR_OTHER
        \<and> EX_DFLALL \<notin> argt (v_ea v) \<and> (cmd_range c = NIL \<or> cmd_range c = ARRAY_OBJ [])
        \<and> cmd_count c = NIL \<longrightarrow> line2 (v_ea v) = 1)"
proof (intro conjI impI)
  assume h: "addr_count ea = 0 \<and> EX_DFLALL \<notin> argt ea \<and> addr_type ea = ADDR_OTHER"
  then show "line2 (default_range env ea) = 1"
    by (simp add: default_range_other)
  from h show "line1 (default_range env ea) = get_cmd_default_range env ea"
    by (simp add: default_range_other)
next
  assume h: "nvim_cmd_validate env c opts = Inr v \<and> addr_type (v_ea v) = ADDR_OTHER
        \<and> EX_DFLALL \<notin> argt (v_ea v) \<and> (cmd_range c = NIL \<or> cmd_range c = ARRAY_OBJ [])
        \<and> cmd_count c = NIL"
  then have v: "nvim_cmd_validate env c opts = Inr v" by simp
  from nvim_cmd_validate_stages [OF v] obtain cmdname ea0 ea1 ea2 ea3 ea4 cmdinfo where
    f: "find_command env cmdname = Inr ea0" and
    r: "check_range env (resolve_addr_type env ea0 (v_args v)) (cmd_range c) = Inr ea1" and
    k: "check_count env (default_range env ea1) (cmd_count c) = Inr ea2" and
    g: "check_reg env ea2 (cmd_reg c) = Inr ea3" and
    b: "check_bang env ea3 (cmd_bang c) = Inr ea4" and
    m: "check_magic env ea4 cmdinfo_clear (cmd_magic c) = Inr (v_ea v, cmdinfo)"
    by blast
  from k h have ea2: "ea2 = default_range env ea1" by (simp add: check_count_absent)
  have later: "line2 (v_ea v) = line2 ea2" "addr_type (v_ea v) = addr_type ea2"
    "argt (v_ea v) - {EX_XFILE} = argt ea2 - {EX_XFILE}"
    using check_reg_frame [OF g] check_bang_frame [OF b] check_magic_frame [OF m] by simp_all
  have cnt: "addr_count ea1 = 0"
    using check_range_absent [OF _ r] h find_command_clear [OF f]
    by (simp add: resolve_addr_type_frame)
  have ty: "addr_type ea1 = ADDR_OTHER"
    using later h ea2 by (simp add: default_range_frame)
  have "EX_DFLALL \<notin> argt ea2" using later(3) h by blast
  then have fl: "EX_DFLALL \<notin> argt ea1" using ea2 by (simp add: default_range_frame)
  from cnt fl ty have "line2 (default_range env ea1) = 1" by (rule default_range_other)
  with later ea2 show "line2 (v_ea v) = 1" by simp
qed

theorem C1_default_range_other_witness:
  "addr_count (exarg_clear \<lparr> addr_type := ADDR_OTHER \<rparr>) = 0
   \<and> EX_DFLALL \<notin> argt (exarg_clear \<lparr> addr_type := ADDR_OTHER \<rparr>)
   \<and> addr_type (exarg_clear \<lparr> addr_type := ADDR_OTHER \<rparr>) = ADDR_OTHER
   \<and> line2 (default_range sample_env (exarg_clear \<lparr> addr_type := ADDR_OTHER \<rparr>)) = 1
   \<and> line1 (default_range sample_env (exarg_clear \<lparr> addr_type := ADDR_OTHER \<rparr>)) = 5
   \<and> nvim_cmd_validate sample_env (cmd_only ''Count'') no_opts
       = Inr (projr (nvim_cmd_validate sample_env (cmd_only ''Count'') no_opts))
   \<and> addr_type (v_ea (projr (nvim_cmd_validate sample_env (cmd_only ''Count'') no_opts)))
       = ADDR_OTHER
   \<and> EX_DFLALL \<notin> argt (v_ea (projr (nvim_cmd_validate sample_env (cmd_only ''Count'') no_opts)))
   \<and> cmd_range (cmd_only ''Count'') = NIL
   \<and> cmd_count (cmd_only ''Count'') = NIL
   \<and> line2 (v_ea (projr (nvim_cmd_validate sample_env (cmd_only ''Count'') no_opts))) = 1"
proof -
  let ?ea = "exarg_clear \<lparr> addr_type := ADDR_OTHER \<rparr>"
  let ?r = "nvim_cmd_validate sample_env (cmd_only ''Count'') no_opts"
  note inst = C1_default_range_other [of ?ea sample_env "cmd_only ''Count''" no_opts "projr ?r"]
  have h1: "addr_count ?ea = 0" "EX_DFLALL \<notin> argt ?ea" "addr_type ?ea = ADDR_OTHER"
    by (simp_all add: exarg_clear_def)
  from inst h1 have r1: "line2 (default_range sample_env ?ea) = 1"
    and r1': "line1 (default_range sample_env ?ea) = get_cmd_default_range sample_env ?ea"
    by blast+
  have d: "get_cmd_default_range sample_env ?ea = 5" by (simp add: sample_env_def)
  have "\<not> isl ?r" by code_simp
  then have h2: "?r = Inr (projr ?r)" by simp
  have h3: "addr_type (v_ea (projr ?r)) = ADDR_OTHER" by code_simp
  have h4: "EX_DFLALL \<notin> argt (v_ea (projr ?r))" by code_simp
  have h5: "cmd_range (cmd_only ''Count'') = NIL" "cmd_count (cmd_only ''Count'') = NIL"
    by (simp_all add: cmd_only_def)
  from inst h2 h3 h4 h5 have r2: "line2 (v_ea (projr ?r)) = 1" by blast
  from h1 r1 r1' d h2 h3 h4 h5 r2 show ?thesis by simp
qed

text \<open>
  The claim as stated fails on the code: \<^verbatim>\<open>Count\<close> has address kind \<^verbatim>\<open>ADDR_OTHER\<close>
  and no \<^verbatim>\<open>EX_DFLALL\<close>; called without a range, it validates with \<^verbatim>\<open>line2 = 1\<close>, not 2.
\<close>

theorem C1_counterexample:
  "map_sum id (addr_type \<circ> v_ea) (nvim_cmd_validate sample_env (cmd_only ''Count'') no_opts)
     = Inr ADDR_OTHER
   \<and> map_sum id (argt \<circ> v_ea) (nvim_cmd_validate sample_env (cmd_only ''Count'') no_opts)
     = Inr {EX_COUNT, EX_ZEROR, EX_RANGE}
   \<and> cmd_range (cmd_only ''Count'') = NIL
   \<and> map_sum id (line2 \<circ> v_ea) (nvim_cmd_validate sample_env (cmd_only ''Count'') no_opts)
     = Inr 1
   \<and> map_sum id (line2 \<circ> v_ea) (nvim_cmd_validate sample_env (cmd_only ''Count'') no_opts)
     \<noteq> Inr 2"
  by code_simp

section \<open>Range and count together\<close>

lemma check_range_needs_flag:
  "HAS_KEY r \<Longrightarrow> check_range env ea r = Inr ea' \<Longrightarrow> EX_RANGE \<in> argt ea"
  by (auto simp: check_range_def split: if_splits)

lemma check_count_needs_flag:
  "HAS_KEY r \<Longrightarrow> check_count env ea r = Inr ea' \<Longrightarrow> EX_COUNT \<in> argt ea"
  by (auto simp: check_count_def split: if_splits)

text \<open>Whether the count passes depends on the flags of the command and on the count only.\<close>

lemma check_count_succeeds:
  "(\<exists>ea'. check_count env ea k = Inr ea')
     \<longleftrightarrow> (HAS_KEY k \<longrightarrow> EX_COUNT \<in> argt ea \<and> nonneg_integer k)"
  by (auto simp: check_count_def split: prod.splits)

lemma check_count_lines:
  assumes "HAS_KEY k" and "check_count env ea k = Inr ea'"
  shows "(line1 ea', line2 ea', addr_count ea')
           = set_cmd_count env ea (to_linenr (data_integer k)) True"
  using assms by (auto simp: check_count_def split: if_splits prod.splits)

text \<open>
  The steps after the count read the flags and the index of the command, not its
  lines: they pass for one \<^verbatim>\<open>exarg_T\<close> exactly when they pass for another with the
  same flags and index.
\<close>

lemma check_reg_contract:
  assumes "argt ea' = argt ea" and "cmdidx ea' = cmdidx ea" and "check_reg env ea r = Inr ea3"
  shows "\<exists>ea3'. check_reg env ea' r = Inr ea3' \<and> argt ea3' = argt ea3
           \<and> cmdidx ea3' = cmdidx ea3"
  using assms by (cases r) (auto simp: check_reg_def HAS_KEY_def Let_def split: if_splits)

lemma check_bang_contract:
  assumes "argt ea' = argt ea" and "cmdidx ea' = cmdidx ea" and "check_bang env ea b = Inr ea4"
  shows "\<exists>ea4'. check_bang env ea' b = Inr ea4' \<and> argt ea4' = argt ea4
           \<and> cmdidx ea4' = cmdidx ea4"
  using assms by (auto simp: check_bang_def and_then_eq_Inr split: if_splits)

lemma check_magic_flags:
  "argt ea' = argt ea \<Longrightarrow>
     check_magic env ea' ci m
       = map_sum id (\<lambda>(e, ci'). (ea' \<lparr> argt := argt e \<rparr>, ci')) (check_magic env ea ci m)"
  by (cases m)
    (auto simp: check_magic_def HAS_KEY_def and_then_def VALIDATION_ERROR_def split: sum.splits)

lemma check_magic_contract:
  assumes "argt ea' = argt ea" and "cmdidx ea' = cmdidx ea"
    and "check_magic env ea ci m = Inr (ea5, ci5)"
  shows "\<exists>ea5'. check_magic env ea' ci m = Inr (ea5', ci5) \<and> argt ea5' = argt ea5
           \<and> cmdidx ea5' = cmdidx ea5"
proof -
  from check_magic_frame [OF assms(3)] have "cmdidx ea5 = cmdidx ea" by simp
  with assms(2,3) check_magic_flags [OF assms(1), of env ci m] show ?thesis by simp
qed

lemma apply_mods_contract:
  "argt ea' = argt ea \<Longrightarrow> apply_mods env ea' cm mods = apply_mods env ea cm mods"
  by (simp add: apply_mods_def mods_flags_step_def)

lemma check_mods_contract:
  "argt ea' = argt ea \<Longrightarrow> check_mods env ea' ci m = check_mods env ea ci m"
  by (cases m) (simp_all add: check_mods_def apply_mods_contract [of ea' ea])

lemma later_checks_contract:
  assumes a: "argt ea' = argt ea" and i: "cmdidx ea' = cmdidx ea"
    and g: "check_reg env ea (cmd_reg c) = Inr ea3"
    and b: "check_bang env ea3 (cmd_bang c) = Inr ea4"
    and m: "check_magic env ea4 cmdinfo_clear (cmd_magic c) = Inr (ea5, ci5)"
    and d: "check_mods env ea5 ci5 (cmd_mods c) = Inr ci6"
  shows "\<exists>ea3' ea4' ea5'. check_reg env ea' (cmd_reg c) = Inr ea3'
           \<and> check_bang env ea3' (cmd_bang c) = Inr ea4'
           \<and> check_magic env ea4' cmdinfo_clear (cmd_magic c) = Inr (ea5', ci5)
           \<and> check_mods env ea5' ci5 (cmd_mods c) = Inr ci6"
proof -
  from check_reg_contract [OF a i g] obtain ea3' where
    g': "check_reg env ea' (cmd_reg c) = Inr ea3'" and a3: "argt ea3' = argt ea3"
    and i3: "cmdidx ea3' = cmdidx ea3" by blast
  from check_bang_contract [OF a3 i3 b] obtain ea4' where
    b': "check_bang env ea3' (cmd_bang c) = Inr ea4'" and a4: "argt ea4' = argt ea4"
    and i4: "cmdidx ea4' = cmdidx ea4" by blast
  from check_magic_contract [OF a4 i4 m] obtain ea5' where
    m': "check_magic env ea4' cmdinfo_clear (cmd_magic c) = Inr (ea5', ci5)"
    and a5: "argt ea5' = argt ea5" by blast
  from d check_mods_contract [OF a5, of env ci5 "cmd_mods c"]
  have d': "check_mods env ea5' ci5 (cmd_mods c) = Inr ci6" by simp
  from g' b' m' d' show ?thesis by blast
qed

text \<open>The converse of \<open>nvim_cmd_validate_stages\<close>: steps that pass make a validation.\<close>

lemma nvim_cmd_validate_passes:
  assumes "api_object_to_bool env (opts_output opts) (quoted ''output'') False = Inr out"
    and "check_cmd_name (cmd_cmd c) = Inr cmdname"
    and "find_command env cmdname = Inr ea0"
    and "check_args env ea0 (cmd_args c) = Inr args"
    and "check_range env (resolve_addr_type env ea0 args) (cmd_range c) = Inr ea1"
    and "check_count env (default_range env ea1) (cmd_count c) = Inr ea2"
    and "check_reg env ea2 (cmd_reg c) = Inr ea3"
    and "check_bang env ea3 (cmd_bang c) = Inr ea4"
    and "check_magic env ea4 cmdinfo_clear (cmd_magic c) = Inr (ea5, ci5)"
    and "check_mods env ea5 ci5 (cmd_mods c) = Inr ci6"
  shows "\<exists>v. nvim_cmd_validate env c opts = Inr v"
  using assms by (simp add: nvim_cmd_validate_def)

lemma check_range_NIL: "check_range env ea NIL = Inr ea"
  by (simp add: check_range_def HAS_KEY_def)

text \<open>A descriptor validates exactly when it does without its count and without its range.\<close>

lemma validate_without_count:
  assumes "nvim_cmd_validate env c opts = Inr v"
  shows "\<exists>v'. nvim_cmd_validate env (c \<lparr> cmd_count := NIL \<rparr>) opts = Inr v'"
proof -
  from nvim_cmd_validate_stages [OF assms] obtain cmdname ea0 ea1 ea2 ea3 ea4 cmdinfo where
    o: "api_object_to_bool env (opts_output opts) (quoted ''output'') False = Inr (v_output v)" and
    n: "check_cmd_name (cmd_cmd c) = Inr cmdname" and
    f: "find_command env cmdname = Inr ea0" and
    a: "check_args env ea0 (cmd_args c) = Inr (v_args v)" and
    r: "check_range env (resolve_addr_type env ea0 (v_args v)) (cmd_range c) = Inr ea1" and
    k: "check_count env (default_range env ea1) (cmd_count c) = Inr ea2" and
    g: "check_reg env ea2 (cmd_reg c) = Inr ea3" and
    b: "check_bang env ea3 (cmd_bang c) = Inr ea4" and
    m: "check_magic env ea4 cmdinfo_clear (cmd_magic c) = Inr (v_ea v, cmdinfo)" and
    d: "check_mods env (v_ea v) cmdinfo (cmd_mods c) = Inr (v_cmdinfo v)"
    by blast
  let ?c = "c \<lparr> cmd_count := NIL \<rparr>"
  from check_count_frame [OF k]
  have same: "argt (default_range env ea1) = argt ea2" "cmdidx (default_range env ea1) = cmdidx ea2"
    by simp_all
  from later_checks_contract [OF same g b m d] obtain ea3' ea4' ea5' where
    "check_reg env (default_range env ea1) (cmd_reg ?c) = Inr ea3'"
    "check_bang env ea3' (cmd_bang ?c) = Inr ea4'"
    "check_magic env ea4' cmdinfo_clear (cmd_magic ?c) = Inr (ea5', cmdinfo)"
    "check_mods env ea5' cmdinfo (cmd_mods ?c) = Inr (v_cmdinfo v)"
    by auto
  moreover have "check_count env (default_range env ea1) (cmd_count ?c) = Inr (default_range env ea1)"
    by (simp add: check_count_absent)
  moreover from n f a r have "check_cmd_name (cmd_cmd ?c) = Inr cmdname"
    "check_args env ea0 (cmd_args ?c) = Inr (v_args v)"
    "check_range env (resolve_addr_type env ea0 (v_args v)) (cmd_range ?c) = Inr ea1"
    by simp_all
  ultimately show ?thesis using o f by (blast intro: nvim_cmd_validate_passes)
qed

lemma validate_without_range:
  assumes "nvim_cmd_validate env c opts = Inr v"
  shows "\<exists>v'. nvim_cmd_validate env (c \<lparr> cmd_range := NIL \<rparr>) opts = Inr v'"
proof -
  from nvim_cmd_validate_stages [OF assms] obtain cmdname ea0 ea1 ea2 ea3 ea4 cmdinfo where
    o: "api_object_to_bool env (opts_output opts) (quoted ''output'') False = Inr (v_output v)" and
    n: "check_cmd_name (cmd_cmd c) = Inr cmdname" and
    f: "find_command env cmdname = Inr ea0" and
    a: "check_args env ea0 (cmd_args c) = Inr (v_args v)" and
    r: "check_range env (resolve_addr_type env ea0 (v_args v)) (cmd_range c) = Inr ea1" and
    k: "check_count env (default_range env ea1) (cmd_count c) = Inr ea2" and
    g: "check_reg env ea2 (cmd_reg c) = Inr ea3" and
    b: "check_bang env ea3 (cmd_bang c) = Inr ea4" and
    m: "check_magic env ea4 cmdinfo_clear (cmd_magic c) = Inr (v_ea v, cmdinfo)" and
    d: "check_mods env (v_ea v) cmdinfo (cmd_mods c) = Inr (v_cmdinfo v)"
    by blast
  let ?c = "c \<lparr> cmd_range := NIL \<rparr>"
  let ?ea = "resolve_addr_type env ea0 (v_args v)"
  from check_range_frame [OF r] have a1: "argt ea1 = argt ?ea" "cmdidx ea1 = cmdidx ?ea"
    by simp_all
  from k have "HAS_KEY (cmd_count c) \<longrightarrow> EX_COUNT \<in> argt ea1 \<and> nonneg_integer (cmd_count c)"
    using check_count_succeeds [of env "default_range env ea1" "cmd_count c"]
    by (simp add: default_range_frame)
  with a1 have "\<exists>ea2'. check_count env (default_range env ?ea) (cmd_count c) = Inr ea2'"
    using check_count_succeeds [of env "default_range env ?ea" "cmd_count c"]
    by (simp add: default_range_frame)
  then obtain ea2' where k': "check_count env (default_range env ?ea) (cmd_count c) = Inr ea2'" ..
  from check_count_frame [OF k] check_count_frame [OF k'] a1
  have same: "argt ea2' = argt ea2" "cmdidx ea2' = cmdidx ea2"
    by (simp_all add: default_range_frame)
  from later_checks_contract [OF same g b m d] obtain ea3' ea4' ea5' where
    "check_reg env ea2' (cmd_reg ?c) = Inr ea3'"
    "check_bang env ea3' (cmd_bang ?c) = Inr ea4'"
    "check_magic env ea4' cmdinfo_clear (cmd_magic ?c) = Inr (ea5', cmdinfo)"
    "check_mods env ea5' cmdinfo (cmd_mods ?c) = Inr (v_cmdinfo v)"
    by auto
  moreover have "check_range env ?ea (cmd_range ?c) = Inr ?ea"
    by (simp add: check_range_NIL)
  moreover from n f a k' have "check_cmd_name (cmd_cmd ?c) = Inr cmdname"
    "check_args env ea0 (cmd_args ?c) = Inr (v_args v)"
    "check_count env (default_range env ?ea) (cmd_count ?c) = Inr ea2'"
    by simp_all
  ultimately show ?thesis using o f by (blast intro: nvim_cmd_validate_passes)
qed

lemma validate_with_both:
  assumes vr: "nvim_cmd_validate env (c \<lparr> cmd_count := NIL \<rparr>) opts = Inr vr"
    and vk: "nvim_cmd_validate env (c \<lparr> cmd_range := NIL \<rparr>) opts = Inr vk"
  shows "\<exists>v. nvim_cmd_validate env c opts = Inr v"
proof -
  from nvim_cmd_validate_stages [OF vr] obtain cmdname ea0 ea1 ea2 ea3 ea4 cmdinfo where
    o: "api_object_to_bool env (opts_output opts) (quoted ''output'') False = Inr (v_output vr)" and
    n: "check_cmd_name (cmd_cmd c) = Inr cmdname" and
    f: "find_command env cmdname = Inr ea0" and
    a: "check_args env ea0 (cmd_args c) = Inr (v_args vr)" and
    r: "check_range env (resolve_addr_type env ea0 (v_args vr)) (cmd_range c) = Inr ea1" and
    k: "check_count env (default_range env ea1) NIL = Inr ea2" and
    g: "check_reg env ea2 (cmd_reg c) = Inr ea3" and
    b: "check_bang env ea3 (cmd_bang c) = Inr ea4" and
    m: "check_magic env ea4 cmdinfo_clear (cmd_magic c) = Inr (v_ea vr, cmdinfo)" and
    d: "check_mods env (v_ea vr) cmdinfo (cmd_mods c) = Inr (v_cmdinfo vr)"
    by auto
  from nvim_cmd_validate_stages [OF vk] obtain cmdname' eb0 eb1 eb2 where
    n': "check_cmd_name (cmd_cmd c) = Inr cmdname'" and
    f': "find_command env cmdname' = Inr eb0" and
    a': "check_args env eb0 (cmd_args c) = Inr (v_args vk)" and
    r': "check_range env (resolve_addr_type env eb0 (v_args vk)) NIL = Inr eb1" and
    k': "check_count env (default_range env eb1) (cmd_count c) = Inr eb2"
    by auto
  from n n' f f' have eb0: "eb0 = ea0" by simp
  from r' have "argt eb1 = argt ea0"
    by (auto simp: check_range_NIL eb0 resolve_addr_type_frame)
  with k' have "HAS_KEY (cmd_count c) \<longrightarrow> EX_COUNT \<in> argt ea0 \<and> nonneg_integer (cmd_count c)"
    using check_count_succeeds [of env "default_range env eb1" "cmd_count c"]
    by (simp add: default_range_frame)
  moreover from check_range_frame [OF r] have a1: "argt ea1 = argt ea0" "cmdidx ea1 = cmdidx ea0"
    by (simp_all add: resolve_addr_type_frame)
  ultimately have "\<exists>ea2'. check_count env (default_range env ea1) (cmd_count c) = Inr ea2'"
    using check_count_succeeds [of env "default_range env ea1" "cmd_count c"]
    by (simp add: default_range_frame)
  then obtain ea2' where kk: "check_count env (default_range env ea1) (cmd_count c) = Inr ea2'" ..
  from check_count_frame [OF k] check_count_frame [OF kk]
  have same: "argt ea2' = argt ea2" "cmdidx ea2' = cmdidx ea2" by simp_all
  from later_checks_contract [OF same g b m d] obtain ea3' ea4' ea5' where
    "check_reg env ea2' (cmd_reg c) = Inr ea3'"
    "check_bang env ea3' (cmd_bang c) = Inr ea4'"
    "check_magic env ea4' cmdinfo_clear (cmd_magic c) = Inr (ea5', cmdinfo)"
    "check_mods env ea5' cmdinfo (cmd_mods c) = Inr (v_cmdinfo vr)"
    by auto
  with o n f a r kk show ?thesis by (blast intro: nvim_cmd_validate_passes)
qed

lemma validated_lines:
  assumes "nvim_cmd_validate env c opts = Inr v"
  shows "\<exists>cmdname ea0 ea1 ea2.
           check_cmd_name (cmd_cmd c) = Inr cmdname
         \<and> find_command env cmdname = Inr ea0
         \<and> check_range env (resolve_addr_type env ea0 (v_args v)) (cmd_range c) = Inr ea1
         \<and> check_count env (default_range env ea1) (cmd_count c) = Inr ea2
         \<and> line1 (v_ea v) = line1 ea2 \<and> line2 (v_ea v) = line2 ea2
         \<and> addr_count (v_ea v) = addr_count ea2"
proof -
  from nvim_cmd_validate_stages [OF assms] obtain cmdname ea0 ea1 ea2 ea3 ea4 cmdinfo where
    n: "check_cmd_name (cmd_cmd c) = Inr cmdname" and
    f: "find_command env cmdname = Inr ea0" and
    r: "check_range env (resolve_addr_type env ea0 (v_args v)) (cmd_range c) = Inr ea1" and
    k: "check_count env (default_range env ea1) (cmd_count c) = Inr ea2" and
    g: "check_reg env ea2 (cmd_reg c) = Inr ea3" and
    b: "check_bang env ea3 (cmd_bang c) = Inr ea4" and
    m: "check_magic env ea4 cmdinfo_clear (cmd_magic c) = Inr (v_ea v, cmdinfo)"
    by blast
  from check_reg_frame [OF g] check_bang_frame [OF b] check_magic_frame [OF m]
  have "line1 (v_ea v) = line1 ea2 \<and> line2 (v_ea v) = line2 ea2
      \<and> addr_count (v_ea v) = addr_count ea2" by simp
  with n f r k show ?thesis by blast
qed

text \<open>
  C3.  \<^verbatim>\<open>nvim_cmd\<close> has no check of the combination of \<^verbatim>\<open>range\<close> and \<^verbatim>\<open>count\<close>: each
  key is checked against its own flag of the command.  So a descriptor that supplies
  both validates exactly when it validates with the range alone and with the count
  alone; a failed validation is what \<^verbatim>\<open>nvim_cmd\<close> returns, so that
  \<^verbatim>\<open>build_cmdline_str\<close> is not reached; it fails in particular whenever the command
  lacks \<^verbatim>\<open>EX_RANGE\<close> or \<^verbatim>\<open>EX_COUNT\<close>; and when it validates, the command has both
  flags and the lines of the validated command are those \<^verbatim>\<open>set_cmd_count\<close> computes
  from the count, on top of the range.
\<close>

theorem C3_range_and_count:
  assumes "HAS_KEY (cmd_range c)" and "HAS_KEY (cmd_count c)"
  shows "((\<exists>v. nvim_cmd_validate env c opts = Inr v) \<longleftrightarrow>
            (\<exists>v. nvim_cmd_validate env (c \<lparr> cmd_count := NIL \<rparr>) opts = Inr v)
          \<and> (\<exists>v. nvim_cmd_validate env (c \<lparr> cmd_range := NIL \<rparr>) opts = Inr v))
       \<and> (\<forall>e. nvim_cmd_validate env c opts = Inl e \<longrightarrow> nvim_cmd env c opts = Inl e)
       \<and> (\<forall>cmdname ea0. check_cmd_name (cmd_cmd c) = Inr cmdname
              \<and> find_command env cmdname = Inr ea0
              \<and> (EX_RANGE \<notin> argt ea0 \<or> EX_COUNT \<notin> argt ea0) \<longrightarrow>
            (\<exists>e. nvim_cmd_validate env c opts = Inl e \<and> nvim_cmd env c opts = Inl e))
       \<and> (\<forall>v. nvim_cmd_validate env c opts = Inr v \<longrightarrow>
            (\<exists>cmdname ea0 ea1.
                check_cmd_name (cmd_cmd c) = Inr cmdname
              \<and> find_command env cmdname = Inr ea0
              \<and> EX_RANGE \<in> argt ea0 \<and> EX_COUNT \<in> argt ea0
              \<and> check_range env (resolve_addr_type env ea0 (v_args v)) (cmd_range c) = Inr ea1
              \<and> (line1 (v_ea v), line2 (v_ea v), addr_count (v_ea v))
                  = set_cmd_count env (default_range env ea1)
                      (to_linenr (data_integer (cmd_count c))) True))"
proof (intro conjI allI impI)
  show "(\<exists>v. nvim_cmd_validate env c opts = Inr v) \<longleftrightarrow>
            (\<exists>v. nvim_cmd_validate env (c \<lparr> cmd_count := NIL \<rparr>) opts = Inr v)
          \<and> (\<exists>v. nvim_cmd_validate env (c \<lparr> cmd_range := NIL \<rparr>) opts = Inr v)"
    using validate_without_count validate_without_range validate_with_both by blast
next
  fix e assume "nvim_cmd_validate env c opts = Inl e"
  then show "nvim_cmd env c opts = Inl e" by (rule nvim_cmd_Inl)
next
  fix cmdname ea0
  assume h: "check_cmd_name (cmd_cmd c) = Inr cmdname \<and> find_command env cmdname = Inr ea0
      \<and> (EX_RANGE \<notin> argt ea0 \<or> EX_COUNT \<notin> argt ea0)"
  have "\<And>v. nvim_cmd_validate env c opts \<noteq> Inr v"
  proof
    fix v assume v: "nvim_cmd_validate env c opts = Inr v"
    from nvim_cmd_validate_stages [OF v] obtain cmdname' eb0 ea1 ea2 where
      n: "check_cmd_name (cmd_cmd c) = Inr cmdname'" and
      f: "find_command env cmdname' = Inr eb0" and
      r: "check_range env (resolve_addr_type env eb0 (v_args v)) (cmd_range c) = Inr ea1" and
      k: "check_count env (default_range env ea1) (cmd_count c) = Inr ea2"
      by blast
    from n f h have eb0: "eb0 = ea0" by simp
    from check_range_needs_flag [OF assms(1) r] have "EX_RANGE \<in> argt ea0"
      by (simp add: resolve_addr_type_frame eb0)
    moreover from check_count_needs_flag [OF assms(2) k] check_range_frame [OF r]
    have "EX_COUNT \<in> argt ea0"
      by (simp add: resolve_addr_type_frame default_range_frame eb0)
    ultimately show False using h by blast
  qed
  then obtain e where "nvim_cmd_validate env c opts = Inl e"
    using not_Inr_is_Inl by blast
  then show "\<exists>e. nvim_cmd_validate env c opts = Inl e \<and> nvim_cmd env c opts = Inl e"
    by (auto dest: nvim_cmd_Inl)
next
  fix v assume v: "nvim_cmd_validate env c opts = Inr v"
  from validated_lines [OF v] obtain cmdname ea0 ea1 ea2 where
    n: "check_cmd_name (cmd_cmd c) = Inr cmdname" and
    f: "find_command env cmdname = Inr ea0" and
    r: "check_range env (resolve_addr_type env ea0 (v_args v)) (cmd_range c) = Inr ea1" and
    k: "check_count env (default_range env ea1) (cmd_count c) = Inr ea2" and
    l: "line1 (v_ea v) = line1 ea2" "line2 (v_ea v) = line2 ea2"
       "addr_count (v_ea v) = addr_count ea2"
    by blast
  from check_range_needs_flag [OF assms(1) r] have fr: "EX_RANGE \<in> argt ea0"
    by (simp add: resolve_addr_type_frame)
  from check_count_needs_flag [OF assms(2) k] check_range_frame [OF r]
  have fk: "EX_COUNT \<in> argt ea0"
    by (simp add: resolve_addr_type_frame default_range_frame)
  from check_count_lines [OF assms(2) k] l
  have "(line1 (v_ea v), line2 (v_ea v), addr_count (v_ea v))
      = set_cmd_count env (default_range env ea1) (to_linenr (data_integer (cmd_count c))) True"
    by simp
  with n f fr fk r
  show "\<exists>cmdname ea0 ea1.
                check_cmd_name (cmd_cmd c) = Inr cmdname
              \<and> find_command env cmdname = Inr ea0
              \<and> EX_RANGE \<in> argt ea0 \<and> EX_COUNT \<in> argt ea0
              \<and> check_range env (resolve_addr_type env ea0 (v_args v)) (cmd_range c) = Inr ea1
              \<and> (line1 (v_ea v), line2 (v_ea v), addr_count (v_ea v))
                  = set_cmd_count env (default_range env ea1)
                      (to_linenr (data_integer (cmd_count c))) True"
    by blast
qed

theorem C3_range_and_count_witness:
  "HAS_KEY (cmd_range ((cmd_only ''put'')
      \<lparr> cmd_range := ARRAY_OBJ [INTEGER_OBJ 1], cmd_count := INTEGER_OBJ 2 \<rparr>))
   \<and> HAS_KEY (cmd_count ((cmd_only ''put'')
      \<lparr> cmd_range := ARRAY_OBJ [INTEGER_OBJ 1], cmd_count := INTEGER_OBJ 2 \<rparr>))
   \<and> check_cmd_name (cmd_cmd ((cmd_only ''put'')
      \<lparr> cmd_range := ARRAY_OBJ [INTEGER_OBJ 1], cmd_count := INTEGER_OBJ 2 \<rparr>)) = Inr ''put''
   \<and> map_sum id argt (find_command sample_env ''put'')
       = Inr {EX_RANGE, EX_BANG, EX_REGSTR, EX_TRLBAR, EX_ZEROR}
   \<and> nvim_cmd sample_env ((cmd_only ''put'')
        \<lparr> cmd_range := ARRAY_OBJ [INTEGER_OBJ 1], cmd_count := INTEGER_OBJ 2 \<rparr>) no_opts
       = Inl (kErrorTypeValidation, ''Command cannot accept a count'')
   \<and> \<not> isl (nvim_cmd_validate sample_env ((cmd_only ''put'')
        \<lparr> cmd_range := ARRAY_OBJ [INTEGER_OBJ 1], cmd_count := INTEGER_OBJ 2 \<rparr>
        \<lparr> cmd_count := NIL \<rparr>) no_opts)
   \<and> isl (nvim_cmd_validate sample_env ((cmd_only ''put'')
        \<lparr> cmd_range := ARRAY_OBJ [INTEGER_OBJ 1], cmd_count := INTEGER_OBJ 2 \<rparr>
        \<lparr> cmd_range := NIL \<rparr>) no_opts)
   \<and> HAS_KEY (cmd_range ((cmd_only ''Count'')
      \<lparr> cmd_range := ARRAY_OBJ [INTEGER_OBJ 3], cmd_count := INTEGER_OBJ 2 \<rparr>))
   \<and> HAS_KEY (cmd_count ((cmd_only ''Count'')
      \<lparr> cmd_range := ARRAY_OBJ [INTEGER_OBJ 3], cmd_count := INTEGER_OBJ 2 \<rparr>))
   \<and> \<not> isl (nvim_cmd_validate sample_env ((cmd_only ''Count'')
        \<lparr> cmd_range := ARRAY_OBJ [INTEGER_OBJ 3], cmd_count := INTEGER_OBJ 2 \<rparr>
        \<lparr> cmd_count := NIL \<rparr>) no_opts)
   \<and> \<not> isl (nvim_cmd_validate sample_env ((cmd_only ''Count'')
        \<lparr> cmd_range := ARRAY_OBJ [INTEGER_OBJ 3], cmd_count := INTEGER_OBJ 2 \<rparr>
        \<lparr> cmd_range := NIL \<rparr>) no_opts)
   \<and> (\<exists>v. nvim_cmd_validate sample_env ((cmd_only ''Count'')
        \<lparr> cmd_range := ARRAY_OBJ [INTEGER_OBJ 3], cmd_count := INTEGER_OBJ 2 \<rparr>) no_opts = Inr v)
   \<and> map_sum id (\<lambda>v. (line1 (v_ea v), line2 (v_ea v), addr_count (v_ea v)))
        (nvim_cmd_validate sample_env ((cmd_only ''Count'')
          \<lparr> cmd_range := ARRAY_OBJ [INTEGER_OBJ 3], cmd_count := INTEGER_OBJ 2 \<rparr>) no_opts)
       = Inr (3, 2, 1)"
proof -
  let ?p = "(cmd_only ''put'') \<lparr> cmd_range := ARRAY_OBJ [INTEGER_OBJ 1], cmd_count := INTEGER_OBJ 2 \<rparr>"
  let ?k = "(cmd_only ''Count'')
      \<lparr> cmd_range := ARRAY_OBJ [INTEGER_OBJ 3], cmd_count := INTEGER_OBJ 2 \<rparr>"
  have h1: "HAS_KEY (cmd_range ?p)" and h2: "HAS_KEY (cmd_count ?p)"
    by (simp_all add: HAS_KEY_def cmd_only_def)
  have k1: "HAS_KEY (cmd_range ?k)" and k2: "HAS_KEY (cmd_count ?k)"
    by (simp_all add: HAS_KEY_def cmd_only_def)
  have n: "check_cmd_name (cmd_cmd ?p) = Inr ''put''"
    by (simp add: check_cmd_name_def cmd_only_def first_char_def cstr_def)
  have f: "map_sum id argt (find_command sample_env ''put'')
       = Inr {EX_RANGE, EX_BANG, EX_REGSTR, EX_TRLBAR, EX_ZEROR}"
    by code_simp
  then obtain ea0 where ea0: "find_command sample_env ''put'' = Inr ea0"
    and fl: "argt ea0 = {EX_RANGE, EX_BANG, EX_REGSTR, EX_TRLBAR, EX_ZEROR}"
    by (cases "find_command sample_env ''put''") auto
  from fl have nk: "EX_RANGE \<notin> argt ea0 \<or> EX_COUNT \<notin> argt ea0" by simp
  note put = C3_range_and_count [OF h1 h2, of sample_env no_opts, THEN conjunct2, THEN conjunct2,
      THEN conjunct1, rule_format, of "''put''" ea0]
  from put n ea0 nk have "\<exists>e. nvim_cmd sample_env ?p no_opts = Inl e" by blast
  moreover have "projl (nvim_cmd sample_env ?p no_opts)
       = (kErrorTypeValidation, ''Command cannot accept a count'')"
    by code_simp
  ultimately have ev: "nvim_cmd sample_env ?p no_opts
       = Inl (kErrorTypeValidation, ''Command cannot accept a count'')"
    by auto
  have pr: "\<not> isl (nvim_cmd_validate sample_env (?p \<lparr> cmd_count := NIL \<rparr>) no_opts)"
    by code_simp
  have pk: "isl (nvim_cmd_validate sample_env (?p \<lparr> cmd_range := NIL \<rparr>) no_opts)"
    by code_simp
  have kr: "\<not> isl (nvim_cmd_validate sample_env (?k \<lparr> cmd_count := NIL \<rparr>) no_opts)"
    by code_simp
  have kk: "\<not> isl (nvim_cmd_validate sample_env (?k \<lparr> cmd_range := NIL \<rparr>) no_opts)"
    by code_simp
  from kr obtain vr where vr: "nvim_cmd_validate sample_env (?k \<lparr> cmd_count := NIL \<rparr>) no_opts
      = Inr vr"
    by (cases "nvim_cmd_validate sample_env (?k \<lparr> cmd_count := NIL \<rparr>) no_opts") auto
  from kk obtain vk where vk: "nvim_cmd_validate sample_env (?k \<lparr> cmd_range := NIL \<rparr>) no_opts
      = Inr vk"
    by (cases "nvim_cmd_validate sample_env (?k \<lparr> cmd_range := NIL \<rparr>) no_opts") auto
  note both = C3_range_and_count [OF k1 k2, of sample_env no_opts, THEN conjunct1]
  from both vr vk have ok: "\<exists>v. nvim_cmd_validate sample_env ?k no_opts = Inr v" by blast
  have lines: "map_sum id (\<lambda>v. (line1 (v_ea v), line2 (v_ea v), addr_count (v_ea v)))
        (nvim_cmd_validate sample_env ?k no_opts) = Inr (3, 2, 1)"
    by code_simp
  from h1 h2 n f ev pr pk k1 k2 kr kk ok lines show ?thesis by blast
qed

text \<open>
  The claim fails for a command defined with \<^verbatim>\<open>count\<close>.  \<^verbatim>\<open>create_user_command\<close>
  treats \<^verbatim>\<open>range\<close> and \<^verbatim>\<open>count\<close> as mutually exclusive attributes, and gives a
  command defined with \<^verbatim>\<open>count\<close> the flags \<^verbatim>\<open>EX_COUNT\<close>, \<^verbatim>\<open>EX_ZEROR\<close> and
  \<^verbatim>\<open>EX_RANGE\<close>: these are the flags of the sample command \<^verbatim>\<open>Count\<close>.  A descriptor
  with both a range and a count for it passes the validation and is serialized.
\<close>

theorem C3_counterexample:
  "map_sum id (\<lambda>(u, force). (uc_argt u, uc_addr_type u))
       (uc_prepare sample_uc_env ''Count'' (STRING_OBJ ''echo 1'')
          (no_attrs \<lparr> o_count := INTEGER_OBJ 0 \<rparr>))
     = Inr ({EX_COUNT, EX_ZEROR, EX_RANGE}, ADDR_OTHER)
   \<and> (found_argt (sample_find ''Count''), found_addr_type (sample_find ''Count''))
     = ({EX_COUNT, EX_ZEROR, EX_RANGE}, ADDR_OTHER)
   \<and> uc_prepare sample_uc_env ''Count'' (STRING_OBJ ''echo 1'')
          (no_attrs \<lparr> o_range := BOOLEAN_OBJ True, o_count := INTEGER_OBJ 0 \<rparr>)
     = Inl (kErrorTypeValidation,
            quoted ''range'' @ '' and '' @ quoted ''count'' @ '' are mutually exclusive'')
   \<and> HAS_KEY (cmd_range ((cmd_only ''Count'')
        \<lparr> cmd_range := ARRAY_OBJ [INTEGER_OBJ 3], cmd_count := INTEGER_OBJ 2 \<rparr>))
   \<and> HAS_KEY (cmd_count ((cmd_only ''Count'')
        \<lparr> cmd_range := ARRAY_OBJ [INTEGER_OBJ 3], cmd_count := INTEGER_OBJ 2 \<rparr>))
   \<and> \<not> isl (nvim_cmd_validate sample_env ((cmd_only ''Count'')
        \<lparr> cmd_range := ARRAY_OBJ [INTEGER_OBJ 3], cmd_count := INTEGER_OBJ 2 \<rparr>) no_opts)
   \<and> map_sum id b_cmdline (nvim_cmd sample_env ((cmd_only ''Count'')
        \<lparr> cmd_range := ARRAY_OBJ [INTEGER_OBJ 3], cmd_count := INTEGER_OBJ 2 \<rparr>) no_opts)
     = Inr ''2Count''"
proof (intro conjI)
  show "map_sum id (\<lambda>(u, force). (uc_argt u, uc_addr_type u))
       (uc_prepare sample_uc_env ''Count'' (STRING_OBJ ''echo 1'')
          (no_attrs \<lparr> o_count := INTEGER_OBJ 0 \<rparr>))
     = Inr ({EX_COUNT, EX_ZEROR, EX_RANGE}, ADDR_OTHER)"
    by code_simp
  show "(found_argt (sample_find ''Count''), found_addr_type (sample_find ''Count''))
     = ({EX_COUNT, EX_ZEROR, EX_RANGE}, ADDR_OTHER)"
    by code_simp
  show "uc_prepare sample_uc_env ''Count'' (STRING_OBJ ''echo 1'')
          (no_attrs \<lparr> o_range := BOOLEAN_OBJ True, o_count := INTEGER_OBJ 0 \<rparr>)
     = Inl (kErrorTypeValidation,
            quoted ''range'' @ '' and '' @ quoted ''count'' @ '' are mutually exclusive'')"
    by code_simp
  show "HAS_KEY (cmd_range ((cmd_only ''Count'')
        \<lparr> cmd_range := ARRAY_OBJ [INTEGER_OBJ 3], cmd_count := INTEGER_OBJ 2 \<rparr>))"
    by (simp add: HAS_KEY_def cmd_only_def)
  show "HAS_KEY (cmd_count ((cmd_only ''Count'')
        \<lparr> cmd_range := ARRAY_OBJ [INTEGER_OBJ 3], cmd_count := INTEGER_OBJ 2 \<rparr>))"
    by (simp add: HAS_KEY_def cmd_only_def)
  show "\<not> isl (nvim_cmd_validate sample_env ((cmd_only ''Count'')
        \<lparr> cmd_range := ARRAY_OBJ [INTEGER_OBJ 3], cmd_count := INTEGER_OBJ 2 \<rparr>) no_opts)"
    by code_simp
  show "map_sum id b_cmdline (nvim_cmd sample_env ((cmd_only ''Count'')
        \<lparr> cmd_range := ARRAY_OBJ [INTEGER_OBJ 3], cmd_count := INTEGER_OBJ 2 \<rparr>) no_opts)
     = Inr ''2Count''"
    by code_simp
qed
section \<open>The register\<close>

lemma single_char_cases: "(\<forall>ch. s \<noteq> [ch]) \<longleftrightarrow> length s \<noteq> 1"
  by (cases s) (auto simp: length_Suc_conv)

text \<open>
  C7.  For a descriptor that supplies a register: a contract without \<^verbatim>\<open>EX_REGSTR\<close>
  rejects it; otherwise it must be a String of exactly one character; \<^verbatim>\<open>=\<close> is
  rejected; any other character is accepted exactly when \<^verbatim>\<open>valid_yank_reg\<close> holds,
  called with \<^verbatim>\<open>writing\<close> false exactly when the command is \<^verbatim>\<open>:put\<close> or a user
  command.  A validated command that supplied a register therefore has a contract with
  \<^verbatim>\<open>EX_REGSTR\<close> and carries that one character, which satisfies the predicate.
\<close>

theorem C7_register_check:
  assumes "HAS_KEY r"
  shows "(EX_REGSTR \<notin> argt ea \<longrightarrow>
            check_reg env ea r = VALIDATION_ERROR ''Command cannot accept a register'')
       \<and> (EX_REGSTR \<in> argt ea \<and> (\<forall>ch. r \<noteq> STRING_OBJ [ch]) \<longrightarrow>
            check_reg env ea r = VALIDATION_ERROR (quoted ''reg'' @ '' must be a single character''))
       \<and> (EX_REGSTR \<in> argt ea \<and> r = STRING_OBJ ''='' \<longrightarrow>
            check_reg env ea r = VALIDATION_ERROR (''Cannot use register '' @ [CHR 0x22, CHR ''='']))
       \<and> (\<forall>ch. EX_REGSTR \<in> argt ea \<and> r = STRING_OBJ [ch] \<and> ch \<noteq> CHR ''='' \<longrightarrow>
            check_reg env ea r =
              (if valid_yank_reg env ch (\<not> (cmdidx ea = CMD_put \<or> IS_USER_CMDIDX (cmdidx ea)))
               then Inr (ea \<lparr> regname := ch \<rparr>)
               else VALIDATION_ERROR (''Invalid register: '' @ [CHR 0x22, ch])))
       \<and> (\<forall>v. nvim_cmd_validate env c opts = Inr v \<and> cmd_reg c = r \<longrightarrow>
            (\<exists>ch. r = STRING_OBJ [ch] \<and> ch \<noteq> CHR ''='' \<and> EX_REGSTR \<in> argt (v_ea v)
                \<and> valid_yank_reg env ch
                     (\<not> (cmdidx (v_ea v) = CMD_put \<or> IS_USER_CMDIDX (cmdidx (v_ea v))))
                \<and> regname (v_ea v) = ch))"
proof (intro conjI impI allI)
  assume "EX_REGSTR \<notin> argt ea"
  with assms show "check_reg env ea r = VALIDATION_ERROR ''Command cannot accept a register''"
    by (simp add: check_reg_def)
next
  assume h: "EX_REGSTR \<in> argt ea \<and> (\<forall>ch. r \<noteq> STRING_OBJ [ch])"
  show "check_reg env ea r = VALIDATION_ERROR (quoted ''reg'' @ '' must be a single character'')"
  proof (cases r)
    case (STRING_OBJ s)
    with h have "length s \<noteq> 1" using single_char_cases [of s] by auto
    with STRING_OBJ h assms show ?thesis by (simp add: check_reg_def)
  qed (use h assms in \<open>simp_all add: check_reg_def\<close>)
next
  assume "EX_REGSTR \<in> argt ea \<and> r = STRING_OBJ ''=''"
  with assms show "check_reg env ea r
      = VALIDATION_ERROR (''Cannot use register '' @ [CHR 0x22, CHR ''=''])"
    by (simp add: check_reg_def first_char_def)
next
  fix ch
  assume "EX_REGSTR \<in> argt ea \<and> r = STRING_OBJ [ch] \<and> ch \<noteq> CHR ''=''"
  with assms show "check_reg env ea r =
              (if valid_yank_reg env ch (\<not> (cmdidx ea = CMD_put \<or> IS_USER_CMDIDX (cmdidx ea)))
               then Inr (ea \<lparr> regname := ch \<rparr>)
               else VALIDATION_ERROR (''Invalid register: '' @ [CHR 0x22, ch]))"
    by (simp add: check_reg_def first_char_def)
next
  fix v
  assume h: "nvim_cmd_validate env c opts = Inr v \<and> cmd_reg c = r"
  then have v: "nvim_cmd_validate env c opts = Inr v" by simp
  from nvim_cmd_validate_stages [OF v] obtain ea2 ea3 ea4 cmdinfo where
    g: "check_reg env ea2 (cmd_reg c) = Inr ea3" and
    b: "check_bang env ea3 (cmd_bang c) = Inr ea4" and
    m: "check_magic env ea4 cmdinfo_clear (cmd_magic c) = Inr (v_ea v, cmdinfo)"
    by blast
  from g h assms obtain ch where r: "r = STRING_OBJ [ch]" and ne: "ch \<noteq> CHR ''=''"
    and fl: "EX_REGSTR \<in> argt ea2"
    and ok: "valid_yank_reg env ch (cmdidx ea2 \<noteq> CMD_put \<and> \<not> IS_USER_CMDIDX (cmdidx ea2))"
    and ea3: "ea3 = ea2 \<lparr> regname := ch \<rparr>"
    by (cases r)
      (auto simp: check_reg_def first_char_def Let_def length_Suc_conv split: if_splits)
  have fr: "regname (v_ea v) = regname ea3" "cmdidx (v_ea v) = cmdidx ea2"
    "argt (v_ea v) - {EX_XFILE} = argt ea2 - {EX_XFILE}"
    using check_bang_frame [OF b] check_magic_frame [OF m] ea3 by simp_all
  from fr(3) fl have "EX_REGSTR \<in> argt (v_ea v)" by blast
  with r ne ok ea3 fr
  show "\<exists>ch. r = STRING_OBJ [ch] \<and> ch \<noteq> CHR ''='' \<and> EX_REGSTR \<in> argt (v_ea v)
                \<and> valid_yank_reg env ch
                     (\<not> (cmdidx (v_ea v) = CMD_put \<or> IS_USER_CMDIDX (cmdidx (v_ea v))))
                \<and> regname (v_ea v) = ch"
    by simp
qed

theorem C7_register_check_witness:
  "HAS_KEY (STRING_OBJ '':'')
   \<and> check_reg sample_env exarg_clear (STRING_OBJ '':'')
       = Inl (kErrorTypeValidation, ''Command cannot accept a register'')
   \<and> check_reg sample_env (exarg_clear \<lparr> argt := {EX_REGSTR} \<rparr>) (STRING_OBJ ''ab'')
       = VALIDATION_ERROR (quoted ''reg'' @ '' must be a single character'')
   \<and> check_reg sample_env (exarg_clear \<lparr> argt := {EX_REGSTR} \<rparr>) (STRING_OBJ ''='')
       = VALIDATION_ERROR (''Cannot use register '' @ [CHR 0x22, CHR ''=''])
   \<and> check_reg sample_env (exarg_clear \<lparr> argt := {EX_REGSTR}, cmdidx := CMD_put \<rparr>)
         (STRING_OBJ '':'')
       = Inr (exarg_clear \<lparr> argt := {EX_REGSTR}, cmdidx := CMD_put, regname := CHR '':'' \<rparr>)
   \<and> check_reg sample_env (exarg_clear \<lparr> argt := {EX_REGSTR} \<rparr>) (STRING_OBJ '':'')
       = VALIDATION_ERROR (''Invalid register: '' @ [CHR 0x22, CHR '':''])
   \<and> nvim_cmd_validate sample_env ((cmd_only ''put'') \<lparr> cmd_reg := STRING_OBJ '':'' \<rparr>) no_opts
       = Inr (projr (nvim_cmd_validate sample_env
                ((cmd_only ''put'') \<lparr> cmd_reg := STRING_OBJ '':'' \<rparr>) no_opts))
   \<and> regname (v_ea (projr (nvim_cmd_validate sample_env
                ((cmd_only ''put'') \<lparr> cmd_reg := STRING_OBJ '':'' \<rparr>) no_opts))) = CHR '':''"
proof -
  let ?c = "(cmd_only ''put'') \<lparr> cmd_reg := STRING_OBJ '':'' \<rparr>"
  let ?r = "nvim_cmd_validate sample_env ?c no_opts"
  let ?ea = "exarg_clear \<lparr> argt := {EX_REGSTR} \<rparr>"
  let ?put = "exarg_clear \<lparr> argt := {EX_REGSTR}, cmdidx := CMD_put \<rparr>"
  have k: "HAS_KEY (STRING_OBJ s)" for s by (simp add: HAS_KEY_def)
  have r1: "check_reg sample_env exarg_clear (STRING_OBJ '':'')
       = Inl (kErrorTypeValidation, ''Command cannot accept a register'')"
    using C7_register_check [where r = "STRING_OBJ '':''" and ea = exarg_clear and env = sample_env, OF k]
    by (simp add: exarg_clear_def VALIDATION_ERROR_def)
  have r2: "check_reg sample_env ?ea (STRING_OBJ ''ab'')
       = VALIDATION_ERROR (quoted ''reg'' @ '' must be a single character'')"
    using C7_register_check [where r = "STRING_OBJ ''ab''" and ea = ?ea and env = sample_env, OF k]
    by simp
  have r3: "check_reg sample_env ?ea (STRING_OBJ ''='')
       = VALIDATION_ERROR (''Cannot use register '' @ [CHR 0x22, CHR ''=''])"
    using C7_register_check [where r = "STRING_OBJ ''=''" and ea = ?ea and env = sample_env, OF k]
    by simp
  have r4: "check_reg sample_env ?put (STRING_OBJ '':'') = Inr (?put \<lparr> regname := CHR '':'' \<rparr>)"
    using C7_register_check [where r = "STRING_OBJ '':''" and ea = ?put and env = sample_env, OF k]
    by (simp add: sample_env_def)
  have r5: "check_reg sample_env ?ea (STRING_OBJ '':'')
       = VALIDATION_ERROR (''Invalid register: '' @ [CHR 0x22, CHR '':''])"
    using C7_register_check [where r = "STRING_OBJ '':''" and ea = ?ea and env = sample_env, OF k]
    by (simp add: sample_env_def exarg_clear_def IS_USER_CMDIDX_def)
  have "\<not> isl ?r" by code_simp
  then have h: "?r = Inr (projr ?r)" by simp
  have cr: "cmd_reg ?c = STRING_OBJ '':''" by simp
  note last = C7_register_check [where r = "STRING_OBJ '':''" and env = sample_env and c = ?c
      and opts = no_opts and ea = exarg_clear, OF k, THEN conjunct2, THEN conjunct2,
      THEN conjunct2, THEN conjunct2, rule_format, of "projr ?r"]
  have "?r = Inr (projr ?r) \<and> cmd_reg ?c = STRING_OBJ '':''"
    using h cr by (rule conjI)
  from last [OF this] obtain ch where "STRING_OBJ '':'' = STRING_OBJ [ch]"
    and "regname (v_ea (projr ?r)) = ch" by blast
  then have r6: "regname (v_ea (projr ?r)) = CHR '':''" by simp
  from k r1 r2 r3 r4 r5 h r6 show ?thesis by simp
qed

section \<open>Modifiers\<close>

lemma apply_mods_stages:
  assumes "apply_mods env ea cm mods = Inr cm'"
  shows "\<exists>cm1 cm2 cm3 cm4 cm5 cm6.
           mods_filter_step env cm (mods_filter mods) = Inr cm1
         \<and> mods_tab_step cm1 (mods_tab mods) = Inr cm2
         \<and> mods_verbose_step cm2 (mods_verbose mods) = Inr cm3
         \<and> mods_wsp_step env WSP_VERT (quoted ''mods.vertical'') cm3 (mods_vertical mods) = Inr cm4
         \<and> mods_wsp_step env WSP_HOR (quoted ''mods.horizontal'') cm4 (mods_horizontal mods) = Inr cm5
         \<and> mods_split_step cm5 (mods_split mods) = Inr cm6
         \<and> mods_flags_step env ea cm6 mods = Inr cm'"
  using assms unfolding apply_mods_def and_then_eq_Inr by blast

lemma check_mods_dict:
  assumes "check_mods env ea ci (DICTIONARY_OBJ d) = Inr ci'"
    and "keydict_cmd_mods env d = Inr mods"
  shows "apply_mods env ea (cmdmod ci) mods = Inr (cmdmod ci')"
  using assms by (auto simp: check_mods_def HAS_KEY_def and_then_eq_Inr)

lemma validated_mods:
  assumes "nvim_cmd_validate env c opts = Inr v" and "cmd_mods c = DICTIONARY_OBJ d"
    and "keydict_cmd_mods env d = Inr mods"
  shows "apply_mods env (v_ea v) cmdmod_clear mods = Inr (cmdmod (v_cmdinfo v))"
proof -
  from nvim_cmd_validate_stages [OF assms(1)] obtain ea4 cmdinfo where
    m: "check_magic env ea4 cmdinfo_clear (cmd_magic c) = Inr (v_ea v, cmdinfo)" and
    k: "check_mods env (v_ea v) cmdinfo (cmd_mods c) = Inr (v_cmdinfo v)"
    by blast
  from check_magic_frame [OF m] have "cmdmod cmdinfo = cmdmod_clear"
    by (simp add: cmdinfo_clear_def)
  with check_mods_dict [OF k [unfolded assms(2)] assms(3)] show ?thesis by simp
qed

lemma mods_filter_step_frame:
  "mods_filter_step env cm f = Inr cm' \<Longrightarrow>
     cmod_tab cm' = cmod_tab cm \<and> cmod_verbose cm' = cmod_verbose cm
     \<and> cmod_flags cm' = cmod_flags cm \<and> cmod_split cm' = cmod_split cm"
  by (cases f)
    (auto simp: mods_filter_step_def HAS_KEY_def and_then_eq_Inr Let_def
          split: if_splits Object.splits)

lemma mods_tab_step_frame:
  "mods_tab_step cm t = Inr cm' \<Longrightarrow>
     cmod_verbose cm' = cmod_verbose cm \<and> cmod_flags cm' = cmod_flags cm"
  by (cases t) (auto simp: mods_tab_step_def HAS_KEY_def split: if_splits)

lemma mods_verbose_step_frame:
  "mods_verbose_step cm t = Inr cm' \<Longrightarrow>
     cmod_tab cm' = cmod_tab cm \<and> cmod_flags cm' = cmod_flags cm"
  by (cases t) (auto simp: mods_verbose_step_def HAS_KEY_def split: if_splits)

lemma mods_wsp_step_frame:
  "mods_wsp_step env flag what cm t = Inr cm' \<Longrightarrow>
     cmod_tab cm' = cmod_tab cm \<and> cmod_verbose cm' = cmod_verbose cm
     \<and> cmod_flags cm' = cmod_flags cm"
  by (auto simp: mods_wsp_step_def and_then_eq_Inr)

lemma mods_split_step_frame:
  "mods_split_step cm t = Inr cm' \<Longrightarrow>
     cmod_tab cm' = cmod_tab cm \<and> cmod_verbose cm' = cmod_verbose cm
     \<and> cmod_flags cm' = cmod_flags cm"
  by (cases t) (auto simp: mods_split_step_def HAS_KEY_def Let_def split: if_splits)

lemma mods_flags_step_frame:
  "mods_flags_step env ea cm mods = Inr cm' \<Longrightarrow>
     cmod_tab cm' = cmod_tab cm \<and> cmod_verbose cm' = cmod_verbose cm"
  by (auto simp: mods_flags_step_def and_then_eq_Inr Let_def split: if_splits)

lemma to_int_minus_one: "sint (to_int (- 1)) = - 1"
  unfolding to_int_def by code_simp

lemma mods_tab_step_minus_one: "mods_tab_step cm (INTEGER_OBJ (- 1)) = mods_tab_step cm NIL"
  by (simp add: mods_tab_step_def HAS_KEY_def to_int_minus_one)

lemma mods_verbose_step_minus_one:
  "mods_verbose_step cm (INTEGER_OBJ (- 1)) = mods_verbose_step cm NIL"
  by (simp add: mods_verbose_step_def HAS_KEY_def to_int_minus_one)

subsection \<open>The flags\<close>

lemma cmod_flags_steps_mono:
  "cmod_flags_steps env tbl flags = Inr flags' \<Longrightarrow> flags \<subseteq> flags'"
proof (induction tbl arbitrary: flags)
  case Nil
  then show ?case by simp
next
  case (Cons x xs)
  obtain flag v what where x: "x = (flag, v, what)" by (cases x) auto
  from Cons.prems x obtain f1 where
    f1: "OBJ_TO_CMOD_FLAG env flag v what flags = Inr f1" and
    rest: "cmod_flags_steps env xs f1 = Inr flags'"
    by (auto simp: and_then_eq_Inr)
  from f1 have "flags \<subseteq> f1"
    by (auto simp: OBJ_TO_CMOD_FLAG_def and_then_eq_Inr split: if_splits)
  with Cons.IH [OF rest] show ?case by blast
qed

lemma cmod_flags_steps_sets:
  "cmod_flags_steps env tbl flags = Inr flags' \<Longrightarrow> (flag, v, what) \<in> set tbl \<Longrightarrow>
     api_object_to_bool env v what False = Inr True \<Longrightarrow> flag \<in> flags'"
proof (induction tbl arbitrary: flags)
  case Nil
  then show ?case by simp
next
  case (Cons x xs)
  obtain flag0 v0 what0 where x: "x = (flag0, v0, what0)" by (cases x) auto
  from Cons.prems(1) x obtain f1 where
    f1: "OBJ_TO_CMOD_FLAG env flag0 v0 what0 flags = Inr f1" and
    rest: "cmod_flags_steps env xs f1 = Inr flags'"
    by (auto simp: and_then_eq_Inr)
  show ?case
  proof (cases "(flag, v, what) = x")
    case True
    with x f1 Cons.prems(3) have "flag \<in> f1"
      by (auto simp: OBJ_TO_CMOD_FLAG_def)
    with cmod_flags_steps_mono [OF rest] show ?thesis by blast
  next
    case False
    with Cons.prems(2) have "(flag, v, what) \<in> set xs" by simp
    from Cons.IH [OF rest this Cons.prems(3)] show ?thesis .
  qed
qed

lemma mods_flags_step_errsilent:
  assumes "mods_flags_step env ea cm mods = Inr cm'"
    and "api_object_to_bool env (mods_emsg_silent mods) (quoted ''mods.emsg_silent'') False
           = Inr True"
  shows "CMOD_ERRSILENT \<in> cmod_flags cm' \<and> CMOD_SILENT \<in> cmod_flags cm'"
proof -
  from assms(1) obtain flags where
    fl: "cmod_flags_steps env (cmod_flag_table mods) (cmod_flags cm) = Inr flags" and
    cm': "cmod_flags cm' = (if CMOD_ERRSILENT \<in> flags then flags \<union> {CMOD_SILENT} else flags)"
    by (auto simp: mods_flags_step_def and_then_eq_Inr Let_def split: if_splits)
  have "(CMOD_ERRSILENT, mods_emsg_silent mods, quoted ''mods.emsg_silent'')
          \<in> set (cmod_flag_table mods)"
    by (simp add: cmod_flag_table_def)
  from cmod_flags_steps_sets [OF fl this assms(2)] have "CMOD_ERRSILENT \<in> flags" .
  with cm' show ?thesis by simp
qed

lemma OBJ_TO_CMOD_FLAG_insert:
  "OBJ_TO_CMOD_FLAG env flag v what (insert x flags)
     = map_sum id (insert x) (OBJ_TO_CMOD_FLAG env flag v what flags)"
  by (cases "api_object_to_bool env v what False") (auto simp: OBJ_TO_CMOD_FLAG_def)

lemma cmod_flags_steps_insert:
  "cmod_flags_steps env tbl (insert x flags)
     = map_sum id (insert x) (cmod_flags_steps env tbl flags)"
proof (induction tbl arbitrary: flags)
  case Nil
  then show ?case by simp
next
  case (Cons t tbl)
  obtain flag v what where t: "t = (flag, v, what)" by (cases t) auto
  show ?case
  proof (cases "OBJ_TO_CMOD_FLAG env flag v what flags")
    case (Inl e)
    with t show ?thesis by (simp add: OBJ_TO_CMOD_FLAG_insert)
  next
    case (Inr S)
    with t Cons.IH [of S] show ?thesis by (simp add: OBJ_TO_CMOD_FLAG_insert)
  qed
qed

text \<open>
  With \<^verbatim>\<open>emsg_silent\<close> true, the value given for \<^verbatim>\<open>silent\<close> makes no difference:
  a descriptor that leaves \<^verbatim>\<open>silent\<close> false is treated as one that sets it.
\<close>

lemma mods_flags_step_silent:
  assumes e: "api_object_to_bool env (mods_emsg_silent mods) (quoted ''mods.emsg_silent'') False
                = Inr True"
    and s: "api_object_to_bool env s (quoted ''mods.silent'') False = Inr b"
  shows "mods_flags_step env ea cm (mods \<lparr> mods_silent := s \<rparr>)
           = (case cmod_flags_steps env (tl (cmod_flag_table mods)) (cmod_flags cm) of
                Inl err \<Rightarrow> Inl err
              | Inr S \<Rightarrow>
                  if CMOD_SANDBOX \<in> S \<and> EX_SBOXOK \<notin> argt ea
                  then VALIDATION_ERROR ''Command cannot be run in sandbox''
                  else Inr (cm \<lparr> cmod_flags := S \<union> {CMOD_SILENT} \<rparr>))"
proof -
  let ?rest = "tl (cmod_flag_table mods)"
  have tbl: "cmod_flag_table (mods \<lparr> mods_silent := s \<rparr>)
      = (CMOD_SILENT, s, quoted ''mods.silent'') # ?rest"
    by (simp add: cmod_flag_table_def)
  have mem: "(CMOD_ERRSILENT, mods_emsg_silent mods, quoted ''mods.emsg_silent'') \<in> set ?rest"
    by (simp add: cmod_flag_table_def)
  have first: "cmod_flags_steps env (cmod_flag_table (mods \<lparr> mods_silent := s \<rparr>)) (cmod_flags cm)
      = cmod_flags_steps env ?rest (if b then cmod_flags cm \<union> {CMOD_SILENT} else cmod_flags cm)"
    using s by (simp add: tbl OBJ_TO_CMOD_FLAG_def)
  show ?thesis
  proof (cases "cmod_flags_steps env ?rest (cmod_flags cm)")
    case (Inl err)
    with first show ?thesis
      by (cases b) (simp_all add: mods_flags_step_def cmod_flags_steps_insert)
  next
    case (Inr S)
    from cmod_flags_steps_sets [OF Inr mem e] have es: "CMOD_ERRSILENT \<in> S" .
    with first Inr show ?thesis
      by (cases b) (simp_all add: mods_flags_step_def cmod_flags_steps_insert Let_def)
  qed
qed

lemma apply_mods_silent:
  assumes "api_object_to_bool env (mods_emsg_silent mods) (quoted ''mods.emsg_silent'') False
             = Inr True"
    and "api_object_to_bool env s1 (quoted ''mods.silent'') False = Inr b1"
    and "api_object_to_bool env s2 (quoted ''mods.silent'') False = Inr b2"
  shows "apply_mods env ea cm (mods \<lparr> mods_silent := s1 \<rparr>)
           = apply_mods env ea cm (mods \<lparr> mods_silent := s2 \<rparr>)"
  by (simp add: apply_mods_def mods_flags_step_silent [OF assms(1) assms(2)]
      mods_flags_step_silent [OF assms(1) assms(3)])

subsection \<open>The tokens of the modifiers\<close>

lemma tab_suffix_not_silent: "xs @ ''tab '' \<noteq> ''silent ''"
proof
  assume "xs @ ''tab '' = ''silent ''"
  then have "rev (xs @ ''tab '') = rev ''silent ''" by simp
  then show False by simp
qed

lemma verbose_suffix_not_silent: "xs @ ''verbose '' \<noteq> ''silent ''"
proof
  assume "xs @ ''verbose '' = ''silent ''"
  then have "rev (xs @ ''verbose '') = rev ''silent ''" by simp
  then show False by simp
qed

lemma tab_tokens_not_silent: "''silent '' \<notin> set (tab_tokens cm)"
  using tab_suffix_not_silent by (auto simp: tab_tokens_def)

lemma verbose_tokens_not_silent: "''silent '' \<notin> set (verbose_tokens cm)"
  using verbose_suffix_not_silent by (auto simp: verbose_tokens_def)

lemma unsilent_tokens_not_silent: "''silent '' \<notin> set (unsilent_tokens cm)"
  by (simp add: unsilent_tokens_def)

lemma split_tokens_not_silent: "''silent '' \<notin> set (split_tokens cm)"
  by (simp add: split_tokens_def Let_def)

lemma CMDLINE_APPEND_IF_set: "x \<in> set (CMDLINE_APPEND_IF cond str) \<Longrightarrow> x = str"
  by (simp add: CMDLINE_APPEND_IF_def split: if_splits)

lemma append_if_tokens_not_silent: "''silent '' \<notin> set (append_if_tokens cm)"
proof
  assume "''silent '' \<in> set (append_if_tokens cm)"
  then have "''silent '' \<in> {''vertical '', ''horizontal '', ''sandbox '', ''noautocmd '',
      ''browse '', ''confirm '', ''hide '', ''keepalt '', ''keepjumps '', ''keepmarks '',
      ''keeppatterns '', ''lockmarks '', ''noswapfile ''}"
    unfolding append_if_tokens_def set_append Un_iff
    by (elim disjE) (drule CMDLINE_APPEND_IF_set, simp)+
  then show False by simp
qed

lemma errsilent_tokens:
  assumes "CMOD_ERRSILENT \<in> cmod_flags cm"
  shows "''silent! '' \<in> set (cmdmod_tokens cm)" and "''silent '' \<notin> set (cmdmod_tokens cm)"
proof -
  from assms have s: "silent_tokens cm = [''silent! '']" by (simp add: silent_tokens_def)
  then show "''silent! '' \<in> set (cmdmod_tokens cm)" by (simp add: cmdmod_tokens_def)
  from s show "''silent '' \<notin> set (cmdmod_tokens cm)"
    using tab_tokens_not_silent verbose_tokens_not_silent unsilent_tokens_not_silent
      split_tokens_not_silent append_if_tokens_not_silent
    by (simp add: cmdmod_tokens_def)
qed

lemma errsilent_cmdline:
  assumes "CMOD_ERRSILENT \<in> cmod_flags (cmdmod ci)"
  shows "\<exists>rest. cmdline_str ea ci args
           = concat (tab_tokens (cmdmod ci) @ verbose_tokens (cmdmod ci)) @ ''silent! '' @ rest"
  using assms by (simp add: cmdline_str_def cmdmod_tokens_def silent_tokens_def)

lemma build_cmdline_str_line:
  assumes "\<forall>ea' a. replace_makeprg env ea' a = None"
  shows "b_cmdline (build_cmdline_str env ea ci args) = cmdline_str ea ci args"
  using assms by (simp add: build_cmdline_str_def Let_def)

text \<open>
  C4.  For a descriptor whose \<^verbatim>\<open>mods.emsg_silent\<close> stands for true, a successful
  validation has switched \<^verbatim>\<open>CMOD_SILENT\<close> on (there is no error branch for a missing
  \<^verbatim>\<open>silent\<close>); the modifiers the serializer appends contain \<^verbatim>\<open>"silent! "\<close> and no
  bare \<^verbatim>\<open>"silent "\<close>; whatever Boolean is given for \<^verbatim>\<open>silent\<close>, the modifiers
  come out the same; the line it builds is the \<^verbatim>\<open>tab\<close> and \<^verbatim>\<open>verbose\<close> modifiers,
  then \<^verbatim>\<open>"silent! "\<close>, then the rest; and unless \<^verbatim>\<open>replace_makeprg\<close> substitutes
  another line, that is the line \<^verbatim>\<open>nvim_cmd\<close> hands on.
\<close>

theorem C4_errsilent_forces_silent:
  assumes "nvim_cmd_validate env c opts = Inr v"
    and "cmd_mods c = DICTIONARY_OBJ d"
    and "keydict_cmd_mods env d = Inr mods"
    and "api_object_to_bool env (mods_emsg_silent mods) (quoted ''mods.emsg_silent'') False
           = Inr True"
  shows "CMOD_SILENT \<in> cmod_flags (cmdmod (v_cmdinfo v))
       \<and> ''silent! '' \<in> set (cmdmod_tokens (cmdmod (v_cmdinfo v)))
       \<and> ''silent '' \<notin> set (cmdmod_tokens (cmdmod (v_cmdinfo v)))
       \<and> (\<exists>rest. cmdline_str (v_ea v) (v_cmdinfo v) (v_args v)
             = concat (tab_tokens (cmdmod (v_cmdinfo v)) @ verbose_tokens (cmdmod (v_cmdinfo v)))
               @ ''silent! '' @ rest)
       \<and> sublist ''silent! '' (cmdline_str (v_ea v) (v_cmdinfo v) (v_args v))
       \<and> ((\<forall>ea' a. replace_makeprg env ea' a = None) \<longrightarrow>
            (\<exists>b. nvim_cmd env c opts = Inr b \<and> sublist ''silent! '' (b_cmdline b)))
       \<and> (\<forall>s1 s2 b1 b2 ea0 cm0.
             api_object_to_bool env s1 (quoted ''mods.silent'') False = Inr b1
             \<and> api_object_to_bool env s2 (quoted ''mods.silent'') False = Inr b2 \<longrightarrow>
             apply_mods env ea0 cm0 (mods \<lparr> mods_silent := s1 \<rparr>)
               = apply_mods env ea0 cm0 (mods \<lparr> mods_silent := s2 \<rparr>))"
proof -
  from validated_mods [OF assms(1-3)]
  have "apply_mods env (v_ea v) cmdmod_clear mods = Inr (cmdmod (v_cmdinfo v))" .
  from apply_mods_stages [OF this] obtain cm6 where
    "mods_flags_step env (v_ea v) cm6 mods = Inr (cmdmod (v_cmdinfo v))" by blast
  from mods_flags_step_errsilent [OF this assms(4)]
  have e: "CMOD_ERRSILENT \<in> cmod_flags (cmdmod (v_cmdinfo v))"
    and s: "CMOD_SILENT \<in> cmod_flags (cmdmod (v_cmdinfo v))" by simp_all
  from errsilent_cmdline [OF e] obtain rest where
    line: "cmdline_str (v_ea v) (v_cmdinfo v) (v_args v)
             = concat (tab_tokens (cmdmod (v_cmdinfo v)) @ verbose_tokens (cmdmod (v_cmdinfo v)))
               @ ''silent! '' @ rest" by blast
  then have sub: "sublist ''silent! '' (cmdline_str (v_ea v) (v_cmdinfo v) (v_args v))"
    unfolding sublist_def by blast
  have "(\<forall>ea' a. replace_makeprg env ea' a = None) \<longrightarrow>
            (\<exists>b. nvim_cmd env c opts = Inr b \<and> sublist ''silent! '' (b_cmdline b))"
  proof
    assume none: "\<forall>ea' a. replace_makeprg env ea' a = None"
    have "nvim_cmd env c opts = Inr (build_cmdline_str env (v_ea v) (v_cmdinfo v) (v_args v))"
      using assms(1) by (simp add: nvim_cmd_def)
    moreover have "sublist ''silent! ''
        (b_cmdline (build_cmdline_str env (v_ea v) (v_cmdinfo v) (v_args v)))"
      using sub build_cmdline_str_line [OF none] by simp
    ultimately show "\<exists>b. nvim_cmd env c opts = Inr b \<and> sublist ''silent! '' (b_cmdline b)"
      by blast
  qed
  moreover have "\<forall>s1 s2 b1 b2 ea0 cm0.
             api_object_to_bool env s1 (quoted ''mods.silent'') False = Inr b1
             \<and> api_object_to_bool env s2 (quoted ''mods.silent'') False = Inr b2 \<longrightarrow>
             apply_mods env ea0 cm0 (mods \<lparr> mods_silent := s1 \<rparr>)
               = apply_mods env ea0 cm0 (mods \<lparr> mods_silent := s2 \<rparr>)"
    using apply_mods_silent [OF assms(4)] by blast
  ultimately show ?thesis
    using s errsilent_tokens [OF e] line sub by blast
qed

theorem C4_errsilent_forces_silent_witness:
  "nvim_cmd_validate sample_env ((cmd_only ''put'') \<lparr> cmd_mods := DICTIONARY_OBJ
        [(''emsg_silent'', BOOLEAN_OBJ True), (''silent'', BOOLEAN_OBJ False),
         (''unsilent'', BOOLEAN_OBJ True)] \<rparr>) no_opts
     = Inr (projr (nvim_cmd_validate sample_env ((cmd_only ''put'') \<lparr> cmd_mods := DICTIONARY_OBJ
        [(''emsg_silent'', BOOLEAN_OBJ True), (''silent'', BOOLEAN_OBJ False),
         (''unsilent'', BOOLEAN_OBJ True)] \<rparr>) no_opts))
   \<and> api_object_to_bool sample_env (mods_emsg_silent (projr (keydict_cmd_mods sample_env
        [(''emsg_silent'', BOOLEAN_OBJ True), (''silent'', BOOLEAN_OBJ False),
         (''unsilent'', BOOLEAN_OBJ True)]))) (quoted ''mods.emsg_silent'') False = Inr True
   \<and> CMOD_SILENT \<in> cmod_flags (cmdmod (v_cmdinfo (projr (nvim_cmd_validate sample_env
        ((cmd_only ''put'') \<lparr> cmd_mods := DICTIONARY_OBJ
        [(''emsg_silent'', BOOLEAN_OBJ True), (''silent'', BOOLEAN_OBJ False),
         (''unsilent'', BOOLEAN_OBJ True)] \<rparr>) no_opts))))
   \<and> ''silent '' \<notin> set (cmdmod_tokens (cmdmod (v_cmdinfo (projr (nvim_cmd_validate sample_env
        ((cmd_only ''put'') \<lparr> cmd_mods := DICTIONARY_OBJ
        [(''emsg_silent'', BOOLEAN_OBJ True), (''silent'', BOOLEAN_OBJ False),
         (''unsilent'', BOOLEAN_OBJ True)] \<rparr>) no_opts)))))
   \<and> (\<forall>ea' a. replace_makeprg sample_env ea' a = None)
   \<and> (\<exists>b. nvim_cmd sample_env ((cmd_only ''put'') \<lparr> cmd_mods := DICTIONARY_OBJ
        [(''emsg_silent'', BOOLEAN_OBJ True), (''silent'', BOOLEAN_OBJ False),
         (''unsilent'', BOOLEAN_OBJ True)] \<rparr>) no_opts = Inr b
        \<and> sublist ''silent! '' (b_cmdline b))
   \<and> map_sum id b_cmdline (nvim_cmd sample_env ((cmd_only ''put'') \<lparr> cmd_mods := DICTIONARY_OBJ
        [(''emsg_silent'', BOOLEAN_OBJ True), (''silent'', BOOLEAN_OBJ False),
         (''unsilent'', BOOLEAN_OBJ True)] \<rparr>) no_opts) = Inr ''silent! unsilent put''
   \<and> api_object_to_bool sample_env (BOOLEAN_OBJ False) (quoted ''mods.silent'') False = Inr False
   \<and> api_object_to_bool sample_env (BOOLEAN_OBJ True) (quoted ''mods.silent'') False = Inr True
   \<and> apply_mods sample_env exarg_clear cmdmod_clear
        ((projr (keydict_cmd_mods sample_env
           [(''emsg_silent'', BOOLEAN_OBJ True), (''silent'', BOOLEAN_OBJ False),
            (''unsilent'', BOOLEAN_OBJ True)])) \<lparr> mods_silent := BOOLEAN_OBJ False \<rparr>)
       = apply_mods sample_env exarg_clear cmdmod_clear
        ((projr (keydict_cmd_mods sample_env
           [(''emsg_silent'', BOOLEAN_OBJ True), (''silent'', BOOLEAN_OBJ False),
            (''unsilent'', BOOLEAN_OBJ True)])) \<lparr> mods_silent := BOOLEAN_OBJ True \<rparr>)"
proof -
  let ?d = "[(''emsg_silent'', BOOLEAN_OBJ True), (''silent'', BOOLEAN_OBJ False),
         (''unsilent'', BOOLEAN_OBJ True)]"
  let ?c = "(cmd_only ''put'') \<lparr> cmd_mods := DICTIONARY_OBJ ?d \<rparr>"
  let ?r = "nvim_cmd_validate sample_env ?c no_opts"
  let ?m = "projr (keydict_cmd_mods sample_env ?d)"
  have "\<not> isl ?r" by code_simp
  then have h1: "?r = Inr (projr ?r)" by simp
  have h2: "cmd_mods ?c = DICTIONARY_OBJ ?d" by simp
  have h3: "keydict_cmd_mods sample_env ?d = Inr ?m"
    by (simp add: sample_env_def sample_keydict_mods_def)
  have h4: "api_object_to_bool sample_env (mods_emsg_silent ?m) (quoted ''mods.emsg_silent'') False
      = Inr True" by code_simp
  have h5: "\<forall>ea' a. replace_makeprg sample_env ea' a = None" by (simp add: sample_env_def)
  note inst = C4_errsilent_forces_silent [OF h1 h2 h3 h4]
  from inst have r1: "CMOD_SILENT \<in> cmod_flags (cmdmod (v_cmdinfo (projr ?r)))"
    by (rule conjunct1)
  from inst have r2: "''silent '' \<notin> set (cmdmod_tokens (cmdmod (v_cmdinfo (projr ?r))))"
    by blast
  from inst h5 have r3: "\<exists>b. nvim_cmd sample_env ?c no_opts = Inr b
        \<and> sublist ''silent! '' (b_cmdline b)" by blast
  have ev: "map_sum id b_cmdline (nvim_cmd sample_env ?c no_opts) = Inr ''silent! unsilent put''"
    by code_simp
  have s1: "api_object_to_bool sample_env (BOOLEAN_OBJ False) (quoted ''mods.silent'') False
      = Inr False"
    and s2: "api_object_to_bool sample_env (BOOLEAN_OBJ True) (quoted ''mods.silent'') False
      = Inr True"
    by (simp_all add: sample_env_def sample_object_to_bool_def)
  from inst s1 s2
  have r4: "apply_mods sample_env exarg_clear cmdmod_clear (?m \<lparr> mods_silent := BOOLEAN_OBJ False \<rparr>)
      = apply_mods sample_env exarg_clear cmdmod_clear (?m \<lparr> mods_silent := BOOLEAN_OBJ True \<rparr>)"
    by blast
  from h1 h4 r1 r2 h5 r3 ev s1 s2 r4 show ?thesis by blast
qed

section \<open>The sentinel \<^verbatim>\<open>-1\<close> for \<^verbatim>\<open>tab\<close> and \<^verbatim>\<open>verbose\<close>\<close>

lemma mods_flags_step_tab:
  "mods_flags_step env ea cm (mods \<lparr> mods_tab := x \<rparr>) = mods_flags_step env ea cm mods"
  by (simp add: mods_flags_step_def cmod_flag_table_def)

lemma mods_flags_step_verbose:
  "mods_flags_step env ea cm (mods \<lparr> mods_verbose := x \<rparr>) = mods_flags_step env ea cm mods"
  by (simp add: mods_flags_step_def cmod_flag_table_def)

lemma apply_mods_tab_minus_one:
  "apply_mods env ea cm (mods \<lparr> mods_tab := INTEGER_OBJ (- 1) \<rparr>)
     = apply_mods env ea cm (mods \<lparr> mods_tab := NIL \<rparr>)"
  by (simp add: apply_mods_def mods_tab_step_minus_one mods_flags_step_tab)

lemma apply_mods_verbose_minus_one:
  "apply_mods env ea cm (mods \<lparr> mods_verbose := INTEGER_OBJ (- 1) \<rparr>)
     = apply_mods env ea cm (mods \<lparr> mods_verbose := NIL \<rparr>)"
  by (simp add: apply_mods_def mods_verbose_step_minus_one mods_flags_step_verbose)

lemma apply_mods_tab_dropped:
  assumes "apply_mods env ea cm mods = Inr cm'" and "mods_tab mods = INTEGER_OBJ (- 1)"
  shows "cmod_tab cm' = cmod_tab cm"
proof -
  from apply_mods_stages [OF assms(1)] obtain cm1 cm2 cm3 cm4 cm5 cm6 where
    s1: "mods_filter_step env cm (mods_filter mods) = Inr cm1" and
    s2: "mods_tab_step cm1 (mods_tab mods) = Inr cm2" and
    s3: "mods_verbose_step cm2 (mods_verbose mods) = Inr cm3" and
    s4: "mods_wsp_step env WSP_VERT (quoted ''mods.vertical'') cm3 (mods_vertical mods) = Inr cm4" and
    s5: "mods_wsp_step env WSP_HOR (quoted ''mods.horizontal'') cm4 (mods_horizontal mods) = Inr cm5" and
    s6: "mods_split_step cm5 (mods_split mods) = Inr cm6" and
    s7: "mods_flags_step env ea cm6 mods = Inr cm'"
    by blast
  from s2 assms(2) have "cm2 = cm1"
    by (simp add: mods_tab_step_def HAS_KEY_def to_int_minus_one)
  with mods_filter_step_frame [OF s1] mods_verbose_step_frame [OF s3]
    mods_wsp_step_frame [OF s4] mods_wsp_step_frame [OF s5] mods_split_step_frame [OF s6]
    mods_flags_step_frame [OF s7]
  show ?thesis by simp
qed

lemma apply_mods_verbose_dropped:
  assumes "apply_mods env ea cm mods = Inr cm'" and "mods_verbose mods = INTEGER_OBJ (- 1)"
  shows "cmod_verbose cm' = cmod_verbose cm"
proof -
  from apply_mods_stages [OF assms(1)] obtain cm1 cm2 cm3 cm4 cm5 cm6 where
    s1: "mods_filter_step env cm (mods_filter mods) = Inr cm1" and
    s2: "mods_tab_step cm1 (mods_tab mods) = Inr cm2" and
    s3: "mods_verbose_step cm2 (mods_verbose mods) = Inr cm3" and
    s4: "mods_wsp_step env WSP_VERT (quoted ''mods.vertical'') cm3 (mods_vertical mods) = Inr cm4" and
    s5: "mods_wsp_step env WSP_HOR (quoted ''mods.horizontal'') cm4 (mods_horizontal mods) = Inr cm5" and
    s6: "mods_split_step cm5 (mods_split mods) = Inr cm6" and
    s7: "mods_flags_step env ea cm6 mods = Inr cm'"
    by blast
  from s3 assms(2) have "cm3 = cm2"
    by (simp add: mods_verbose_step_def HAS_KEY_def to_int_minus_one)
  with mods_filter_step_frame [OF s1] mods_tab_step_frame [OF s2]
    mods_wsp_step_frame [OF s4] mods_wsp_step_frame [OF s5] mods_split_step_frame [OF s6]
    mods_flags_step_frame [OF s7]
  show ?thesis by simp
qed

lemma map_of_PUT:
  "map_of (PUT d k v) k' =
     (case map_of d k' of Some x \<Rightarrow> Some x | None \<Rightarrow> (if k' = k then Some v else None))"
  by (simp add: PUT_def map_add_def split: option.splits)

lemma parse_result_mods:
  "map_of (parse_result env ea ci args) ''mods'' = Some (DICTIONARY_OBJ (parse_mods (cmdmod ci)))"
  by (simp add: parse_result_def Let_def map_of_PUT)

lemma parse_result_args:
  "map_of (parse_result env ea ci args) ''args'' = Some (ARRAY_OBJ (map STRING_OBJ args))"
  by (simp add: parse_result_def Let_def map_of_PUT)

lemma nvim_parse_cmd_result:
  assumes "nvim_parse_cmd env line opts = Some (Inr dict)"
    and "parse_cmdline env (cstr line) = Inr (ea, ci)"
  shows "\<exists>args. parse_args env ea = Some args \<and> dict = parse_result env ea ci args"
  using assms
  by (auto simp: nvim_parse_cmd_def VALIDATION_ERROR_def split: if_splits option.splits)

lemma parse_mods_tab:
  "cmod_tab cm = 0 \<Longrightarrow> map_of (parse_mods cm) ''tab'' = Some (INTEGER_OBJ (- 1))"
  by (simp add: parse_mods_def)

lemma parse_mods_verbose:
  "cmod_verbose cm = 0 \<Longrightarrow> map_of (parse_mods cm) ''verbose'' = Some (INTEGER_OBJ (- 1))"
  by (simp add: parse_mods_def)

subsection \<open>Reading the modifiers back\<close>

lemma is_digit_digit_char: "d < 10 \<Longrightarrow> is_digit (digit_char d)"
  by (simp add: is_digit_def digit_char_def)

lemma dec_nat_digits: "x \<in> set (dec_nat n) \<Longrightarrow> is_digit x"
proof (induction n arbitrary: x rule: dec_nat.induct)
  case (1 n)
  show ?case
  proof (cases "n < 10")
    case True
    with "1.prems" show ?thesis by (simp add: dec_nat.simps [of n] is_digit_digit_char)
  next
    case False
    with "1.prems" have "x \<in> set (dec_nat (n div 10)) \<or> x = digit_char (n mod 10)"
      by (auto simp: dec_nat.simps [of n])
    with 1 False show ?thesis by (auto simp: is_digit_digit_char)
  qed
qed

lemma dec_nat_not_Nil: "dec_nat n \<noteq> []"
  using dec_nat_first [of n] by auto

lemma is_digit_not_NUL: "is_digit c \<Longrightarrow> c \<noteq> NUL"
  by (auto simp: is_digit_def)

lemma PRId_no_NUL: "NUL \<notin> set (PRId i)"
  using dec_nat_digits is_digit_not_NUL by (auto simp: PRId_def)

lemma takeWhile_numeral:
  "\<not> is_digit c \<Longrightarrow> takeWhile is_digit (dec_nat n @ c # s) = dec_nat n"
  using dec_nat_digits by (simp add: takeWhile_append2)

lemma dropWhile_numeral:
  "\<not> is_digit c \<Longrightarrow> dropWhile is_digit (dec_nat n @ c # s) = c # s"
  using dec_nat_digits by (simp add: dropWhile_append2)

lemma count_modifier_numeral:
  "\<not> is_digit c \<Longrightarrow> count_modifier (c # w) (dec_nat n @ c # w @ s) = Some (n, s)"
  by (simp add: count_modifier_def takeWhile_numeral dropWhile_numeral dec_nat_not_Nil
      nat_of_dec_dec_nat)

lemma count_modifier_other:
  "\<not> is_digit c \<Longrightarrow> \<not> prefix word (c # s) \<Longrightarrow> count_modifier word (dec_nat n @ c # s) = None"
  by (simp add: count_modifier_def takeWhile_numeral dropWhile_numeral)

lemma modifier_at_tab_token:
  "modifier_at (dec_nat n @ ''tab '' @ s) = Some (\<lambda>cm. cm \<lparr> cmod_tab := of_nat n + 1 \<rparr>, s)"
proof -
  have "\<not> is_digit (CHR ''t'')" by (simp add: is_digit_def)
  from count_modifier_numeral [OF this, of "''ab ''" n s] show ?thesis
    by (simp add: modifier_at_def)
qed

lemma modifier_at_verbose_token:
  "modifier_at (dec_nat n @ ''verbose '' @ s)
     = Some (\<lambda>cm. cm \<lparr> cmod_verbose := of_nat n + 1 \<rparr>, s)"
proof -
  have v: "\<not> is_digit (CHR ''v'')" by (simp add: is_digit_def)
  from count_modifier_other [OF v, of "''tab ''" "''erbose '' @ s" n]
  have "count_modifier ''tab '' (dec_nat n @ ''verbose '' @ s) = None" by simp
  with count_modifier_numeral [OF v, of "''erbose ''" n s] show ?thesis
    by (simp add: modifier_at_def)
qed

text \<open>A word of the table, at the start of a text, is the modifier read there.\<close>

lemma modifier_at_word:
  "(w, f) \<in> set modifier_words \<Longrightarrow> modifier_at (w @ s) = Some (f, s)"
  by (auto simp: modifier_words_def modifier_at_def count_modifier_def is_digit_def)

lemma modifier_words_keep:
  "(w, f) \<in> set modifier_words \<Longrightarrow>
     cmod_tab (f cm) = cmod_tab cm \<and> cmod_verbose (f cm) = cmod_verbose cm"
  by (auto simp: modifier_words_def add_cmod_flags_def add_cmod_split_def)

lemma modifier_words_no_NUL: "(w, f) \<in> set modifier_words \<Longrightarrow> NUL \<notin> set w"
  by (auto simp: modifier_words_def)

text \<open>The words the serializer appends are words of the table.\<close>

lemma append_if_tokens_words:
  assumes "t \<in> set (append_if_tokens cm)"
  shows "t \<in> fst ` set modifier_words"
proof -
  from assms have "t \<in> {''vertical '', ''horizontal '', ''sandbox '', ''noautocmd '',
      ''browse '', ''confirm '', ''hide '', ''keepalt '', ''keepjumps '', ''keepmarks '',
      ''keeppatterns '', ''lockmarks '', ''noswapfile ''}"
    unfolding append_if_tokens_def set_append Un_iff
    by (elim disjE) (drule CMDLINE_APPEND_IF_set, simp)+
  then show ?thesis by (auto simp: modifier_words_def image_iff)
qed

lemma word_tokens_words:
  assumes "t \<in> set (silent_tokens cm @ unsilent_tokens cm @ split_tokens cm @ append_if_tokens cm)"
  shows "t \<in> fst ` set modifier_words"
proof -
  from assms consider "t \<in> set (silent_tokens cm)" | "t \<in> set (unsilent_tokens cm)"
    | "t \<in> set (split_tokens cm)" | "t \<in> set (append_if_tokens cm)" by auto
  then show ?thesis
  proof cases
    case 1
    then have "t \<in> {''silent! '', ''silent ''}"
      by (auto simp: silent_tokens_def split: if_splits)
    then show ?thesis by (auto simp: modifier_words_def image_iff)
  next
    case 2
    then have "t = ''unsilent ''" by (auto simp: unsilent_tokens_def split: if_splits)
    then show ?thesis by (simp add: modifier_words_def image_iff)
  next
    case 3
    then have "t \<in> {''aboveleft '', ''belowright '', ''topleft '', ''botright ''}"
      by (auto simp: split_tokens_def Let_def split: if_splits)
    then show ?thesis by (auto simp: modifier_words_def image_iff)
  next
    case 4
    then show ?thesis by (rule append_if_tokens_words)
  qed
qed

lemma word_token_read:
  assumes "t \<in> set (silent_tokens cm @ unsilent_tokens cm @ split_tokens cm @ append_if_tokens cm)"
  shows "\<exists>f. modifier_at (t @ s) = Some (f, s)
           \<and> (\<forall>cm0. cmod_tab (f cm0) = cmod_tab cm0 \<and> cmod_verbose (f cm0) = cmod_verbose cm0)"
proof -
  from word_tokens_words [OF assms] obtain f where "(t, f) \<in> set modifier_words" by auto
  with modifier_at_word [of t f s] modifier_words_keep [of t f] show ?thesis by blast
qed

lemma word_token_no_NUL:
  assumes "t \<in> set (silent_tokens cm @ unsilent_tokens cm @ split_tokens cm @ append_if_tokens cm)"
  shows "NUL \<notin> set t"
proof -
  from word_tokens_words [OF assms] obtain f where "(t, f) \<in> set modifier_words" by auto
  then show ?thesis by (rule modifier_words_no_NUL)
qed

text \<open>Reading a run of modifiers, each of which leaves a field \<open>g\<close> as it is.\<close>

lemma parse_modifier_tokens:
  assumes "\<And>t s. t \<in> set ts \<Longrightarrow> \<exists>f. modifier_at (t @ s) = Some (f, s) \<and> (\<forall>cm0. g (f cm0) = g cm0)"
  shows "\<exists>cm'. parse_command_modifiers (concat ts @ rest) cm = parse_command_modifiers rest cm'
           \<and> g cm' = g cm"
  using assms
proof (induction ts arbitrary: cm)
  case Nil
  show ?case by auto
next
  case (Cons t ts)
  from Cons.prems [of t "concat ts @ rest"] obtain f where
    f: "modifier_at (t @ concat ts @ rest) = Some (f, concat ts @ rest)"
    and k: "\<And>cm0. g (f cm0) = g cm0" by auto
  from Cons.prems have "\<And>t s. t \<in> set ts \<Longrightarrow>
      \<exists>f. modifier_at (t @ s) = Some (f, s) \<and> (\<forall>cm0. g (f cm0) = g cm0)" by simp
  from Cons.IH [OF this, of "f cm"] obtain cm' where
    "parse_command_modifiers (concat ts @ rest) (f cm) = parse_command_modifiers rest cm'"
    and "g cm' = g (f cm)" by blast
  moreover have "parse_command_modifiers (concat (t # ts) @ rest) cm
      = parse_command_modifiers (concat ts @ rest) (f cm)"
    using f by (subst parse_command_modifiers.simps) simp
  ultimately show ?case using k by auto
qed

lemma parse_no_modifier:
  "modifier_at rest = None \<Longrightarrow> parse_command_modifiers rest cm = (cm, rest)"
  by (subst parse_command_modifiers.simps) simp

lemma sint_pred: "0 < sint (x :: 32 word) \<Longrightarrow> 0 \<le> sint (x - 1)"
proof -
  assume "0 < sint x"
  moreover have "sint x < 2 ^ 31" using sint_lt [of x] by simp
  ultimately have "signed_take_bit 31 (sint x - 1) = sint x - 1"
    by (intro signed_take_bit_int_eq_self) simp_all
  then have "sint (x - 1) = sint x - 1" by (simp add: sint_word_ariths)
  with \<open>0 < sint x\<close> show ?thesis by simp
qed

lemma verbose_token_read:
  assumes "t \<in> set (verbose_tokens cm)"
  shows "\<exists>f. modifier_at (t @ s) = Some (f, s) \<and> (\<forall>cm0. cmod_tab (f cm0) = cmod_tab cm0)"
proof -
  from assms have p: "0 < sint (cmod_verbose cm)"
    and t: "t = PRId (sint (cmod_verbose cm - 1)) @ ''verbose ''"
    by (auto simp: verbose_tokens_def split: if_splits)
  from sint_pred [OF p] t
  have "t @ s = dec_nat (nat (sint (cmod_verbose cm - 1))) @ ''verbose '' @ s"
    by (simp add: PRId_def)
  with modifier_at_verbose_token show ?thesis by simp
qed

lemma tab_token_read:
  assumes "t \<in> set (tab_tokens cm)" and "0 \<le> sint (cmod_tab cm - 1)"
  shows "\<exists>f. modifier_at (t @ s) = Some (f, s)
           \<and> (\<forall>cm0. cmod_verbose (f cm0) = cmod_verbose cm0)"
proof -
  from assms have "t @ s = dec_nat (nat (sint (cmod_tab cm - 1))) @ ''tab '' @ s"
    by (auto simp: tab_tokens_def PRId_def split: if_splits)
  with modifier_at_tab_token show ?thesis by simp
qed

text \<open>
  A line without \<^verbatim>\<open>tab\<close> (resp. \<^verbatim>\<open>verbose\<close>) modifier, followed by a text that does
  not start with a modifier, is read back without one, up to that text.
\<close>

lemma parse_line_tab:
  assumes "cmod_tab cm = 0" and "modifier_at rest = None"
  shows "\<exists>cm'. parse_command_modifiers (concat (cmdmod_tokens cm) @ rest) cmdmod_clear = (cm', rest)
           \<and> cmod_tab cm' = 0"
proof -
  have "\<exists>f. modifier_at (t @ s) = Some (f, s) \<and> (\<forall>cm0. cmod_tab (f cm0) = cmod_tab cm0)"
    if "t \<in> set (cmdmod_tokens cm)" for t s
  proof -
    from that assms(1) consider "t \<in> set (verbose_tokens cm)"
      | "t \<in> set (silent_tokens cm @ unsilent_tokens cm @ split_tokens cm @ append_if_tokens cm)"
      by (auto simp: cmdmod_tokens_def tab_tokens_def)
    then show ?thesis
    proof cases
      case 1
      then show ?thesis by (rule verbose_token_read)
    next
      case 2
      from word_token_read [OF this, of s] show ?thesis by blast
    qed
  qed
  from parse_modifier_tokens [of "cmdmod_tokens cm" cmod_tab rest cmdmod_clear, OF this]
  obtain cm' where "parse_command_modifiers (concat (cmdmod_tokens cm) @ rest) cmdmod_clear
      = parse_command_modifiers rest cm'" and "cmod_tab cm' = cmod_tab cmdmod_clear" by blast
  with parse_no_modifier [OF assms(2), of cm'] show ?thesis
    by (simp add: cmdmod_clear_def)
qed

lemma parse_line_verbose:
  assumes "cmod_verbose cm = 0" and "cmod_tab cm = 0 \<or> 0 \<le> sint (cmod_tab cm - 1)"
    and "modifier_at rest = None"
  shows "\<exists>cm'. parse_command_modifiers (concat (cmdmod_tokens cm) @ rest) cmdmod_clear = (cm', rest)
           \<and> cmod_verbose cm' = 0"
proof -
  have "\<exists>f. modifier_at (t @ s) = Some (f, s) \<and> (\<forall>cm0. cmod_verbose (f cm0) = cmod_verbose cm0)"
    if "t \<in> set (cmdmod_tokens cm)" for t s
  proof -
    from that assms(1) consider "t \<in> set (tab_tokens cm)"
      | "t \<in> set (silent_tokens cm @ unsilent_tokens cm @ split_tokens cm @ append_if_tokens cm)"
      by (auto simp: cmdmod_tokens_def verbose_tokens_def)
    then show ?thesis
    proof cases
      case 1
      with assms(2) have "0 \<le> sint (cmod_tab cm - 1)" by (auto simp: tab_tokens_def)
      with 1 show ?thesis by (rule tab_token_read)
    next
      case 2
      from word_token_read [OF this, of s] show ?thesis by blast
    qed
  qed
  from parse_modifier_tokens [of "cmdmod_tokens cm" cmod_verbose rest cmdmod_clear, OF this]
  obtain cm' where "parse_command_modifiers (concat (cmdmod_tokens cm) @ rest) cmdmod_clear
      = parse_command_modifiers rest cm'" and "cmod_verbose cm' = cmod_verbose cmdmod_clear"
    by blast
  with parse_no_modifier [OF assms(3), of cm'] show ?thesis
    by (simp add: cmdmod_clear_def)
qed

subsection \<open>The serialized line holds no NUL\<close>

lemma cstr_no_NUL: "NUL \<notin> set (cstr s)"
  by (auto simp: cstr_def dest: set_takeWhileD)

lemma cstr_whole: "NUL \<notin> set s \<Longrightarrow> cstr s = s"
  by (auto simp: cstr_def takeWhile_eq_all_conv)

lemma convert_arg_no_NUL: "convert_arg env x = Inr a \<Longrightarrow> NUL \<notin> set a"
  by (cases x) (auto simp: convert_arg_def PRId_no_NUL cstr_no_NUL split: if_splits)

lemma convert_args_no_NUL:
  "convert_args env items = Inr args \<Longrightarrow> a \<in> set args \<Longrightarrow> NUL \<notin> set a"
proof (induction items arbitrary: args)
  case Nil
  then show ?case by simp
next
  case (Cons x xs)
  from Cons.prems(1) obtain s ss where s: "convert_arg env x = Inr s"
    and ss: "convert_args env xs = Inr ss" and args: "args = s # ss"
    by (auto simp: and_then_eq_Inr)
  from Cons.prems(2) args have "a = s \<or> a \<in> set ss" by simp
  then show ?case using convert_arg_no_NUL [OF s] Cons.IH [OF ss] by blast
qed

lemma check_args_no_NUL:
  "check_args env ea x = Inr args \<Longrightarrow> a \<in> set args \<Longrightarrow> NUL \<notin> set a"
  by (cases x)
    (auto simp: check_args_def HAS_KEY_def and_then_eq_Inr split: if_splits
          dest: convert_args_no_NUL)

lemma check_cmd_name_no_NUL: "check_cmd_name x = Inr n \<Longrightarrow> NUL \<notin> set n"
  by (cases x) (auto simp: check_cmd_name_def cstr_no_NUL split: if_splits)

lemma cmdmod_tokens_no_NUL: "t \<in> set (cmdmod_tokens cm) \<Longrightarrow> NUL \<notin> set t"
proof -
  assume "t \<in> set (cmdmod_tokens cm)"
  then consider "t \<in> set (tab_tokens cm)" | "t \<in> set (verbose_tokens cm)"
    | "t \<in> set (silent_tokens cm @ unsilent_tokens cm @ split_tokens cm @ append_if_tokens cm)"
    by (auto simp: cmdmod_tokens_def)
  then show ?thesis
  proof cases
    case 1
    then show ?thesis by (auto simp: tab_tokens_def PRId_no_NUL split: if_splits)
  next
    case 2
    then show ?thesis by (auto simp: verbose_tokens_def PRId_no_NUL split: if_splits)
  next
    case 3
    then show ?thesis by (rule word_token_no_NUL)
  qed
qed

lemma range_tokens_no_NUL: "t \<in> set (range_tokens ea) \<Longrightarrow> NUL \<notin> set t"
  by (auto simp: range_tokens_def PRId_no_NUL split: if_splits)

lemma name_tokens_no_NUL: "NUL \<notin> set (cmd ea) \<Longrightarrow> t \<in> set (name_tokens ea) \<Longrightarrow> NUL \<notin> set t"
  by (auto simp: name_tokens_def split: if_splits)

lemma arg_tokens_no_NUL:
  "\<forall>a\<in>set args. NUL \<notin> set a \<Longrightarrow> t \<in> set (arg_tokens args) \<Longrightarrow> NUL \<notin> set t"
  by (induction args) (auto simp: arg_tokens_def)

lemma cmdline_str_text:
  "cmdline_str ea ci args = concat (cmdmod_tokens (cmdmod ci)) @ command_text ea args"
  by (simp add: cmdline_str_def command_text_def)

lemma validated_line_no_NUL:
  assumes "nvim_cmd_validate env c opts = Inr v"
  shows "cstr (cmdline_str (v_ea v) (v_cmdinfo v) (v_args v))
           = cmdline_str (v_ea v) (v_cmdinfo v) (v_args v)"
proof -
  from validated_contract [OF assms] obtain cmdname ea0 where
    n: "check_cmd_name (cmd_cmd c) = Inr cmdname" and
    a: "check_args env ea0 (cmd_args c) = Inr (v_args v)" and
    e: "cmd (v_ea v) = cmdname"
    by blast
  from check_cmd_name_no_NUL [OF n] e have c: "NUL \<notin> set (cmd (v_ea v))" by simp
  have "NUL \<notin> set t"
    if "t \<in> set (cmdmod_tokens (cmdmod (v_cmdinfo v)) @ range_tokens (v_ea v)
              @ name_tokens (v_ea v) @ arg_tokens (v_args v))" for t
  proof -
    from check_args_no_NUL [OF a] have "\<forall>a\<in>set (v_args v). NUL \<notin> set a" by blast
    from that cmdmod_tokens_no_NUL range_tokens_no_NUL name_tokens_no_NUL [OF c]
      arg_tokens_no_NUL [OF this]
    show ?thesis by auto
  qed
  then have "NUL \<notin> set (cmdline_str (v_ea v) (v_cmdinfo v) (v_args v))"
    unfolding cmdline_str_def by auto
  then show ?thesis by (rule cstr_whole)
qed

subsection \<open>The modifiers of a validated command\<close>

lemma mods_tab_step_range:
  "mods_tab_step cm t = Inr cm' \<Longrightarrow> cmod_tab cm' = cmod_tab cm \<or> 0 \<le> sint (cmod_tab cm' - 1)"
  by (cases t) (auto simp: mods_tab_step_def HAS_KEY_def split: if_splits)

lemma apply_mods_tab_range:
  assumes "apply_mods env ea cm mods = Inr cm'"
  shows "cmod_tab cm' = cmod_tab cm \<or> 0 \<le> sint (cmod_tab cm' - 1)"
proof -
  from apply_mods_stages [OF assms] obtain cm1 cm2 cm3 cm4 cm5 cm6 where
    s1: "mods_filter_step env cm (mods_filter mods) = Inr cm1" and
    s2: "mods_tab_step cm1 (mods_tab mods) = Inr cm2" and
    s3: "mods_verbose_step cm2 (mods_verbose mods) = Inr cm3" and
    s4: "mods_wsp_step env WSP_VERT (quoted ''mods.vertical'') cm3 (mods_vertical mods) = Inr cm4" and
    s5: "mods_wsp_step env WSP_HOR (quoted ''mods.horizontal'') cm4 (mods_horizontal mods) = Inr cm5" and
    s6: "mods_split_step cm5 (mods_split mods) = Inr cm6" and
    s7: "mods_flags_step env ea cm6 mods = Inr cm'"
    by blast
  from mods_verbose_step_frame [OF s3] mods_wsp_step_frame [OF s4] mods_wsp_step_frame [OF s5]
    mods_split_step_frame [OF s6] mods_flags_step_frame [OF s7]
  have "cmod_tab cm' = cmod_tab cm2" by simp
  with mods_tab_step_range [OF s2] mods_filter_step_frame [OF s1] show ?thesis by auto
qed

lemma validated_tab_range:
  assumes "nvim_cmd_validate env c opts = Inr v"
  shows "cmod_tab (cmdmod (v_cmdinfo v)) = 0 \<or> 0 \<le> sint (cmod_tab (cmdmod (v_cmdinfo v)) - 1)"
proof -
  from nvim_cmd_validate_stages [OF assms] obtain ea4 cmdinfo where
    m: "check_magic env ea4 cmdinfo_clear (cmd_magic c) = Inr (v_ea v, cmdinfo)" and
    k: "check_mods env (v_ea v) cmdinfo (cmd_mods c) = Inr (v_cmdinfo v)"
    by blast
  from check_magic_frame [OF m] have z: "cmdmod cmdinfo = cmdmod_clear"
    by (simp add: cmdinfo_clear_def)
  show ?thesis
  proof (cases "HAS_KEY (cmd_mods c)")
    case False
    with k have "v_cmdinfo v = cmdinfo" by (simp add: check_mods_def)
    with z show ?thesis by (simp add: cmdmod_clear_def)
  next
    case True
    with k obtain d mods where "cmd_mods c = DICTIONARY_OBJ d" "keydict_cmd_mods env d = Inr mods"
      by (cases "cmd_mods c") (auto simp: check_mods_def and_then_eq_Inr)
    from validated_mods [OF assms this]
    have "apply_mods env (v_ea v) cmdmod_clear mods = Inr (cmdmod (v_cmdinfo v))" .
    from apply_mods_tab_range [OF this] show ?thesis by (simp add: cmdmod_clear_def)
  qed
qed

subsection \<open>What \<^verbatim>\<open>nvim_parse_cmd\<close> reports\<close>

lemma nvim_parse_cmd_mods_result:
  assumes "parse_command_modifiers (cstr line) cmdmod_clear = (cm, rest)"
    and "nvim_parse_cmd (penv \<lparr> parse_cmdline := parse_cmdline_mods parse_command \<rparr>) line []
           = Some (Inr dict)"
  shows "map_of dict ''mods'' = Some (DICTIONARY_OBJ (parse_mods cm))"
  using assms
  by (auto simp: nvim_parse_cmd_def parse_cmdline_mods_def parse_result_mods
           split: sum.splits option.splits)

lemma parse_args_tokenizer:
  "parse_args (penv \<lparr> parse_cmdline := x \<rparr>) ea = parse_args penv ea"
  by (simp add: parse_args_def)

lemma nvim_parse_cmd_mods_returns:
  assumes "parse_command_modifiers (cstr line) cmdmod_clear = (cm, rest)"
    and "parse_command rest = Inr (pea, pci)" and "parse_args penv pea = Some args"
  shows "\<exists>dict. nvim_parse_cmd (penv \<lparr> parse_cmdline := parse_cmdline_mods parse_command \<rparr>) line []
           = Some (Inr dict)"
  using assms by (simp add: nvim_parse_cmd_def parse_cmdline_mods_def parse_args_tokenizer)

lemma mods_entry_tab:
  "map_of dict ''mods'' = Some (DICTIONARY_OBJ (parse_mods cm)) \<Longrightarrow> cmod_tab cm = 0 \<Longrightarrow>
     mods_entry dict ''tab'' = Some (INTEGER_OBJ (- 1))"
  by (simp add: mods_entry_def parse_mods_tab)

lemma mods_entry_verbose:
  "map_of dict ''mods'' = Some (DICTIONARY_OBJ (parse_mods cm)) \<Longrightarrow> cmod_verbose cm = 0 \<Longrightarrow>
     mods_entry dict ''verbose'' = Some (INTEGER_OBJ (- 1))"
  by (simp add: mods_entry_def parse_mods_verbose)

text \<open>The round trip, for the line of a validated command read by the modelled tokenizer.\<close>

lemma tab_round_trip:
  assumes v: "nvim_cmd_validate env c opts = Inr v"
    and z: "cmod_tab (cmdmod (v_cmdinfo v)) = 0"
    and n: "modifier_at (command_text (v_ea v) (v_args v)) = None"
  shows "cmod_tab (fst (parse_command_modifiers
             (cmdline_str (v_ea v) (v_cmdinfo v) (v_args v)) cmdmod_clear)) = 0"
    and "snd (parse_command_modifiers (cmdline_str (v_ea v) (v_cmdinfo v) (v_args v)) cmdmod_clear)
           = command_text (v_ea v) (v_args v)"
    and "nvim_parse_cmd (penv \<lparr> parse_cmdline := parse_cmdline_mods parse_command \<rparr>)
             (cmdline_str (v_ea v) (v_cmdinfo v) (v_args v)) [] = Some (Inr dict)
           \<Longrightarrow> mods_entry dict ''tab'' = Some (INTEGER_OBJ (- 1))"
    and "parse_command (command_text (v_ea v) (v_args v)) = Inr (pea, pci)
           \<Longrightarrow> parse_args penv pea = Some args
           \<Longrightarrow> \<exists>dict. nvim_parse_cmd (penv \<lparr> parse_cmdline := parse_cmdline_mods parse_command \<rparr>)
                    (cmdline_str (v_ea v) (v_cmdinfo v) (v_args v)) [] = Some (Inr dict)
                  \<and> mods_entry dict ''tab'' = Some (INTEGER_OBJ (- 1))"
proof -
  let ?line = "cmdline_str (v_ea v) (v_cmdinfo v) (v_args v)"
  let ?penv = "penv \<lparr> parse_cmdline := parse_cmdline_mods parse_command \<rparr>"
  from parse_line_tab [OF z n] obtain cm' where
    p: "parse_command_modifiers ?line cmdmod_clear = (cm', command_text (v_ea v) (v_args v))"
    and t: "cmod_tab cm' = 0"
    by (auto simp: cmdline_str_text)
  from p t show "cmod_tab (fst (parse_command_modifiers ?line cmdmod_clear)) = 0" by simp
  from p show "snd (parse_command_modifiers ?line cmdmod_clear)
      = command_text (v_ea v) (v_args v)" by simp
  from p have pc: "parse_command_modifiers (cstr ?line) cmdmod_clear
      = (cm', command_text (v_ea v) (v_args v))"
    by (simp add: validated_line_no_NUL [OF v])
  {
    assume "nvim_parse_cmd ?penv ?line [] = Some (Inr dict)"
    from nvim_parse_cmd_mods_result [OF pc this] t
    show "mods_entry dict ''tab'' = Some (INTEGER_OBJ (- 1))" by (rule mods_entry_tab)
  }
  {
    assume "parse_command (command_text (v_ea v) (v_args v)) = Inr (pea, pci)"
      and "parse_args penv pea = Some args"
    from nvim_parse_cmd_mods_returns [where parse_command = parse_command, OF pc this]
    obtain dict0 where
      d: "nvim_parse_cmd ?penv ?line [] = Some (Inr dict0)" ..
    from nvim_parse_cmd_mods_result [OF pc d] t
    have "mods_entry dict0 ''tab'' = Some (INTEGER_OBJ (- 1))" by (rule mods_entry_tab)
    with d show "\<exists>dict. nvim_parse_cmd ?penv ?line [] = Some (Inr dict)
        \<and> mods_entry dict ''tab'' = Some (INTEGER_OBJ (- 1))" by blast
  }
qed

lemma verbose_round_trip:
  assumes v: "nvim_cmd_validate env c opts = Inr v"
    and z: "cmod_verbose (cmdmod (v_cmdinfo v)) = 0"
    and n: "modifier_at (command_text (v_ea v) (v_args v)) = None"
  shows "cmod_verbose (fst (parse_command_modifiers
             (cmdline_str (v_ea v) (v_cmdinfo v) (v_args v)) cmdmod_clear)) = 0"
    and "snd (parse_command_modifiers (cmdline_str (v_ea v) (v_cmdinfo v) (v_args v)) cmdmod_clear)
           = command_text (v_ea v) (v_args v)"
    and "nvim_parse_cmd (penv \<lparr> parse_cmdline := parse_cmdline_mods parse_command \<rparr>)
             (cmdline_str (v_ea v) (v_cmdinfo v) (v_args v)) [] = Some (Inr dict)
           \<Longrightarrow> mods_entry dict ''verbose'' = Some (INTEGER_OBJ (- 1))"
    and "parse_command (command_text (v_ea v) (v_args v)) = Inr (pea, pci)
           \<Longrightarrow> parse_args penv pea = Some args
           \<Longrightarrow> \<exists>dict. nvim_parse_cmd (penv \<lparr> parse_cmdline := parse_cmdline_mods parse_command \<rparr>)
                    (cmdline_str (v_ea v) (v_cmdinfo v) (v_args v)) [] = Some (Inr dict)
                  \<and> mods_entry dict ''verbose'' = Some (INTEGER_OBJ (- 1))"
proof -
  let ?line = "cmdline_str (v_ea v) (v_cmdinfo v) (v_args v)"
  let ?penv = "penv \<lparr> parse_cmdline := parse_cmdline_mods parse_command \<rparr>"
  from parse_line_verbose [OF z validated_tab_range [OF v] n] obtain cm' where
    p: "parse_command_modifiers ?line cmdmod_clear = (cm', command_text (v_ea v) (v_args v))"
    and t: "cmod_verbose cm' = 0"
    by (auto simp: cmdline_str_text)
  from p t show "cmod_verbose (fst (parse_command_modifiers ?line cmdmod_clear)) = 0" by simp
  from p show "snd (parse_command_modifiers ?line cmdmod_clear)
      = command_text (v_ea v) (v_args v)" by simp
  from p have pc: "parse_command_modifiers (cstr ?line) cmdmod_clear
      = (cm', command_text (v_ea v) (v_args v))"
    by (simp add: validated_line_no_NUL [OF v])
  {
    assume "nvim_parse_cmd ?penv ?line [] = Some (Inr dict)"
    from nvim_parse_cmd_mods_result [OF pc this] t
    show "mods_entry dict ''verbose'' = Some (INTEGER_OBJ (- 1))" by (rule mods_entry_verbose)
  }
  {
    assume "parse_command (command_text (v_ea v) (v_args v)) = Inr (pea, pci)"
      and "parse_args penv pea = Some args"
    from nvim_parse_cmd_mods_returns [where parse_command = parse_command, OF pc this]
    obtain dict0 where
      d: "nvim_parse_cmd ?penv ?line [] = Some (Inr dict0)" ..
    from nvim_parse_cmd_mods_result [OF pc d] t
    have "mods_entry dict0 ''verbose'' = Some (INTEGER_OBJ (- 1))" by (rule mods_entry_verbose)
    with d show "\<exists>dict. nvim_parse_cmd ?penv ?line [] = Some (Inr dict)
        \<and> mods_entry dict ''verbose'' = Some (INTEGER_OBJ (- 1))" by blast
  }
qed

subsection \<open>Commands that are not named like a modifier\<close>

lemma modifier_words_hd:
  "(w, f) \<in> set modifier_words \<Longrightarrow> w \<noteq> [] \<and> is_lower (hd w)"
  by (auto simp: modifier_words_def is_lower_def)

lemma modifier_words_lower:
  "(w, f) \<in> set modifier_words \<Longrightarrow> \<exists>c cs. w = c # cs \<and> is_lower c"
  using modifier_words_hd [of w f] by (cases w) auto

lemma is_digit_not_lower: "is_digit x \<Longrightarrow> \<not> is_lower x"
  by (auto simp: is_digit_def is_lower_def)

lemma PRId_chars: "x \<in> set (PRId i) \<Longrightarrow> is_digit x \<or> x = CHR ''-''"
  using dec_nat_digits by (auto simp: PRId_def split: if_splits)

lemma range_text_chars:
  "x \<in> set (concat (range_tokens ea)) \<Longrightarrow> is_digit x \<or> x = CHR ''-'' \<or> x = CHR '',''"
  by (auto simp: range_tokens_def dest: PRId_chars split: if_splits)

lemma range_char_not_lower:
  "is_digit x \<or> x = CHR ''-'' \<or> x = CHR '','' \<Longrightarrow> \<not> is_lower x"
  by (auto simp: is_digit_def is_lower_def)

lemma modifier_at_not_lower:
  assumes r: "\<And>x. x \<in> set r \<Longrightarrow> is_digit x \<or> x = CHR ''-'' \<or> x = CHR '',''"
    and c: "\<not> is_lower c" "\<not> is_digit c"
  shows "modifier_at (r @ c # s) = None"
proof -
  have "dropWhile is_digit (r @ c # s) = dropWhile is_digit r @ c # s"
    using c(2) by (rule dropWhile_append3)
  moreover have "\<exists>y ys. dropWhile is_digit r @ c # s = y # ys \<and> \<not> is_lower y"
  proof (cases "dropWhile is_digit r")
    case Nil
    show ?thesis unfolding Nil using c(1) by simp
  next
    case (Cons y ys)
    then have "y \<in> set r" by (metis list.set_intros(1) set_dropWhileD)
    moreover from Cons have "\<not> is_digit y" by (metis hd_dropWhile list.sel(1) list.distinct(1))
    ultimately have "\<not> is_lower y" using r [of y] by (auto simp: is_lower_def)
    with Cons show ?thesis by simp
  qed
  ultimately obtain y ys where d: "dropWhile is_digit (r @ c # s) = y # ys"
    and y: "\<not> is_lower y" by auto
  have n: "count_modifier (t # w) (r @ c # s) = None" if "is_lower t" for t w
    using that d y by (auto simp: count_modifier_def Let_def)
  obtain z zs where z: "r @ c # s = z # zs" and nz: "\<not> is_lower z"
  proof (cases r)
    case Nil
    with c(1) that show ?thesis by simp
  next
    case (Cons x xs)
    with r [of x] have "\<not> is_lower x" by (simp add: range_char_not_lower)
    with Cons that show ?thesis by simp
  qed
  have "\<not> prefix w (z # zs)" if "(w, f) \<in> set modifier_words" for w f
  proof -
    from modifier_words_lower [OF that] obtain c' cs' where "w = c' # cs'" "is_lower c'"
      by blast
    with nz show ?thesis by auto
  qed
  then have "find (\<lambda>(w, f). prefix w (r @ c # s)) modifier_words = None"
    by (auto simp: find_None_iff z)
  moreover have "is_lower (CHR ''t'')" "is_lower (CHR ''v'')" by (simp_all add: is_lower_def)
  ultimately show ?thesis
    using n [of "CHR ''t''" "''ab ''"] n [of "CHR ''v''" "''erbose ''"]
    by (simp add: modifier_at_def)
qed

lemma command_text_not_lower:
  assumes "cmd ea = c # cs" and "\<not> is_lower c" and "\<not> is_digit c"
  shows "modifier_at (command_text ea args) = None"
proof -
  from assms(1) have "command_text ea args
      = concat (range_tokens ea) @ c # (cs @ concat (tl (name_tokens ea) @ arg_tokens args))"
    by (simp add: command_text_def name_tokens_def)
  moreover have "\<And>x. x \<in> set (concat (range_tokens ea)) \<Longrightarrow>
      is_digit x \<or> x = CHR ''-'' \<or> x = CHR '',''"
    by (rule range_text_chars)
  from modifier_at_not_lower [of "concat (range_tokens ea)" c, OF this assms(2,3)]
  have "modifier_at (concat (range_tokens ea)
      @ c # (cs @ concat (tl (name_tokens ea) @ arg_tokens args))) = None" .
  ultimately show ?thesis by simp
qed

text \<open>
  C6.  \<^verbatim>\<open>mods.tab = -1\<close> (and likewise \<^verbatim>\<open>mods.verbose = -1\<close>) is treated exactly as
  an absent key, so it is never a validation error by itself; a validated command
  given \<^verbatim>\<open>-1\<close> has \<^verbatim>\<open>cmod_tab = 0\<close> (resp. \<^verbatim>\<open>cmod_verbose = 0\<close>) and the serializer
  appends no \<^verbatim>\<open>tab\<close> (resp. \<^verbatim>\<open>verbose\<close>) modifier.  The round trip: the line the
  serializer assembles for that command, read by the modelled tokenizer, has its
  modifiers read up to the text of the command and no \<^verbatim>\<open>tab\<close> (resp. \<^verbatim>\<open>verbose\<close>)
  modifier among them, so that every result of \<^verbatim>\<open>nvim_parse_cmd\<close> on that line
  reports \<^verbatim>\<open>-1\<close>, and there is a result whenever the tokenizer of the command
  accepts the text of the command and the splitting of its arguments ends.  This is
  for a command whose text (range, name, arguments) does not itself start with a
  modifier word, as is the case of every command whose name starts with neither a
  lowercase letter nor a digit (a user command).  The line is the one \<^verbatim>\<open>nvim_cmd\<close>
  hands on unless \<^verbatim>\<open>replace_makeprg\<close> substitutes another.
\<close>

theorem C6_negative_sentinel:
  "apply_mods env ea cm (mods \<lparr> mods_tab := INTEGER_OBJ (- 1) \<rparr>)
     = apply_mods env ea cm (mods \<lparr> mods_tab := NIL \<rparr>)
   \<and> apply_mods env ea cm (mods \<lparr> mods_verbose := INTEGER_OBJ (- 1) \<rparr>)
     = apply_mods env ea cm (mods \<lparr> mods_verbose := NIL \<rparr>)
   \<and> (nvim_cmd_validate env c opts = Inr v \<and> cmd_mods c = DICTIONARY_OBJ d
        \<and> keydict_cmd_mods env d = Inr m \<and> mods_tab m = INTEGER_OBJ (- 1) \<longrightarrow>
        cmod_tab (cmdmod (v_cmdinfo v)) = 0 \<and> tab_tokens (cmdmod (v_cmdinfo v)) = [])
   \<and> (nvim_cmd_validate env c opts = Inr v \<and> cmd_mods c = DICTIONARY_OBJ d
        \<and> keydict_cmd_mods env d = Inr m \<and> mods_verbose m = INTEGER_OBJ (- 1) \<longrightarrow>
        cmod_verbose (cmdmod (v_cmdinfo v)) = 0 \<and> verbose_tokens (cmdmod (v_cmdinfo v)) = [])
   \<and> (nvim_cmd_validate env c opts = Inr v \<and> cmd_mods c = DICTIONARY_OBJ d
        \<and> keydict_cmd_mods env d = Inr m \<and> mods_tab m = INTEGER_OBJ (- 1)
        \<and> modifier_at (command_text (v_ea v) (v_args v)) = None \<longrightarrow>
        cmod_tab (fst (parse_command_modifiers
            (cmdline_str (v_ea v) (v_cmdinfo v) (v_args v)) cmdmod_clear)) = 0
        \<and> snd (parse_command_modifiers
            (cmdline_str (v_ea v) (v_cmdinfo v) (v_args v)) cmdmod_clear)
            = command_text (v_ea v) (v_args v)
        \<and> (\<forall>dict. nvim_parse_cmd (penv \<lparr> parse_cmdline := parse_cmdline_mods parse_command \<rparr>)
                     (cmdline_str (v_ea v) (v_cmdinfo v) (v_args v)) [] = Some (Inr dict) \<longrightarrow>
                   mods_entry dict ''tab'' = Some (INTEGER_OBJ (- 1)))
        \<and> (\<forall>pea pci args. parse_command (command_text (v_ea v) (v_args v)) = Inr (pea, pci)
                     \<and> parse_args penv pea = Some args \<longrightarrow>
                   (\<exists>dict. nvim_parse_cmd (penv \<lparr> parse_cmdline := parse_cmdline_mods parse_command \<rparr>)
                             (cmdline_str (v_ea v) (v_cmdinfo v) (v_args v)) [] = Some (Inr dict)
                          \<and> mods_entry dict ''tab'' = Some (INTEGER_OBJ (- 1)))))
   \<and> (nvim_cmd_validate env c opts = Inr v \<and> cmd_mods c = DICTIONARY_OBJ d
        \<and> keydict_cmd_mods env d = Inr m \<and> mods_verbose m = INTEGER_OBJ (- 1)
        \<and> modifier_at (command_text (v_ea v) (v_args v)) = None \<longrightarrow>
        cmod_verbose (fst (parse_command_modifiers
            (cmdline_str (v_ea v) (v_cmdinfo v) (v_args v)) cmdmod_clear)) = 0
        \<and> snd (parse_command_modifiers
            (cmdline_str (v_ea v) (v_cmdinfo v) (v_args v)) cmdmod_clear)
            = command_text (v_ea v) (v_args v)
        \<and> (\<forall>dict. nvim_parse_cmd (penv \<lparr> parse_cmdline := parse_cmdline_mods parse_command \<rparr>)
                     (cmdline_str (v_ea v) (v_cmdinfo v) (v_args v)) [] = Some (Inr dict) \<longrightarrow>
                   mods_entry dict ''verbose'' = Some (INTEGER_OBJ (- 1)))
        \<and> (\<forall>pea pci args. parse_command (command_text (v_ea v) (v_args v)) = Inr (pea, pci)
                     \<and> parse_args penv pea = Some args \<longrightarrow>
                   (\<exists>dict. nvim_parse_cmd (penv \<lparr> parse_cmdline := parse_cmdline_mods parse_command \<rparr>)
                             (cmdline_str (v_ea v) (v_cmdinfo v) (v_args v)) [] = Some (Inr dict)
                          \<and> mods_entry dict ''verbose'' = Some (INTEGER_OBJ (- 1)))))
   \<and> (nvim_cmd_validate env c opts = Inr v \<and> (\<forall>ea' a. replace_makeprg env ea' a = None) \<longrightarrow>
        map_sum id b_cmdline (nvim_cmd env c opts)
          = Inr (cmdline_str (v_ea v) (v_cmdinfo v) (v_args v)))
   \<and> (\<not> is_lower (first_char (cmd (v_ea v))) \<and> \<not> is_digit (first_char (cmd (v_ea v)))
        \<and> cmd (v_ea v) \<noteq> [] \<longrightarrow>
        modifier_at (command_text (v_ea v) (v_args v)) = None)"
proof (intro conjI impI)
  show "apply_mods env ea cm (mods \<lparr> mods_tab := INTEGER_OBJ (- 1) \<rparr>)
     = apply_mods env ea cm (mods \<lparr> mods_tab := NIL \<rparr>)"
    by (rule apply_mods_tab_minus_one)
  show "apply_mods env ea cm (mods \<lparr> mods_verbose := INTEGER_OBJ (- 1) \<rparr>)
     = apply_mods env ea cm (mods \<lparr> mods_verbose := NIL \<rparr>)"
    by (rule apply_mods_verbose_minus_one)
next
  assume h: "nvim_cmd_validate env c opts = Inr v \<and> cmd_mods c = DICTIONARY_OBJ d
        \<and> keydict_cmd_mods env d = Inr m \<and> mods_tab m = INTEGER_OBJ (- 1)"
  then have "apply_mods env (v_ea v) cmdmod_clear m = Inr (cmdmod (v_cmdinfo v))"
    using validated_mods by blast
  from apply_mods_tab_dropped [OF this] h
  have z: "cmod_tab (cmdmod (v_cmdinfo v)) = 0" by (simp add: cmdmod_clear_def)
  then show "cmod_tab (cmdmod (v_cmdinfo v)) = 0" .
  from z show "tab_tokens (cmdmod (v_cmdinfo v)) = []" by (simp add: tab_tokens_def)
next
  assume h: "nvim_cmd_validate env c opts = Inr v \<and> cmd_mods c = DICTIONARY_OBJ d
        \<and> keydict_cmd_mods env d = Inr m \<and> mods_verbose m = INTEGER_OBJ (- 1)"
  then have "apply_mods env (v_ea v) cmdmod_clear m = Inr (cmdmod (v_cmdinfo v))"
    using validated_mods by blast
  from apply_mods_verbose_dropped [OF this] h
  have z: "cmod_verbose (cmdmod (v_cmdinfo v)) = 0" by (simp add: cmdmod_clear_def)
  then show "cmod_verbose (cmdmod (v_cmdinfo v)) = 0" .
  from z show "verbose_tokens (cmdmod (v_cmdinfo v)) = []" by (simp add: verbose_tokens_def)
next
  assume h: "nvim_cmd_validate env c opts = Inr v \<and> cmd_mods c = DICTIONARY_OBJ d
        \<and> keydict_cmd_mods env d = Inr m \<and> mods_tab m = INTEGER_OBJ (- 1)
        \<and> modifier_at (command_text (v_ea v) (v_args v)) = None"
  then have v: "nvim_cmd_validate env c opts = Inr v"
    and n: "modifier_at (command_text (v_ea v) (v_args v)) = None" by simp_all
  from h have "apply_mods env (v_ea v) cmdmod_clear m = Inr (cmdmod (v_cmdinfo v))"
    using validated_mods by blast
  from apply_mods_tab_dropped [OF this] h
  have z: "cmod_tab (cmdmod (v_cmdinfo v)) = 0" by (simp add: cmdmod_clear_def)
  note rt = tab_round_trip [OF v z n]
  show "cmod_tab (fst (parse_command_modifiers
            (cmdline_str (v_ea v) (v_cmdinfo v) (v_args v)) cmdmod_clear)) = 0"
    by (rule rt(1))
  show "snd (parse_command_modifiers (cmdline_str (v_ea v) (v_cmdinfo v) (v_args v)) cmdmod_clear)
      = command_text (v_ea v) (v_args v)"
    by (rule rt(2))
  show "\<forall>dict. nvim_parse_cmd (penv \<lparr> parse_cmdline := parse_cmdline_mods parse_command \<rparr>)
                     (cmdline_str (v_ea v) (v_cmdinfo v) (v_args v)) [] = Some (Inr dict) \<longrightarrow>
                   mods_entry dict ''tab'' = Some (INTEGER_OBJ (- 1))"
    using rt(3) by blast
  show "\<forall>pea pci args. parse_command (command_text (v_ea v) (v_args v)) = Inr (pea, pci)
                     \<and> parse_args penv pea = Some args \<longrightarrow>
                   (\<exists>dict. nvim_parse_cmd (penv \<lparr> parse_cmdline := parse_cmdline_mods parse_command \<rparr>)
                             (cmdline_str (v_ea v) (v_cmdinfo v) (v_args v)) [] = Some (Inr dict)
                          \<and> mods_entry dict ''tab'' = Some (INTEGER_OBJ (- 1)))"
    using rt(4) by blast
next
  assume h: "nvim_cmd_validate env c opts = Inr v \<and> cmd_mods c = DICTIONARY_OBJ d
        \<and> keydict_cmd_mods env d = Inr m \<and> mods_verbose m = INTEGER_OBJ (- 1)
        \<and> modifier_at (command_text (v_ea v) (v_args v)) = None"
  then have v: "nvim_cmd_validate env c opts = Inr v"
    and n: "modifier_at (command_text (v_ea v) (v_args v)) = None" by simp_all
  from h have "apply_mods env (v_ea v) cmdmod_clear m = Inr (cmdmod (v_cmdinfo v))"
    using validated_mods by blast
  from apply_mods_verbose_dropped [OF this] h
  have z: "cmod_verbose (cmdmod (v_cmdinfo v)) = 0" by (simp add: cmdmod_clear_def)
  note rt = verbose_round_trip [OF v z n]
  show "cmod_verbose (fst (parse_command_modifiers
            (cmdline_str (v_ea v) (v_cmdinfo v) (v_args v)) cmdmod_clear)) = 0"
    by (rule rt(1))
  show "snd (parse_command_modifiers (cmdline_str (v_ea v) (v_cmdinfo v) (v_args v)) cmdmod_clear)
      = command_text (v_ea v) (v_args v)"
    by (rule rt(2))
  show "\<forall>dict. nvim_parse_cmd (penv \<lparr> parse_cmdline := parse_cmdline_mods parse_command \<rparr>)
                     (cmdline_str (v_ea v) (v_cmdinfo v) (v_args v)) [] = Some (Inr dict) \<longrightarrow>
                   mods_entry dict ''verbose'' = Some (INTEGER_OBJ (- 1))"
    using rt(3) by blast
  show "\<forall>pea pci args. parse_command (command_text (v_ea v) (v_args v)) = Inr (pea, pci)
                     \<and> parse_args penv pea = Some args \<longrightarrow>
                   (\<exists>dict. nvim_parse_cmd (penv \<lparr> parse_cmdline := parse_cmdline_mods parse_command \<rparr>)
                             (cmdline_str (v_ea v) (v_cmdinfo v) (v_args v)) [] = Some (Inr dict)
                          \<and> mods_entry dict ''verbose'' = Some (INTEGER_OBJ (- 1)))"
    using rt(4) by blast
next
  assume h: "nvim_cmd_validate env c opts = Inr v \<and> (\<forall>ea' a. replace_makeprg env ea' a = None)"
  then have "b_cmdline (build_cmdline_str env (v_ea v) (v_cmdinfo v) (v_args v))
      = cmdline_str (v_ea v) (v_cmdinfo v) (v_args v)"
    using build_cmdline_str_line by blast
  with h show "map_sum id b_cmdline (nvim_cmd env c opts)
      = Inr (cmdline_str (v_ea v) (v_cmdinfo v) (v_args v))"
    by (simp add: nvim_cmd_def)
next
  assume h: "\<not> is_lower (first_char (cmd (v_ea v))) \<and> \<not> is_digit (first_char (cmd (v_ea v)))
        \<and> cmd (v_ea v) \<noteq> []"
  then obtain c0 cs where "cmd (v_ea v) = c0 # cs" by (cases "cmd (v_ea v)") auto
  with h show "modifier_at (command_text (v_ea v) (v_args v)) = None"
    using command_text_not_lower [of "v_ea v" c0 cs "v_args v"] by (simp add: first_char_def)
qed

lemma sentinel_parse_result:
  assumes "parse_cmdline_mods sample_parse_command line = Inr (sentinel_parsed, ci)"
    and "NUL \<notin> set line"
  shows "nvim_parse_cmd sample_mods_parse_env line []
           = Some (Inr (parse_result sample_mods_parse_env sentinel_parsed ci [''x y'']))"
  using assms
  by (simp add: nvim_parse_cmd_def sample_mods_parse_env_def cstr_whole parse_args_def
      sentinel_parsed_def)

theorem C6_negative_sentinel_witness:
  "nvim_cmd_validate sample_env (sentinel_cmd (INTEGER_OBJ (- 1))) no_opts
     = Inr (projr (nvim_cmd_validate sample_env (sentinel_cmd (INTEGER_OBJ (- 1))) no_opts))
   \<and> cmd_mods (sentinel_cmd (INTEGER_OBJ (- 1))) = DICTIONARY_OBJ (sentinel_mods (INTEGER_OBJ (- 1)))
   \<and> mods_tab (projr (keydict_cmd_mods sample_env (sentinel_mods (INTEGER_OBJ (- 1)))))
       = INTEGER_OBJ (- 1)
   \<and> mods_verbose (projr (keydict_cmd_mods sample_env (sentinel_mods (INTEGER_OBJ (- 1)))))
       = INTEGER_OBJ (- 1)
   \<and> tab_tokens (cmdmod (v_cmdinfo (projr (nvim_cmd_validate sample_env
        (sentinel_cmd (INTEGER_OBJ (- 1))) no_opts)))) = []
   \<and> verbose_tokens (cmdmod (v_cmdinfo (projr (nvim_cmd_validate sample_env
        (sentinel_cmd (INTEGER_OBJ (- 1))) no_opts)))) = []
   \<and> map_sum id b_cmdline (nvim_cmd sample_env (sentinel_cmd (INTEGER_OBJ (- 1))) no_opts)
       = Inr ''silent One x y''
   \<and> cmd (v_ea (projr (nvim_cmd_validate sample_env (sentinel_cmd (INTEGER_OBJ (- 1))) no_opts)))
       = ''One''
   \<and> \<not> is_lower (CHR ''O'') \<and> \<not> is_digit (CHR ''O'')
   \<and> command_text
        (v_ea (projr (nvim_cmd_validate sample_env (sentinel_cmd (INTEGER_OBJ (- 1))) no_opts)))
        (v_args (projr (nvim_cmd_validate sample_env (sentinel_cmd (INTEGER_OBJ (- 1))) no_opts)))
       = ''One x y''
   \<and> modifier_at ''One x y'' = None
   \<and> (\<exists>dict. nvim_parse_cmd sample_mods_parse_env ''silent One x y'' [] = Some (Inr dict)
         \<and> mods_entry dict ''tab'' = Some (INTEGER_OBJ (- 1))
         \<and> mods_entry dict ''verbose'' = Some (INTEGER_OBJ (- 1))
         \<and> mods_entry dict ''silent'' = Some (BOOLEAN_OBJ True)
         \<and> map_of dict ''args'' = Some (ARRAY_OBJ [STRING_OBJ ''x y'']))
   \<and> map_sum id b_cmdline (nvim_cmd sample_env (sentinel_cmd (INTEGER_OBJ 3)) no_opts)
       = Inr ''3tab silent One x y''
   \<and> (\<exists>dict. nvim_parse_cmd sample_mods_parse_env ''3tab silent One x y'' [] = Some (Inr dict)
         \<and> mods_entry dict ''tab'' = Some (INTEGER_OBJ 3)
         \<and> mods_entry dict ''verbose'' = Some (INTEGER_OBJ (- 1)))"
proof -
  let ?c = "sentinel_cmd (INTEGER_OBJ (- 1))"
  let ?d = "sentinel_mods (INTEGER_OBJ (- 1))"
  let ?r = "nvim_cmd_validate sample_env ?c no_opts"
  let ?v = "projr ?r"
  let ?m = "projr (keydict_cmd_mods sample_env ?d)"
  let ?line = "cmdline_str (v_ea ?v) (v_cmdinfo ?v) (v_args ?v)"
  let ?c3 = "sentinel_cmd (INTEGER_OBJ 3)"
  let ?d3 = "sentinel_mods (INTEGER_OBJ 3)"
  let ?r3 = "nvim_cmd_validate sample_env ?c3 no_opts"
  let ?v3 = "projr ?r3"
  let ?m3 = "projr (keydict_cmd_mods sample_env ?d3)"
  let ?line3 = "cmdline_str (v_ea ?v3) (v_cmdinfo ?v3) (v_args ?v3)"
  note inst = C6_negative_sentinel [where env = sample_env and c = ?c and opts = no_opts
      and v = ?v and d = ?d and m = ?m and penv = sample_parse_env
      and parse_command = sample_parse_command and ea = exarg_clear and cm = cmdmod_clear
      and mods = ?m]
  note inst3 = C6_negative_sentinel [where env = sample_env and c = ?c3 and opts = no_opts
      and v = ?v3 and d = ?d3 and m = ?m3 and penv = sample_parse_env
      and parse_command = sample_parse_command and ea = exarg_clear and cm = cmdmod_clear
      and mods = ?m3]
  have penv: "sample_parse_env \<lparr> parse_cmdline := parse_cmdline_mods sample_parse_command \<rparr>
      = sample_mods_parse_env"
    by (simp add: sample_mods_parse_env_def)
  have "\<not> isl ?r" by code_simp
  then have h1: "?r = Inr ?v" by simp
  have h2: "cmd_mods ?c = DICTIONARY_OBJ ?d" by (simp add: sentinel_cmd_def)
  have h3: "keydict_cmd_mods sample_env ?d = Inr ?m"
    by (simp add: sample_env_def sample_keydict_mods_def)
  have h4: "mods_tab ?m = INTEGER_OBJ (- 1)" by code_simp
  have h5: "mods_verbose ?m = INTEGER_OBJ (- 1)" by code_simp
  have nm: "\<forall>ea' a. replace_makeprg sample_env ea' a = None" by (simp add: sample_env_def)
  have line: "?line = ''silent One x y''" by code_simp
  have ct: "command_text (v_ea ?v) (v_args ?v) = ''One x y''" by code_simp
  have nm1: "cmd (v_ea ?v) = ''One''" by code_simp
  have lo: "\<not> is_lower (CHR ''O'')" and di: "\<not> is_digit (CHR ''O'')"
    by (simp_all add: is_lower_def is_digit_def)
  from inst [THEN conjunct2, THEN conjunct2, THEN conjunct2, THEN conjunct2, THEN conjunct2,
      THEN conjunct2, THEN conjunct2, rule_format] nm1 lo di
  have h6: "modifier_at (command_text (v_ea ?v) (v_args ?v)) = None"
    by (simp add: first_char_def)
  with ct have none: "modifier_at ''One x y'' = None" by simp
  have pc0: "sample_parse_command ''One x y'' = Inr (sentinel_parsed, cmdinfo_clear)"
    by code_simp
  with ct have pc: "sample_parse_command (command_text (v_ea ?v) (v_args ?v))
      = Inr (sentinel_parsed, cmdinfo_clear)" by simp
  have pa: "parse_args sample_parse_env sentinel_parsed = Some [''x y'']"
    by (simp add: parse_args_def sentinel_parsed_def)
  from inst h1 h2 h3 h4 have r1: "tab_tokens (cmdmod (v_cmdinfo ?v)) = []" by blast
  from inst h1 h2 h3 h5 have r2: "verbose_tokens (cmdmod (v_cmdinfo ?v)) = []" by blast
  from inst [THEN conjunct2, THEN conjunct2, THEN conjunct2, THEN conjunct2, THEN conjunct2,
      THEN conjunct2, THEN conjunct1, rule_format] h1 nm
  have "map_sum id b_cmdline (nvim_cmd sample_env ?c no_opts) = Inr ?line" by blast
  with line have ev: "map_sum id b_cmdline (nvim_cmd sample_env ?c no_opts)
      = Inr ''silent One x y''" by simp
  note tab = inst [THEN conjunct2, THEN conjunct2, THEN conjunct2, THEN conjunct2,
      THEN conjunct1, rule_format, OF conjI [OF h1 conjI [OF h2 conjI [OF h3 conjI [OF h4 h6]]]]]
  note verb = inst [THEN conjunct2, THEN conjunct2, THEN conjunct2, THEN conjunct2,
      THEN conjunct2, THEN conjunct1, rule_format,
      OF conjI [OF h1 conjI [OF h2 conjI [OF h3 conjI [OF h5 h6]]]]]
  from tab [THEN conjunct2, THEN conjunct2, THEN conjunct2, rule_format,
      OF conjI [OF pc pa]]
  obtain dict where d: "nvim_parse_cmd sample_mods_parse_env ''silent One x y'' []
      = Some (Inr dict)" and t: "mods_entry dict ''tab'' = Some (INTEGER_OBJ (- 1))"
    unfolding penv line by blast
  from verb [THEN conjunct2, THEN conjunct2, THEN conjunct1, rule_format, of dict] d
  have vb: "mods_entry dict ''verbose'' = Some (INTEGER_OBJ (- 1))"
    unfolding penv line by blast
  have tk: "parse_cmdline_mods sample_parse_command ''silent One x y''
      = Inr (sentinel_parsed, cmdinfo_clear \<lparr> cmdmod := add_cmod_flags {CMOD_SILENT} cmdmod_clear \<rparr>)"
    by code_simp
  from sentinel_parse_result [OF tk] d
  have "dict = parse_result sample_mods_parse_env sentinel_parsed
      (cmdinfo_clear \<lparr> cmdmod := add_cmod_flags {CMOD_SILENT} cmdmod_clear \<rparr>) [''x y'']"
    by simp
  then have sl: "mods_entry dict ''silent'' = Some (BOOLEAN_OBJ True)"
    and ar: "map_of dict ''args'' = Some (ARRAY_OBJ [STRING_OBJ ''x y''])"
    by (simp_all add: mods_entry_def parse_result_mods parse_result_args parse_mods_def
        add_cmod_flags_def)
  from d t vb sl ar
  have rt: "\<exists>dict. nvim_parse_cmd sample_mods_parse_env ''silent One x y'' [] = Some (Inr dict)
         \<and> mods_entry dict ''tab'' = Some (INTEGER_OBJ (- 1))
         \<and> mods_entry dict ''verbose'' = Some (INTEGER_OBJ (- 1))
         \<and> mods_entry dict ''silent'' = Some (BOOLEAN_OBJ True)
         \<and> map_of dict ''args'' = Some (ARRAY_OBJ [STRING_OBJ ''x y''])" by blast
  have "\<not> isl ?r3" by code_simp
  then have g1: "?r3 = Inr ?v3" by simp
  have g2: "cmd_mods ?c3 = DICTIONARY_OBJ ?d3" by (simp add: sentinel_cmd_def)
  have g3: "keydict_cmd_mods sample_env ?d3 = Inr ?m3"
    by (simp add: sample_env_def sample_keydict_mods_def)
  have g5: "mods_verbose ?m3 = INTEGER_OBJ (- 1)" by code_simp
  have line3: "?line3 = ''3tab silent One x y''" by code_simp
  have ct3: "command_text (v_ea ?v3) (v_args ?v3) = ''One x y''" by code_simp
  with none have g6: "modifier_at (command_text (v_ea ?v3) (v_args ?v3)) = None" by simp
  from pc0 ct3 have pc3: "sample_parse_command (command_text (v_ea ?v3) (v_args ?v3))
      = Inr (sentinel_parsed, cmdinfo_clear)" by simp
  from inst3 [THEN conjunct2, THEN conjunct2, THEN conjunct2, THEN conjunct2, THEN conjunct2,
      THEN conjunct2, THEN conjunct1, rule_format] g1 nm
  have "map_sum id b_cmdline (nvim_cmd sample_env ?c3 no_opts) = Inr ?line3" by blast
  with line3 have ev3: "map_sum id b_cmdline (nvim_cmd sample_env ?c3 no_opts)
      = Inr ''3tab silent One x y''" by simp
  note verb3 = inst3 [THEN conjunct2, THEN conjunct2, THEN conjunct2, THEN conjunct2,
      THEN conjunct2, THEN conjunct1, rule_format,
      OF conjI [OF g1 conjI [OF g2 conjI [OF g3 conjI [OF g5 g6]]]]]
  from verb3 [THEN conjunct2, THEN conjunct2, THEN conjunct2, rule_format,
      OF conjI [OF pc3 pa]]
  obtain dict3 where d3: "nvim_parse_cmd sample_mods_parse_env ''3tab silent One x y'' []
      = Some (Inr dict3)" and vb3: "mods_entry dict3 ''verbose'' = Some (INTEGER_OBJ (- 1))"
    unfolding penv line3 by blast
  have tk3: "parse_cmdline_mods sample_parse_command ''3tab silent One x y''
      = Inr (sentinel_parsed,
          cmdinfo_clear \<lparr> cmdmod := add_cmod_flags {CMOD_SILENT} (cmdmod_clear \<lparr> cmod_tab := 4 \<rparr>) \<rparr>)"
    by code_simp
  from sentinel_parse_result [OF tk3] d3
  have "dict3 = parse_result sample_mods_parse_env sentinel_parsed
      (cmdinfo_clear \<lparr> cmdmod := add_cmod_flags {CMOD_SILENT} (cmdmod_clear \<lparr> cmod_tab := 4 \<rparr>) \<rparr>)
      [''x y'']"
    by simp
  then have t3: "mods_entry dict3 ''tab'' = Some (INTEGER_OBJ 3)"
    by (simp add: mods_entry_def parse_result_mods parse_mods_def add_cmod_flags_def)
  from d3 t3 vb3
  have rt3: "\<exists>dict. nvim_parse_cmd sample_mods_parse_env ''3tab silent One x y'' []
           = Some (Inr dict)
         \<and> mods_entry dict ''tab'' = Some (INTEGER_OBJ 3)
         \<and> mods_entry dict ''verbose'' = Some (INTEGER_OBJ (- 1))" by blast
  from h1 h2 h4 h5 r1 r2 ev nm1 lo di ct none rt ev3 rt3 show ?thesis by blast
qed
section \<open>Splitting the arguments of a parsed line\<close>

lemma split_args_loop_from:
  assumes "split_done iter a k" and "\<forall>j<k. \<not> split_done iter a j" and "j \<le> k"
  shows "split_args_loop iter a (length a) (split_end iter a j) acc
           = Some (acc @ filter (\<lambda>s. s \<noteq> []) (map (split_seg iter a) [j..<Suc k]))"
  using assms(3)
proof (induction "k - j" arbitrary: j acc)
  case 0
  then have jk: "j = k" by simp
  obtain d e buf where it: "iter a (length a) (split_end iter a k) = (d, e, buf)"
    by (cases "iter a (length a) (split_end iter a k)") auto
  with assms(1) have d by (simp add: split_done_def)
  with it jk show ?case
    by (subst split_args_loop.simps) (simp add: split_seg_def)
next
  case (Suc n)
  then have lt: "j < k" and n: "n = k - Suc j" and le: "Suc j \<le> k" by simp_all
  obtain d e buf where it: "iter a (length a) (split_end iter a j) = (d, e, buf)"
    by (cases "iter a (length a) (split_end iter a j)") auto
  with assms(2) lt have nd: "\<not> d" by (auto simp: split_done_def)
  from it have e: "split_end iter a (Suc j) = e" by simp
  have range: "[j..<Suc k] = j # [Suc j..<Suc k]"
    using lt by (simp add: upt_conv_Cons)
  have "split_args_loop iter a (length a) (split_end iter a j) acc
          = split_args_loop iter a (length a) (split_end iter a (Suc j))
              (if length buf > 0 then acc @ [buf] else acc)"
    using it nd e by (subst split_args_loop.simps) simp
  also have "\<dots> = Some ((if length buf > 0 then acc @ [buf] else acc)
                     @ filter (\<lambda>s. s \<noteq> []) (map (split_seg iter a) [Suc j..<Suc k]))"
    using Suc.hyps(1) [OF n le] .
  also have "\<dots> = Some (acc @ filter (\<lambda>s. s \<noteq> []) (map (split_seg iter a) [j..<Suc k]))"
  proof -
    have seg: "split_seg iter a j = buf" using it by (simp add: split_seg_def)
    have "filter (\<lambda>s. s \<noteq> []) (map (split_seg iter a) [j..<Suc k])
            = (if buf \<noteq> [] then [buf] else [])
              @ filter (\<lambda>s. s \<noteq> []) (map (split_seg iter a) [Suc j..<Suc k])"
      by (subst range) (simp add: seg)
    then show ?thesis by simp
  qed
  finally show ?case .
qed

lemma split_args_loop_result:
  assumes "split_done iter a k" and "\<forall>j<k. \<not> split_done iter a j"
  shows "split_args_loop iter a (length a) 0 []
           = Some (filter (\<lambda>s. s \<noteq> []) (map (split_seg iter a) [0..<Suc k]))"
  using split_args_loop_from [OF assms, of 0 "[]"] by simp

lemma has_arity_NOSPC:
  "has_arity flags a \<Longrightarrow> EX_NOSPC \<in> flags \<longleftrightarrow> a \<in> {ExactlyOne, ZeroOrOne}"
  by (cases a) (auto simp: has_arity_def)

text \<open>
  C9.  When the contract's arity is exactly-one or zero-or-one, the whole trailing text
  is the single argument (no argument when the text is empty).  For every other arity
  the arguments are what the loop over the splitter collects: if call \<open>k\<close> is the first
  that reports done, they are the non-empty segments of calls \<open>0..k\<close>, in that order.
  They are the \<^verbatim>\<open>args\<close> entry of the Dictionary \<^verbatim>\<open>nvim_parse_cmd\<close> returns.
\<close>

theorem C9_parse_args:
  assumes "has_arity (argt ea) a"
  shows "(a \<in> {ExactlyOne, ZeroOrOne} \<longrightarrow>
            parse_args env ea = Some (if arg ea = [] then [] else [arg ea]))
       \<and> (a \<notin> {ExactlyOne, ZeroOrOne} \<longrightarrow>
            parse_args env ea
              = split_args_loop (uc_split_args_iter env) (arg ea) (length (arg ea)) 0 []
          \<and> (\<forall>k. split_done (uc_split_args_iter env) (arg ea) k
                   \<and> (\<forall>j<k. \<not> split_done (uc_split_args_iter env) (arg ea) j) \<longrightarrow>
                 parse_args env ea
                   = Some (filter (\<lambda>s. s \<noteq> [])
                       (map (split_seg (uc_split_args_iter env) (arg ea)) [0..<Suc k]))))
       \<and> (\<forall>line dict ci. nvim_parse_cmd env line [] = Some (Inr dict)
              \<and> parse_cmdline env (cstr line) = Inr (ea, ci) \<longrightarrow>
            (\<exists>args. parse_args env ea = Some args
                  \<and> map_of dict ''args'' = Some (ARRAY_OBJ (map STRING_OBJ args))))"
proof (intro conjI impI allI)
  assume "a \<in> {ExactlyOne, ZeroOrOne}"
  with has_arity_NOSPC [OF assms] have "EX_NOSPC \<in> argt ea" by simp
  then show "parse_args env ea = Some (if arg ea = [] then [] else [arg ea])"
    by (simp add: parse_args_def)
next
  assume "a \<notin> {ExactlyOne, ZeroOrOne}"
  with has_arity_NOSPC [OF assms] have "EX_NOSPC \<notin> argt ea" by simp
  then show "parse_args env ea
              = split_args_loop (uc_split_args_iter env) (arg ea) (length (arg ea)) 0 []"
    by (simp add: parse_args_def)
next
  fix k
  assume na: "a \<notin> {ExactlyOne, ZeroOrOne}"
    and d: "split_done (uc_split_args_iter env) (arg ea) k
                   \<and> (\<forall>j<k. \<not> split_done (uc_split_args_iter env) (arg ea) j)"
  from na has_arity_NOSPC [OF assms] have "EX_NOSPC \<notin> argt ea" by simp
  then have "parse_args env ea
              = split_args_loop (uc_split_args_iter env) (arg ea) (length (arg ea)) 0 []"
    by (simp add: parse_args_def)
  also from d have "\<dots> = Some (filter (\<lambda>s. s \<noteq> [])
                       (map (split_seg (uc_split_args_iter env) (arg ea)) [0..<Suc k]))"
    by (intro split_args_loop_result) simp_all
  finally show "parse_args env ea
                   = Some (filter (\<lambda>s. s \<noteq> [])
                       (map (split_seg (uc_split_args_iter env) (arg ea)) [0..<Suc k]))" .
next
  fix line dict ci
  assume "nvim_parse_cmd env line [] = Some (Inr dict)
              \<and> parse_cmdline env (cstr line) = Inr (ea, ci)"
  then obtain args where "parse_args env ea = Some args"
    and "dict = parse_result env ea ci args"
    using nvim_parse_cmd_result by blast
  then show "\<exists>args. parse_args env ea = Some args
                  \<and> map_of dict ''args'' = Some (ARRAY_OBJ (map STRING_OBJ args))"
    by (simp add: parse_result_args)
qed

theorem C9_parse_args_witness:
  "has_arity (argt (exarg_clear \<lparr> arg := ''a  bc d'', argt := {EX_EXTRA, EX_NOSPC} \<rparr>)) ZeroOrOne
   \<and> parse_args sample_parse_env (exarg_clear \<lparr> arg := ''a  bc d'', argt := {EX_EXTRA, EX_NOSPC} \<rparr>)
       = Some [''a  bc d'']
   \<and> has_arity (argt (exarg_clear \<lparr> argt := {EX_EXTRA, EX_NOSPC} \<rparr>)) ZeroOrOne
   \<and> parse_args sample_parse_env (exarg_clear \<lparr> argt := {EX_EXTRA, EX_NOSPC} \<rparr>) = Some []
   \<and> has_arity (argt (exarg_clear \<lparr> arg := ''a  bc d'', cmd := ''Many a  bc d'',
         argt := {EX_EXTRA}, cmdidx := CMD_USER, useridx := 2, addr_type := ADDR_NONE \<rparr>))
       ZeroOrMore
   \<and> split_done sample_split ''a  bc d'' 2
   \<and> \<not> split_done sample_split ''a  bc d'' 0
   \<and> \<not> split_done sample_split ''a  bc d'' 1
   \<and> parse_args sample_parse_env (exarg_clear \<lparr> arg := ''a  bc d'', cmd := ''Many a  bc d'',
         argt := {EX_EXTRA}, cmdidx := CMD_USER, useridx := 2, addr_type := ADDR_NONE \<rparr>)
       = Some [''a'', ''bc'', ''d'']
   \<and> map_of (projr (the (nvim_parse_cmd sample_parse_env ''Many a  bc d'' []))) ''args''
       = Some (ARRAY_OBJ [STRING_OBJ ''a'', STRING_OBJ ''bc'', STRING_OBJ ''d''])"
proof -
  let ?one = "exarg_clear \<lparr> arg := ''a  bc d'', argt := {EX_EXTRA, EX_NOSPC} \<rparr>"
  let ?empty = "exarg_clear \<lparr> argt := {EX_EXTRA, EX_NOSPC} \<rparr>"
  let ?many = "exarg_clear \<lparr> arg := ''a  bc d'', cmd := ''Many a  bc d'',
         argt := {EX_EXTRA}, cmdidx := CMD_USER, useridx := 2, addr_type := ADDR_NONE \<rparr>"
  let ?dict = "projr (the (nvim_parse_cmd sample_parse_env ''Many a  bc d'' []))"
  have h1: "has_arity (argt ?one) ZeroOrOne" by (simp add: has_arity_def)
  have h2: "has_arity (argt ?empty) ZeroOrOne" by (simp add: has_arity_def)
  have h3: "has_arity (argt ?many) ZeroOrMore" by (simp add: has_arity_def)
  from C9_parse_args [OF h1, of sample_parse_env]
  have r1: "parse_args sample_parse_env ?one = Some [''a  bc d'']" by simp
  from C9_parse_args [OF h2, of sample_parse_env]
  have r2: "parse_args sample_parse_env ?empty = Some []" by (simp add: exarg_clear_def)
  have it: "uc_split_args_iter sample_parse_env = sample_split" "arg ?many = ''a  bc d''"
    by (simp_all add: sample_parse_env_def)
  have d2: "split_done sample_split ''a  bc d'' 2"
    and d0: "\<not> split_done sample_split ''a  bc d'' 0"
    and d1: "\<not> split_done sample_split ''a  bc d'' 1"
    by code_simp+
  have first: "\<forall>j<2. \<not> split_done sample_split ''a  bc d'' j"
    using d0 d1 by (auto simp: less_Suc_eq numeral_2_eq_2)
  have segs: "filter (\<lambda>s. s \<noteq> []) (map (split_seg sample_split ''a  bc d'') [0..<Suc 2])
      = [''a'', ''bc'', ''d'']" by code_simp
  note inst = C9_parse_args [OF h3, of sample_parse_env, unfolded it]
  from inst d2 first have "parse_args sample_parse_env ?many
      = Some (filter (\<lambda>s. s \<noteq> []) (map (split_seg sample_split ''a  bc d'') [0..<Suc 2]))"
    by blast
  with segs have r3: "parse_args sample_parse_env ?many = Some [''a'', ''bc'', ''d'']" by simp
  have p1: "nvim_parse_cmd sample_parse_env ''Many a  bc d'' [] = Some (Inr ?dict)"
    by (simp add: sample_parse_many)
  note p2 = sample_tokenize_many
  from inst p1 p2 obtain args where "parse_args sample_parse_env ?many = Some args"
    and "map_of ?dict ''args'' = Some (ARRAY_OBJ (map STRING_OBJ args))" by blast
  with r3 have r4: "map_of ?dict ''args''
       = Some (ARRAY_OBJ [STRING_OBJ ''a'', STRING_OBJ ''bc'', STRING_OBJ ''d''])" by simp
  from h1 r1 h2 r2 h3 d2 d0 d1 r3 r4 show ?thesis by blast
qed

section \<open>Defining a user command twice\<close>

lemma uc_prepare_result:
  assumes "uc_prepare env name command opts = Inr (entry, force)"
  shows "uc_name entry = name"
    and "api_object_to_bool env (o_force opts) ''force'' True = Inr force"
  using assms unfolding uc_prepare_def and_then_eq_Inr
  by (auto split: prod.splits)

lemma scope_table_set [simp]: "scope_table (set_scope_table reg flags tbl) flags = tbl"
  by (simp add: scope_table_def set_scope_table_def)

lemma replace_entry_names: "map uc_name (replace_entry e tbl) = map uc_name tbl"
  by (induction tbl) auto

lemma replace_entry_find:
  "uc_name e \<in> set (map uc_name tbl) \<Longrightarrow> find_ucmd (uc_name e) (replace_entry e tbl) = Some e"
  by (induction tbl) (auto simp: find_ucmd_def)

text \<open>
  C2, as amended.  For an already registered name: a define call whose \<^verbatim>\<open>force\<close>
  stands for false fails and leaves the registry as it was (when the attributes are
  valid, with the exception \<^verbatim>\<open>Failed to create user command\<close>); the \<^verbatim>\<open>force\<close> passed
  on is the value of the key, true when the key is absent; and a call with \<^verbatim>\<open>force\<close>
  true and valid attributes succeeds and overwrites the entry in place.
\<close>

theorem C2_redefine:
  assumes "name \<in> set (map uc_name (scope_table reg flags))"
  shows "(api_object_to_bool env (o_force opts) ''force'' True = Inr False \<longrightarrow>
            (\<exists>e. create_user_command env name command opts flags reg = (Some e, reg)))
       \<and> (\<forall>entry. uc_prepare env name command opts = Inr (entry, False) \<longrightarrow>
            create_user_command env name command opts flags reg
              = (Some (kErrorTypeException, ''Failed to create user command''), reg))
       \<and> (\<forall>entry force. uc_prepare env name command opts = Inr (entry, force) \<longrightarrow>
            api_object_to_bool env (o_force opts) ''force'' True = Inr force
            \<and> uc_name entry = name)
       \<and> (\<forall>entry. uc_prepare env name command opts = Inr (entry, True) \<longrightarrow>
            (\<exists>reg'. create_user_command env name command opts flags reg = (None, reg')
               \<and> find_ucmd name (scope_table reg' flags) = Some entry
               \<and> map uc_name (scope_table reg' flags) = map uc_name (scope_table reg flags)))"
proof (intro conjI impI allI)
  fix entry
  assume p: "uc_prepare env name command opts = Inr (entry, False)"
  with uc_prepare_result(1) [OF p] assms
  show "create_user_command env name command opts flags reg
              = (Some (kErrorTypeException, ''Failed to create user command''), reg)"
    by (simp add: create_user_command_def uc_add_command_def Let_def)
next
  assume f: "api_object_to_bool env (o_force opts) ''force'' True = Inr False"
  show "\<exists>e. create_user_command env name command opts flags reg = (Some e, reg)"
  proof (cases "uc_prepare env name command opts")
    case (Inl e)
    then show ?thesis by (simp add: create_user_command_def)
  next
    case (Inr p)
    obtain entry force where p: "p = (entry, force)" by (cases p) auto
    with Inr uc_prepare_result [of env name command opts entry force] f
    have "force = False" and "uc_name entry = name" by simp_all
    with Inr p assms show ?thesis
      by (simp add: create_user_command_def uc_add_command_def Let_def)
  qed
next
  fix entry force
  assume p: "uc_prepare env name command opts = Inr (entry, force)"
  from uc_prepare_result [OF p]
  show "api_object_to_bool env (o_force opts) ''force'' True = Inr force"
    and "uc_name entry = name" by simp_all
next
  fix entry
  assume p: "uc_prepare env name command opts = Inr (entry, True)"
  let ?reg' = "set_scope_table reg flags (replace_entry entry (scope_table reg flags))"
  from uc_prepare_result(1) [OF p] have n: "uc_name entry = name" .
  with p assms have "create_user_command env name command opts flags reg = (None, ?reg')"
    by (simp add: create_user_command_def uc_add_command_def Let_def)
  moreover from n assms have "find_ucmd name (scope_table ?reg' flags) = Some entry"
    using replace_entry_find [of entry "scope_table reg flags"] by simp
  moreover have "map uc_name (scope_table ?reg' flags) = map uc_name (scope_table reg flags)"
    by (simp add: replace_entry_names)
  ultimately show "\<exists>reg'. create_user_command env name command opts flags reg = (None, reg')
               \<and> find_ucmd name (scope_table reg' flags) = Some entry
               \<and> map uc_name (scope_table reg' flags) = map uc_name (scope_table reg flags)"
    by blast
qed

lemma sample_prepare:
  "uc_prepare sample_uc_env ''Hello'' (STRING_OBJ ''echo 2'') (no_attrs \<lparr> o_force := f \<rparr>)
     = and_then (sample_object_to_bool f ''force'' True)
         (\<lambda>force. Inr (plain_entry ''Hello'' ''echo 2'', force))"
  by (simp add: uc_prepare_def sample_uc_env_def no_attrs_def uc_name_step_def
      uc_nargs_step_def uc_complete_check_def uc_range_step_def uc_count_step_def
      uc_addr_step_def uc_bool_step_def uc_complete_step_def uc_preview_step_def
      uc_command_step_def HAS_KEY_def first_char_def cstr_def sample_object_to_bool_def
      uc_locals_init_def plain_entry_def)

theorem C2_redefine_witness:
  "''Hello'' \<in> set (map uc_name (scope_table sample_registry {}))
   \<and> api_object_to_bool sample_uc_env (o_force (no_attrs \<lparr> o_force := BOOLEAN_OBJ False \<rparr>))
        ''force'' True = Inr False
   \<and> create_user_command sample_uc_env ''Hello'' (STRING_OBJ ''echo 2'')
        (no_attrs \<lparr> o_force := BOOLEAN_OBJ False \<rparr>) {} sample_registry
       = (Some (kErrorTypeException, ''Failed to create user command''), sample_registry)
   \<and> uc_prepare sample_uc_env ''Hello'' (STRING_OBJ ''echo 2'')
        (no_attrs \<lparr> o_force := BOOLEAN_OBJ True \<rparr>)
       = Inr (plain_entry ''Hello'' ''echo 2'', True)
   \<and> (\<exists>reg'. create_user_command sample_uc_env ''Hello'' (STRING_OBJ ''echo 2'')
                 (no_attrs \<lparr> o_force := BOOLEAN_OBJ True \<rparr>) {} sample_registry = (None, reg')
          \<and> find_ucmd ''Hello'' (scope_table reg' {}) = Some (plain_entry ''Hello'' ''echo 2''))"
proof -
  let ?off = "no_attrs \<lparr> o_force := BOOLEAN_OBJ False \<rparr>"
  let ?on = "no_attrs \<lparr> o_force := BOOLEAN_OBJ True \<rparr>"
  let ?e = "plain_entry ''Hello'' ''echo 2''"
  have h: "''Hello'' \<in> set (map uc_name (scope_table sample_registry {}))"
    by (simp add: scope_table_def sample_registry_def plain_entry_def)
  have f: "api_object_to_bool sample_uc_env (o_force ?off) ''force'' True = Inr False"
    by (simp add: sample_uc_env_def sample_object_to_bool_def)
  have p0: "uc_prepare sample_uc_env ''Hello'' (STRING_OBJ ''echo 2'') ?off = Inr (?e, False)"
    by (simp add: sample_prepare sample_object_to_bool_def)
  have p1: "uc_prepare sample_uc_env ''Hello'' (STRING_OBJ ''echo 2'') ?on = Inr (?e, True)"
    by (simp add: sample_prepare sample_object_to_bool_def)
  from C2_redefine [OF h, of sample_uc_env ?off "STRING_OBJ ''echo 2''"] p0
  have r1: "create_user_command sample_uc_env ''Hello'' (STRING_OBJ ''echo 2'') ?off {}
        sample_registry
       = (Some (kErrorTypeException, ''Failed to create user command''), sample_registry)"
    by blast
  from C2_redefine [OF h, of sample_uc_env ?on "STRING_OBJ ''echo 2''"] p1
  have r2: "\<exists>reg'. create_user_command sample_uc_env ''Hello'' (STRING_OBJ ''echo 2'') ?on {}
                 sample_registry = (None, reg')
          \<and> find_ucmd ''Hello'' (scope_table reg' {}) = Some ?e"
    by blast
  from h f r1 p1 r2 show ?thesis by blast
qed

text \<open>
  The claim as stated fails on the code: \<^verbatim>\<open>Hello\<close> is registered, and a second define
  call that passes no \<^verbatim>\<open>force\<close> at all (so does not pass \<^verbatim>\<open>force=true\<close>) succeeds
  and overwrites the entry: the key defaults to true (line 1150, and the documentation
  of \<^verbatim>\<open>nvim_create_user_command\<close>: "force: (boolean, default true)").
\<close>

theorem C2_counterexample:
  "find_ucmd ''Hello'' (ucmds sample_registry) = Some (plain_entry ''Hello'' ''echo 1'')
   \<and> o_force no_attrs = NIL
   \<and> fst (nvim_create_user_command sample_uc_env ''Hello'' (STRING_OBJ ''echo 2'') no_attrs
            sample_registry) = None
   \<and> find_ucmd ''Hello'' (ucmds (snd (nvim_create_user_command sample_uc_env ''Hello''
            (STRING_OBJ ''echo 2'') no_attrs sample_registry)))
       = Some (plain_entry ''Hello'' ''echo 2'')"
proof -
  have "uc_prepare sample_uc_env ''Hello'' (STRING_OBJ ''echo 2'') no_attrs
          = Inr (plain_entry ''Hello'' ''echo 2'', True)"
    using sample_prepare [of NIL] by (simp add: no_attrs_def sample_object_to_bool_def)
  then show ?thesis
    by (simp add: nvim_create_user_command_def create_user_command_def uc_add_command_def
        scope_table_def set_scope_table_def sample_registry_def find_ucmd_def no_attrs_def
        plain_entry_def)
qed

section \<open>Listing commands\<close>

text \<open>
  C8, as amended.  With \<^verbatim>\<open>builtin\<close> true, listing the global scope fails with the
  validation error \<^verbatim>\<open>builtin=true not implemented\<close> and lists nothing, while listing
  an existing buffer returns the empty Dictionary without an error.  With \<^verbatim>\<open>builtin\<close>
  false, the result is the listing \<^verbatim>\<open>commands_array\<close> makes of the scope: of the global
  table, or of the table of that buffer.
\<close>

theorem C8_get_commands:
  "(api_object_to_bool env (o_builtin opts) ''builtin'' False = Inr True \<longrightarrow>
      nvim_buf_get_commands env reg (- 1) opts
        = (Some (kErrorTypeValidation, ''builtin=true not implemented''), [])
      \<and> nvim_get_commands env reg opts
        = (Some (kErrorTypeValidation, ''builtin=true not implemented''), [])
      \<and> (\<forall>buffer buf. buffer \<noteq> - 1 \<and> find_buffer_by_handle env buffer = Inr buf \<longrightarrow>
            nvim_buf_get_commands env reg buffer opts = (None, [])))
   \<and> (api_object_to_bool env (o_builtin opts) ''builtin'' False = Inr False \<longrightarrow>
      nvim_buf_get_commands env reg (- 1) opts = (None, commands_array env reg None)
      \<and> nvim_get_commands env reg opts = (None, commands_array env reg None)
      \<and> (\<forall>buffer buf. buffer \<noteq> - 1 \<and> find_buffer_by_handle env buffer = Inr buf \<longrightarrow>
            nvim_buf_get_commands env reg buffer opts
              = (None, commands_array env reg (Some buf))))"
  by (simp add: nvim_buf_get_commands_def nvim_get_commands_def)

theorem C8_get_commands_witness:
  "api_object_to_bool sample_uc_env (o_builtin \<lparr> o_builtin = BOOLEAN_OBJ True \<rparr>) ''builtin'' False
     = Inr True
   \<and> nvim_get_commands sample_uc_env sample_registry \<lparr> o_builtin = BOOLEAN_OBJ True \<rparr>
       = (Some (kErrorTypeValidation, ''builtin=true not implemented''), [])
   \<and> (1 :: 64 word) \<noteq> - 1 \<and> find_buffer_by_handle sample_uc_env 1 = Inr 1
   \<and> nvim_buf_get_commands sample_uc_env sample_registry 1 \<lparr> o_builtin = BOOLEAN_OBJ True \<rparr>
       = (None, [])
   \<and> api_object_to_bool sample_uc_env (o_builtin \<lparr> o_builtin = NIL \<rparr>) ''builtin'' False
       = Inr False
   \<and> nvim_buf_get_commands sample_uc_env sample_registry (- 1) \<lparr> o_builtin = NIL \<rparr>
       = (None, [(''Hello'', STRING_OBJ ''echo 1'')])
   \<and> nvim_buf_get_commands sample_uc_env sample_registry 1 \<lparr> o_builtin = NIL \<rparr>
       = (None, [(''Local'', STRING_OBJ ''echo 3'')])"
proof -
  let ?t = "\<lparr> o_builtin = BOOLEAN_OBJ True \<rparr>"
  let ?f = "\<lparr> o_builtin = NIL \<rparr>"
  have h1: "api_object_to_bool sample_uc_env (o_builtin ?t) ''builtin'' False = Inr True"
    by (simp add: sample_uc_env_def sample_object_to_bool_def)
  have h2: "api_object_to_bool sample_uc_env (o_builtin ?f) ''builtin'' False = Inr False"
    by (simp add: sample_uc_env_def sample_object_to_bool_def)
  have b: "(1 :: 64 word) \<noteq> - 1" by simp
  have fb: "find_buffer_by_handle sample_uc_env 1 = Inr 1" by (simp add: sample_uc_env_def)
  note t = C8_get_commands [of sample_uc_env ?t sample_registry]
  note f = C8_get_commands [of sample_uc_env ?f sample_registry]
  from t h1 have r1: "nvim_get_commands sample_uc_env sample_registry ?t
       = (Some (kErrorTypeValidation, ''builtin=true not implemented''), [])" by blast
  from t h1 b fb have r2: "nvim_buf_get_commands sample_uc_env sample_registry 1 ?t = (None, [])"
    by blast
  from f h2 have "nvim_buf_get_commands sample_uc_env sample_registry (- 1) ?f
       = (None, commands_array sample_uc_env sample_registry None)" by blast
  then have r3: "nvim_buf_get_commands sample_uc_env sample_registry (- 1) ?f
       = (None, [(''Hello'', STRING_OBJ ''echo 1'')])"
    by (simp add: sample_registry_def sample_uc_env_def plain_entry_def)
  from f h2 b fb have "nvim_buf_get_commands sample_uc_env sample_registry 1 ?f
       = (None, commands_array sample_uc_env sample_registry (Some 1))" by blast
  then have r4: "nvim_buf_get_commands sample_uc_env sample_registry 1 ?f
       = (None, [(''Local'', STRING_OBJ ''echo 3'')])"
    by (simp add: sample_registry_def sample_uc_env_def plain_entry_def)
  from h1 r1 b fb r2 h2 r3 r4 show ?thesis by blast
qed

text \<open>
  The claim as stated fails on the code: for the buffer-local scope (buffer 1 exists),
  listing with \<^verbatim>\<open>builtin\<close> true sets no error; it returns the empty Dictionary
  (\<^verbatim>\<open>if (builtin || !buf)\<close>, line 1248).
\<close>

theorem C8_counterexample:
  "find_buffer_by_handle sample_uc_env 1 = Inr 1
   \<and> nvim_buf_get_commands sample_uc_env sample_registry 1 \<lparr> o_builtin = BOOLEAN_OBJ True \<rparr>
       = (None, [])"
  by (simp add: nvim_buf_get_commands_def sample_uc_env_def sample_object_to_bool_def)

end
